(* ===== verification/Go_Prelude.thy ===== *)
theory Go_Prelude
  imports Complex_Main "HOL-Library.Word" "HOL-Library.AList" "HOL-Library.Multiset"
    "HOL-Library.Char_ord" "HOL-Library.List_Lexorder" "HOL-Library.Sublist"
begin

text \<open>
  What the components share: the parts of the Go language and of its standard library
  that the sources use, and the generic lemmas about them.

  \<^item> \<open>int64\<close> values are \<open>int\<close> with the wrap-around written out by \<open>wrap64\<close>, which is the
    signed reading of a 64-bit word (\<open>wrap64_sint\<close>); integer division truncates.
  \<^item> \<open>time.Time\<close> is the number of nanoseconds since the zero \<open>Time\<close> (so \<open>IsZero\<close> is
    \<open>= 0\<close>), \<open>time.Duration\<close> a number of nanoseconds; \<open>Time.Sub\<close> saturates.
  \<^item> a \<open>float64\<close> is not rounded: \<open>Fin q\<close> is the exact quotient, \<open>NaN\<close> and the infinities
    are what a division by zero gives.
  \<^item> strings are byte lists; \<open>ToUpper\<close>/\<open>ToLower\<close> act on the ASCII letters.
  \<^item> a Go map is an association list with distinct keys (\<open>AList.update\<close>, \<open>AList.delete\<close>,
    \<open>map_of\<close>); an iteration over it takes the order as an argument.
  \<^item> an \<open>error\<close> is a value of \<open>go_error\<close>, a fallible call returns \<open>go_error + 'a\<close>.
\<close>

section \<open>Rule collections\<close>

named_theorems go_defs \<open>definitions of operations, unfolded by the component proofs\<close>

section \<open>Machine integers\<close>

type_synonym int64 = int
type_synonym gotime = int
type_synonym duration = int

definition wrap64 :: "int \<Rightarrow> int64" where
  "wrap64 x = (x + 2 ^ 63) mod 2 ^ 64 - 2 ^ 63"

definition in_int64 :: "int \<Rightarrow> bool" where
  "in_int64 x \<longleftrightarrow> - (2 ^ 63) \<le> x \<and> x < 2 ^ 63"

abbreviation max_int64 :: int64 where
  "max_int64 \<equiv> 9223372036854775807"

abbreviation min_int64 :: int64 where
  "min_int64 \<equiv> - 9223372036854775808"

definition add64 :: "int64 \<Rightarrow> int64 \<Rightarrow> int64" where
  "add64 a b = wrap64 (a + b)"

definition sub64 :: "int64 \<Rightarrow> int64 \<Rightarrow> int64" where
  "sub64 a b = wrap64 (a - b)"

definition mul64 :: "int64 \<Rightarrow> int64 \<Rightarrow> int64" where
  "mul64 a b = wrap64 (a * b)"

text \<open>Go's integer division rounds towards zero.\<close>

definition trunc_div :: "int \<Rightarrow> int \<Rightarrow> int" where
  "trunc_div n d = (let q = abs n div abs d in if (n < 0) = (d < 0) then q else - q)"

section \<open>Time\<close>

abbreviation millisecond :: duration where "millisecond \<equiv> 1000000"
abbreviation second :: duration where "second \<equiv> 1000000000"

text \<open>\<open>Time.Sub\<close> saturates at the least and greatest \<open>Duration\<close>.\<close>

definition time_sub :: "gotime \<Rightarrow> gotime \<Rightarrow> duration" where
  "time_sub t u = max min_int64 (min max_int64 (t - u))"

section \<open>Floating point quotients\<close>

datatype gofloat = NaN | PInf | NInf | Fin rat

definition fdiv :: "int64 \<Rightarrow> int64 \<Rightarrow> gofloat" where
  "fdiv a b =
     (if b = 0 then (if a = 0 then NaN else if a > 0 then PInf else NInf)
      else Fin (of_int a / of_int b))"

text \<open>
  \<open>float64(x)\<close> for an \<open>int64\<close>: the significand has 53 bits, so from \<open>2 ^ 53\<close> on the low
  bits are rounded off, half to even. \<open>excess_bits\<close> counts the bits that do not fit.
\<close>

fun excess_bits :: "nat \<Rightarrow> nat" where
  "excess_bits a = (if a < 2 ^ 53 then 0 else Suc (excess_bits (a div 2)))"

declare excess_bits.simps [simp del]

definition round_nat53 :: "nat \<Rightarrow> nat" where
  "round_nat53 a =
     (let k = excess_bits a; q = a div 2 ^ k; r = a mod 2 ^ k
      in if 2 * r > 2 ^ k \<or> (2 * r = 2 ^ k \<and> odd q) then Suc q * 2 ^ k else q * 2 ^ k)"

definition float64_of_int :: "int64 \<Rightarrow> int" where
  "float64_of_int x = sgn x * int (round_nat53 (nat \<bar>x\<bar>))"

section \<open>Errors\<close>

datatype go_error =
    ErrBudgetExhausted
  | ErrOrderNotFound
  | ErrUnsupported
  | ErrNoBrokers
  | ErrJson
  | ErrCtx string
  | ErrMsg string
  | ErrWrap string go_error

text \<open>
  \<open>ErrJson\<close> is any error of \<open>encoding/json\<close>, whose text is not modelled; \<open>ErrCtx\<close> is
  \<open>ctx.Err()\<close>, \<open>ErrMsg\<close> a formatted error or one a library returned.
\<close>

text \<open>\<open>Error()\<close>: the sentinels print their text, \<open>fmt.Errorf("\<dots>%w")\<close> a prefix and the cause.\<close>

fun err_msg :: "go_error \<Rightarrow> string" where
  "err_msg ErrBudgetExhausted = ''ratelimit: weight budget exhausted''"
| "err_msg ErrOrderNotFound = ''venue: order not found''"
| "err_msg ErrUnsupported = ''otc: SubscribeOrderBook unsupported''"
| "err_msg ErrNoBrokers = ''audit kafka: no brokers provided''"
| "err_msg ErrJson = ''json''"
| "err_msg (ErrCtx s) = s"
| "err_msg (ErrMsg s) = s"
| "err_msg (ErrWrap s e) = s @ err_msg e"

section \<open>Strings\<close>

definition char_code :: "char \<Rightarrow> nat" where
  "char_code c = of_char c"

definition upper_char :: "char \<Rightarrow> char" where
  "upper_char c = (if 97 \<le> char_code c \<and> char_code c \<le> 122 then char_of (char_code c - 32) else c)"

definition lower_char :: "char \<Rightarrow> char" where
  "lower_char c = (if 65 \<le> char_code c \<and> char_code c \<le> 90 then char_of (char_code c + 32) else c)"

definition to_upper :: "string \<Rightarrow> string" where
  "to_upper s = map upper_char s"

definition to_lower :: "string \<Rightarrow> string" where
  "to_lower s = map lower_char s"

definition trim_prefix :: "string \<Rightarrow> string \<Rightarrow> string" where
  "trim_prefix s p = (if prefix p s then drop (length p) s else s)"

definition trim_suffix :: "string \<Rightarrow> string \<Rightarrow> string" where
  "trim_suffix s p = (if suffix p s then take (length s - length p) s else s)"

text \<open>\<open>strings.Index\<close> of a one-byte separator: the position of its first occurrence.\<close>

fun index_of :: "char \<Rightarrow> string \<Rightarrow> nat option" where
  "index_of c [] = None"
| "index_of c (x # xs) = (if x = c then Some 0 else map_option Suc (index_of c xs))"

text \<open>\<open>strings.Split\<close> at a one-byte separator; it never returns the empty slice.\<close>

fun split_at :: "char \<Rightarrow> string \<Rightarrow> string list" where
  "split_at c [] = [[]]"
| "split_at c (x # xs) =
     (if x = c then [] # split_at c xs
      else case split_at c xs of [] \<Rightarrow> [[x]] | w # ws \<Rightarrow> (x # w) # ws)"

fun join_with :: "string \<Rightarrow> string list \<Rightarrow> string" where
  "join_with sep [] = []"
| "join_with sep [s] = s"
| "join_with sep (s # ss) = s @ sep @ join_with sep ss"

text \<open>
  \<open>strings.TrimSpace\<close>: the encodings of the runes of \<open>unicode.IsSpace\<close> are removed at the front and
  at the end. \<open>is_space\<close> is the ASCII part of them.
\<close>

definition is_space :: "char \<Rightarrow> bool" where
  "is_space c \<longleftrightarrow> char_code c \<in> {9, 10, 11, 12, 13, 32}"

definition space_runes :: "string list" where
  "space_runes =
     [[CHR 9], [CHR 10], [CHR 11], [CHR 12], [CHR 13], [CHR 32], [CHR 0xC2, CHR 0x85], [CHR 0xC2, CHR 0xA0],
      [CHR 0xE1, CHR 0x9A, CHR 0x80], [CHR 0xE2, CHR 0x80, CHR 0x80], [CHR 0xE2, CHR 0x80, CHR 0x81],
      [CHR 0xE2, CHR 0x80, CHR 0x82], [CHR 0xE2, CHR 0x80, CHR 0x83], [CHR 0xE2, CHR 0x80, CHR 0x84],
      [CHR 0xE2, CHR 0x80, CHR 0x85], [CHR 0xE2, CHR 0x80, CHR 0x86], [CHR 0xE2, CHR 0x80, CHR 0x87],
      [CHR 0xE2, CHR 0x80, CHR 0x88], [CHR 0xE2, CHR 0x80, CHR 0x89], [CHR 0xE2, CHR 0x80, CHR 0x8A],
      [CHR 0xE2, CHR 0x80, CHR 0xA8], [CHR 0xE2, CHR 0x80, CHR 0xA9], [CHR 0xE2, CHR 0x80, CHR 0xAF],
      [CHR 0xE2, CHR 0x81, CHR 0x9F], [CHR 0xE3, CHR 0x80, CHR 0x80]]"

fun strip_front :: "string list \<Rightarrow> string \<Rightarrow> string" where
  "strip_front rs [] = []"
| "strip_front rs (c # s) =
     (case find (\<lambda>r. prefix r (c # s)) rs of
        None \<Rightarrow> c # s
      | Some r \<Rightarrow> strip_front rs (drop (length r - 1) s))"

definition trim_space :: "string \<Rightarrow> string" where
  "trim_space s = rev (strip_front (map rev space_runes) (rev (strip_front space_runes s)))"

text \<open>
  \<open>%q\<close> of a string of ASCII bytes: quotes, the named escapes, \<open>\x\<close> with two hexadecimal
  digits for the other control bytes; other bytes are kept.
\<close>

definition hex_digit :: "nat \<Rightarrow> char" where
  "hex_digit n = (if n < 10 then char_of (48 + n) else char_of (87 + n))"

definition quote_char :: "char \<Rightarrow> string" where
  "quote_char c =
     (let n = char_code c; bs = char_of (92 :: nat) in
      if n = 34 \<or> n = 92 then [bs, c]
      else if n = 7 then [bs, CHR ''a''] else if n = 8 then [bs, CHR ''b'']
      else if n = 12 then [bs, CHR ''f''] else if n = 10 then [bs, CHR ''n'']
      else if n = 13 then [bs, CHR ''r''] else if n = 9 then [bs, CHR ''t'']
      else if n = 11 then [bs, CHR ''v'']
      else if n < 32 \<or> n = 127 then [bs, CHR ''x'', hex_digit (n div 16), hex_digit (n mod 16)]
      else [c])"

definition go_quote :: "string \<Rightarrow> string" where
  "go_quote s = CHR 0x22 # concat (map quote_char s) @ [CHR 0x22]"

section \<open>Decimal numerals of integers\<close>

definition digit_char :: "nat \<Rightarrow> char" where
  "digit_char d = char_of (48 + d)"

definition digit_val :: "char \<Rightarrow> nat option" where
  "digit_val c = (if 48 \<le> char_code c \<and> char_code c \<le> 57 then Some (char_code c - 48) else None)"

fun format_nat :: "nat \<Rightarrow> string" where
  "format_nat n = (if n < 10 then [digit_char n] else format_nat (n div 10) @ [digit_char (n mod 10)])"

declare format_nat.simps [simp del]

definition format_int :: "int \<Rightarrow> string" where
  "format_int i = (if i < 0 then CHR ''-'' # format_nat (nat (- i)) else format_nat (nat i))"

fun parse_digits :: "nat \<Rightarrow> string \<Rightarrow> nat option" where
  "parse_digits acc [] = Some acc"
| "parse_digits acc (c # cs) =
     (case digit_val c of None \<Rightarrow> None | Some d \<Rightarrow> parse_digits (10 * acc + d) cs)"

definition parse_nat :: "string \<Rightarrow> nat option" where
  "parse_nat s = (if s = [] then None else parse_digits 0 s)"

text \<open>
  \<open>strconv.ParseInt(s, 10, 64)\<close> (and \<open>Atoi\<close> on a 64-bit platform): an optional sign, at
  least one digit, and a value in range; \<open>None\<close> is a non-nil error.
\<close>

definition parse_int64 :: "string \<Rightarrow> int64 option" where
  "parse_int64 s =
     (let (neg, ds) = (case s of [] \<Rightarrow> (False, [])
                       | c # cs \<Rightarrow> if c = CHR ''-'' then (True, cs)
                                  else if c = CHR ''+'' then (False, cs) else (False, c # cs))
      in case parse_nat ds of None \<Rightarrow> None
         | Some n \<Rightarrow> (let v = (if neg then - int n else int n)
                     in if in_int64 v then Some v else None))"

section \<open>Go maps\<close>

type_synonym ('k, 'v) gomap = "('k \<times> 'v) list"

definition wf_map :: "('k, 'v) gomap \<Rightarrow> bool" where
  "wf_map m \<longleftrightarrow> distinct (map fst m)"

text \<open>
  The order in which \<open>range\<close> visits a map is unspecified: a function that lists the
  entries, of which only this is known.
\<close>

definition range_order :: "(('k \<times> 'v) list \<Rightarrow> ('k \<times> 'v) list) \<Rightarrow> bool" where
  "range_order ord \<longleftrightarrow> (\<forall>m. mset (ord m) = mset m)"

section \<open>Lemmas\<close>

lemma wrap64_id [simp]: "in_int64 x \<Longrightarrow> wrap64 x = x"
  by (simp add: wrap64_def in_int64_def)

lemma in_int64I: "min_int64 \<le> x \<Longrightarrow> x \<le> max_int64 \<Longrightarrow> in_int64 x"
  by (simp add: in_int64_def)

lemma in_int64_wrap64 [simp]: "in_int64 (wrap64 x)"
  by (simp add: wrap64_def in_int64_def)

lemma wrap64_sint: "wrap64 x = sint (word_of_int x :: 64 word)"
  by (simp add: wrap64_def signed_take_bit_eq_take_bit_shift take_bit_eq_mod sint_uint
      uint_word_of_int mod_add_left_eq)

lemma add64_id [simp]: "in_int64 (a + b) \<Longrightarrow> add64 a b = a + b"
  by (simp add: add64_def)

lemma sub64_id [simp]: "in_int64 (a - b) \<Longrightarrow> sub64 a b = a - b"
  by (simp add: sub64_def)

lemma trunc_div_nonneg: "0 \<le> a \<Longrightarrow> 0 < b \<Longrightarrow> trunc_div a b = a div b"
  by (simp add: trunc_div_def)

lemma trunc_div_neg: "a < 0 \<Longrightarrow> 0 < b \<Longrightarrow> trunc_div a b \<le> 0"
  by (simp add: trunc_div_def Let_def pos_imp_zdiv_nonneg_iff)

lemma time_sub_ge: "d \<le> max_int64 \<Longrightarrow> min_int64 < d \<Longrightarrow> time_sub t u \<ge> d \<longleftrightarrow> t - u \<ge> d"
  by (auto simp: time_sub_def)

lemma excess_bits_small: "a < 2 ^ 53 \<Longrightarrow> excess_bits a = 0"
  by (simp add: excess_bits.simps)

lemma float64_of_int_exact: "\<bar>x\<bar> < 2 ^ 53 \<Longrightarrow> float64_of_int x = x"
proof -
  assume "\<bar>x\<bar> < 2 ^ 53"
  then have "nat \<bar>x\<bar> < 2 ^ 53" by (simp add: nat_less_iff)
  then have "round_nat53 (nat \<bar>x\<bar>) = nat \<bar>x\<bar>"
    by (simp add: round_nat53_def excess_bits_small)
  then show ?thesis by (simp add: float64_of_int_def sgn_mult_abs)
qed

subsection \<open>Strings\<close>

lemma char_code_less [simp]: "char_code c < 256"
  by (simp add: char_code_def)

lemma char_code_of [simp]: "n < 256 \<Longrightarrow> char_code (char_of n) = n"
  by (simp add: char_code_def)

lemma upper_lower_char [simp]: "upper_char (lower_char c) = upper_char c"
  by (auto simp: upper_char_def lower_char_def char_code_def)

lemma lower_upper_char [simp]: "lower_char (upper_char c) = lower_char c"
  by (auto simp: upper_char_def lower_char_def char_code_def)

lemma to_upper_lower [simp]: "to_upper (to_lower s) = to_upper s"
  by (simp add: to_upper_def to_lower_def)

lemma to_lower_upper [simp]: "to_lower (to_upper s) = to_lower s"
  by (simp add: to_upper_def to_lower_def)

lemma length_to_upper [simp]: "length (to_upper s) = length s"
  by (simp add: to_upper_def)

lemma length_to_lower [simp]: "length (to_lower s) = length s"
  by (simp add: to_lower_def)

lemma index_of_append: "c \<notin> set xs \<Longrightarrow> index_of c (xs @ c # ys) = Some (length xs)"
  by (induction xs) auto

lemma index_of_None [simp]: "index_of c xs = None \<longleftrightarrow> c \<notin> set xs"
  by (induction xs) auto

lemma case_index_of_None: "c \<notin> set xs \<Longrightarrow> (case index_of c xs of None \<Rightarrow> a | Some i \<Rightarrow> f i) = a"
  by (metis index_of_None option.simps(4))

lemma index_of_take: "index_of c xs = Some i \<Longrightarrow> c \<notin> set (take i xs) \<and> i < length xs"
  by (induction xs arbitrary: i) (auto split: if_splits)

lemma split_at_nonempty [simp]: "split_at c s \<noteq> []"
  by (cases s) (auto split: list.split)

lemma split_at_no_sep: "c \<notin> set s \<Longrightarrow> split_at c s = [s]"
  by (induction s) auto

lemma split_at_append: "c \<notin> set u \<Longrightarrow> split_at c (u @ c # s) = u # split_at c s"
  by (induction u) auto

lemma split_at_pieces: "w \<in> set (split_at c s) \<Longrightarrow> c \<notin> set w"
  by (induction s arbitrary: w) (auto split: list.splits if_splits)

lemma join_split: "join_with [c] (split_at c s) = s"
proof (induction s)
  case (Cons x xs)
  then show ?case
    by (cases "split_at c xs") (auto, (cases "tl (split_at c xs)"; simp)+)
qed simp

lemma split_join:
  "ws \<noteq> [] \<Longrightarrow> \<forall>w \<in> set ws. c \<notin> set w \<Longrightarrow> split_at c (join_with [c] ws) = ws"
proof (induction ws)
  case (Cons w ws)
  then show ?case by (cases ws) (auto simp: split_at_no_sep split_at_append)
qed simp

lemma set_join_with: "c \<in> set (join_with sep ws) \<Longrightarrow> c \<in> set sep \<or> (\<exists>w \<in> set ws. c \<in> set w)"
  by (induction sep ws rule: join_with.induct) auto

lemma strip_front_none: "\<forall>r \<in> set rs. \<not> prefix r s \<Longrightarrow> strip_front rs s = s"
  by (cases s) (auto simp: find_Some_iff split: option.split)

text \<open>An ASCII byte that is no space is no part of a space.\<close>

lemma space_rune_byte: "r \<in> set space_runes \<Longrightarrow> c \<in> set r \<Longrightarrow> is_space c \<or> 128 \<le> char_code c"
  by (auto simp: space_runes_def is_space_def char_code_def)

lemma strip_front_byte:
  assumes "rs = space_runes \<or> rs = map rev space_runes" "char_code c < 128" "\<not> is_space c"
  shows "strip_front rs (c # s) = c # s"
proof (rule strip_front_none, intro ballI notI)
  fix r
  assume r: "r \<in> set rs" "prefix r (c # s)"
  moreover have "r \<noteq> []" using r(1) assms(1) by (auto simp: space_runes_def)
  ultimately have "c \<in> set r" by (auto simp: prefix_def Cons_eq_append_conv)
  with r(1) assms space_rune_byte [of r c] space_rune_byte [of "rev r" c] show False by auto
qed

lemma strip_front_space:
  assumes "rs = space_runes \<or> rs = map rev space_runes" "is_space c"
  shows "strip_front rs (c # s) = strip_front rs s"
proof -
  have "c = char_of (char_code c)" by (simp add: char_code_def)
  then have "c \<in> {CHR 9, CHR 10, CHR 11, CHR 12, CHR 13, CHR 32}"
    using assms(2) unfolding is_space_def by (elim insertE emptyE) (simp_all add: char_of_def bit_Suc_0_iff)
  then have "find (\<lambda>r. prefix r (c # s)) rs = Some [c]" using assms(1) by (auto simp: space_runes_def)
  then show ?thesis by simp
qed

lemma strip_front_spaces:
  "rs = space_runes \<or> rs = map rev space_runes \<Longrightarrow> \<forall>c \<in> set l. is_space c \<Longrightarrow> strip_front rs (l @ s) = strip_front rs s"
  by (induction l) (simp_all add: strip_front_space del: strip_front.simps)

abbreviation plain_byte :: "char \<Rightarrow> bool" where
  "plain_byte c \<equiv> char_code c < 128 \<and> \<not> is_space c"

lemma trim_space_around:
  assumes "\<forall>c \<in> set l. is_space c" "\<forall>c \<in> set r. is_space c" "s \<noteq> ''''" "plain_byte (hd s)" "plain_byte (List.last s)"
  shows "trim_space (l @ s @ r) = s"
proof -
  have "strip_front space_runes (l @ s @ r) = s @ r"
    using assms(1,3,4) by (cases s) (simp_all add: strip_front_spaces strip_front_byte del: strip_front.simps)
  moreover have "strip_front (map rev space_runes) (rev r @ rev s) = rev s"
    using assms(2,3,5) by (cases s rule: rev_cases) (simp_all add: strip_front_spaces strip_front_byte del: strip_front.simps)
  ultimately show ?thesis by (simp add: trim_space_def)
qed

lemma trim_space_id: "\<forall>c \<in> set s. plain_byte c \<Longrightarrow> trim_space s = s"
  using trim_space_around [of "[]" "[]" s] by (cases "s = []") (simp_all add: trim_space_def)

subsection \<open>Decimal numerals\<close>

lemma digit_val_char [simp]: "d < 10 \<Longrightarrow> digit_val (digit_char d) = Some d"
  by (simp add: digit_val_def digit_char_def)

lemma parse_digits_append:
  "parse_digits acc (xs @ ys) = (case parse_digits acc xs of None \<Rightarrow> None | Some a \<Rightarrow> parse_digits a ys)"
  by (induction xs arbitrary: acc) (auto split: option.split)

lemma format_nat_nonempty [simp]: "format_nat n \<noteq> []"
  by (subst format_nat.simps) simp

lemma parse_format_nat: "parse_digits 0 (format_nat n) = Some n"
proof (induction n rule: format_nat.induct)
  case (1 n)
  then show ?case
    by (cases "n < 10") (simp_all add: format_nat.simps [of n] parse_digits_append)
qed

lemma format_nat_digits: "c \<in> set (format_nat n) \<Longrightarrow> 48 \<le> char_code c \<and> char_code c \<le> 57"
proof (induction n rule: format_nat.induct)
  case (1 n)
  then show ?case
    by (cases "n < 10") (auto simp: format_nat.simps [of n] digit_char_def)
qed

lemma hd_format_nat: "hd (format_nat n) \<noteq> CHR ''-'' \<and> hd (format_nat n) \<noteq> CHR ''+''"
proof -
  have "hd (format_nat n) \<in> set (format_nat n)" by simp
  then have "48 \<le> char_code (hd (format_nat n))" using format_nat_digits by blast
  then show ?thesis by (auto simp: char_code_def)
qed

lemma parse_format_int: "in_int64 i \<Longrightarrow> parse_int64 (format_int i) = Some i"
proof (cases "i < 0")
  case True
  assume "in_int64 i"
  with True show ?thesis
    by (simp add: parse_int64_def format_int_def parse_nat_def parse_format_nat)
next
  case False
  assume r: "in_int64 i"
  obtain c cs where cs: "format_nat (nat i) = c # cs"
    using format_nat_nonempty by (metis neq_Nil_conv)
  with hd_format_nat [of "nat i"] have "c \<noteq> CHR ''-''" "c \<noteq> CHR ''+''" by simp_all
  with False r cs parse_format_nat [of "nat i"] show ?thesis
    by (simp add: parse_int64_def format_int_def parse_nat_def)
qed

subsection \<open>Go maps\<close>

lemma wf_map_Nil [simp]: "wf_map []"
  by (simp add: wf_map_def)

lemma wf_map_update [simp]: "wf_map m \<Longrightarrow> wf_map (AList.update k v m)"
  by (simp add: wf_map_def distinct_update)

lemma wf_map_delete [simp]: "wf_map m \<Longrightarrow> wf_map (AList.delete k m)"
  by (simp add: wf_map_def distinct_delete)

lemma map_of_update [simp]: "map_of (AList.update k v m) = (map_of m)(k \<mapsto> v)"
  by (rule update_conv')

lemma map_of_delete [simp]: "map_of (AList.delete k m) = (map_of m)(k := None)"
  by (rule delete_conv')

lemma range_orderD: "range_order ord \<Longrightarrow> mset (ord m) = mset m"
  by (simp add: range_order_def)

lemma range_order_id: "range_order (\<lambda>m. m)"
  by (simp add: range_order_def)

lemma map_of_perm:
  assumes "wf_map m" "mset m' = mset m"
  shows "wf_map m'" "map_of m' = map_of m"
proof -
  have "mset (map fst m') = mset (map fst m)" using assms(2) by simp
  then show "wf_map m'" using assms(1) unfolding wf_map_def by (metis mset_eq_imp_distinct_iff)
  then show "map_of m' = map_of m"
    using assms by (metis map_of_eqI map_of_inject_set wf_map_def set_mset_mset)
qed

end
