(* ===== verification/Rate_Limit.thy ===== *)
theory Rate_Limit
  imports Go_Prelude
begin

text \<open>
  The rate limiters of \<open>internal/ratelimit/ratelimit.go\<close>: a fixed window of weights
  (\<open>WeightedLimiter\<close>, Binance), a decaying counter (\<open>CounterLimiter\<close>, Kraken) and a fixed
  window of requests (\<open>RPSLimiter\<close>, OTC). Each operation runs under the limiter's mutex,
  so it is one state transformer; the readings of \<open>time.Now()\<close> are arguments, in the order
  the code takes them. A call of \<open>Wait\<close> returns the new limiter, the error and the values
  it sets the \<open>rate_limit_headroom\<close> gauge to (\<open>venue\<close> label and value).

  The locale \<open>rate_limiter\<close> is the contract the adapters rely on. It is interpreted on all
  three limiters; what follows from it is proved once, for any sequence of requests.
\<close>

section \<open>Definitions\<close>

type_synonym gauge_sets = "(string \<times> gofloat) list"

subsection \<open>WeightedLimiter\<close>

record weighted_limiter =
  wl_venue :: string
  wl_budget :: int64
  wl_used :: int64
  wl_refill :: duration
  wl_lastFill :: gotime
  wl_backoff :: gotime

definition NewWeightedLimiter :: "gotime \<Rightarrow> string \<Rightarrow> int64 \<Rightarrow> weighted_limiter" where
  "NewWeightedLimiter now venue budget =
     \<lparr>wl_venue = venue, wl_budget = budget, wl_used = 0, wl_refill = 60 * second,
      wl_lastFill = now, wl_backoff = 0\<rparr>"

definition replenishLocked :: "gotime \<Rightarrow> weighted_limiter \<Rightarrow> weighted_limiter" where
  "replenishLocked now l =
     (if time_sub now (wl_lastFill l) \<ge> wl_refill l
      then l\<lparr>wl_used := 0, wl_lastFill := now\<rparr> else l)"

definition WeightedLimiter_Wait ::
  "gotime \<Rightarrow> gotime \<Rightarrow> int64 \<Rightarrow> weighted_limiter \<Rightarrow> weighted_limiter \<times> go_error option \<times> gauge_sets"
where
  "WeightedLimiter_Wait now1 now2 weight l0 =
     (let l = replenishLocked now1 l0 in
      if wl_backoff l \<noteq> 0 \<and> now2 < wl_backoff l then (l, Some ErrBudgetExhausted, [])
      else if add64 (wl_used l) weight > wl_budget l
           then (l, Some ErrBudgetExhausted, [(wl_venue l, Fin 0)])
      else let l' = l\<lparr>wl_used := add64 (wl_used l) weight\<rparr>
           in (l', None, [(wl_venue l', fdiv (sub64 (wl_budget l') (wl_used l')) (wl_budget l'))]))"

definition WeightedLimiter_UpdateUsed ::
  "string \<Rightarrow> int64 \<Rightarrow> weighted_limiter \<Rightarrow> weighted_limiter \<times> gauge_sets"
where
  "WeightedLimiter_UpdateUsed venue used l =
     (let l' = l\<lparr>wl_venue := venue, wl_used := used\<rparr>;
          h = sub64 (wl_budget l) used
      in (l', [(venue, if wl_budget l > 0 then fdiv h (wl_budget l) else Fin (of_int h))]))"

definition WeightedLimiter_Backoff ::
  "gotime \<Rightarrow> string \<Rightarrow> duration \<Rightarrow> weighted_limiter \<Rightarrow> weighted_limiter"
where
  "WeightedLimiter_Backoff now venue d l = l\<lparr>wl_venue := venue, wl_backoff := now + d\<rparr>"

definition WeightedLimiter_Headroom :: "weighted_limiter \<Rightarrow> gofloat" where
  "WeightedLimiter_Headroom l =
     (if wl_budget l = 0 then Fin 0 else fdiv (sub64 (wl_budget l) (wl_used l)) (wl_budget l))"

definition WeightedLimiter_SetBudget :: "int64 \<Rightarrow> weighted_limiter \<Rightarrow> weighted_limiter" where
  "WeightedLimiter_SetBudget b l = l\<lparr>wl_budget := b\<rparr>"

definition WeightedLimiter_Used :: "weighted_limiter \<Rightarrow> int64" where
  "WeightedLimiter_Used l = wl_used l"

definition WeightedLimiter_Budget :: "weighted_limiter \<Rightarrow> int64" where
  "WeightedLimiter_Budget l = wl_budget l"

subsection \<open>CounterLimiter\<close>

record counter_limiter =
  cl_venue :: string
  cl_budget :: int64
  cl_current :: int64
  cl_last :: gotime
  cl_decay :: duration
  cl_backoff :: gotime

definition NewCounterLimiter :: "gotime \<Rightarrow> string \<Rightarrow> int64 \<Rightarrow> counter_limiter" where
  "NewCounterLimiter now venue budget =
     \<lparr>cl_venue = venue, cl_budget = budget, cl_current = 0, cl_last = now,
      cl_decay = 3 * second, cl_backoff = 0\<rparr>"

definition decayLocked :: "gotime \<Rightarrow> counter_limiter \<Rightarrow> counter_limiter" where
  "decayLocked now l =
     (let elapsed = time_sub now (cl_last l);
          ticks = trunc_div elapsed (cl_decay l)
      in if ticks > 0 then
           (let c = sub64 (cl_current l) ticks
            in l\<lparr>cl_current := (if c < 0 then 0 else c),
                 cl_last := cl_last l + mul64 ticks (cl_decay l)\<rparr>)
         else l)"

definition CounterLimiter_Wait ::
  "gotime \<Rightarrow> gotime \<Rightarrow> int64 \<Rightarrow> counter_limiter \<Rightarrow> counter_limiter \<times> go_error option \<times> gauge_sets"
where
  "CounterLimiter_Wait now1 now2 cost l0 =
     (let l = decayLocked now1 l0 in
      if cl_backoff l \<noteq> 0 \<and> now2 < cl_backoff l then (l, Some ErrBudgetExhausted, [])
      else if add64 (cl_current l) cost > cl_budget l
           then (l, Some ErrBudgetExhausted, [(cl_venue l, Fin 0)])
      else let l' = l\<lparr>cl_current := add64 (cl_current l) cost\<rparr>
           in (l', None, [(cl_venue l', fdiv (sub64 (cl_budget l') (cl_current l')) (cl_budget l'))]))"

definition CounterLimiter_Backoff ::
  "gotime \<Rightarrow> string \<Rightarrow> duration \<Rightarrow> counter_limiter \<Rightarrow> counter_limiter"
where
  "CounterLimiter_Backoff now venue d l = l\<lparr>cl_venue := venue, cl_backoff := now + d\<rparr>"

definition CounterLimiter_Headroom :: "counter_limiter \<Rightarrow> gofloat" where
  "CounterLimiter_Headroom l =
     (if cl_budget l = 0 then Fin 0 else fdiv (sub64 (cl_budget l) (cl_current l)) (cl_budget l))"

definition CounterLimiter_Current :: "counter_limiter \<Rightarrow> int64" where
  "CounterLimiter_Current l = cl_current l"

subsection \<open>RPSLimiter\<close>

record rps_limiter =
  rl_venue :: string
  rl_limit :: int64
  rl_count :: int64
  rl_window :: duration
  rl_start :: gotime
  rl_backoff :: gotime

definition NewRPSLimiter :: "gotime \<Rightarrow> string \<Rightarrow> int64 \<Rightarrow> rps_limiter" where
  "NewRPSLimiter now venue rps =
     \<lparr>rl_venue = venue, rl_limit = rps, rl_count = 0, rl_window = second,
      rl_start = now, rl_backoff = 0\<rparr>"

text \<open>The window roll of lines 205--208, on its own: the code does it after the backoff check.\<close>

definition roll_window :: "gotime \<Rightarrow> rps_limiter \<Rightarrow> rps_limiter" where
  "roll_window now l =
     (if time_sub now (rl_start l) \<ge> rl_window l then l\<lparr>rl_count := 0, rl_start := now\<rparr> else l)"

definition RPSLimiter_Wait ::
  "gotime \<Rightarrow> int64 \<Rightarrow> rps_limiter \<Rightarrow> rps_limiter \<times> go_error option \<times> gauge_sets"
where
  "RPSLimiter_Wait now cost l0 =
     (if rl_backoff l0 \<noteq> 0 \<and> now < rl_backoff l0 then (l0, Some ErrBudgetExhausted, [])
      else let l = roll_window now l0 in
      if rl_count l \<ge> rl_limit l then (l, Some ErrBudgetExhausted, [])
      else let l' = l\<lparr>rl_count := add64 (rl_count l) 1\<rparr>
           in (l', None, [(rl_venue l', fdiv (sub64 (rl_limit l') (rl_count l')) (rl_limit l'))]))"

definition RPSLimiter_Backoff :: "gotime \<Rightarrow> string \<Rightarrow> duration \<Rightarrow> rps_limiter \<Rightarrow> rps_limiter" where
  "RPSLimiter_Backoff now venue d l = l\<lparr>rl_venue := venue, rl_backoff := now + d\<rparr>"

definition RPSLimiter_Headroom :: "rps_limiter \<Rightarrow> gofloat" where
  "RPSLimiter_Headroom l =
     (if rl_limit l = 0 then Fin 0 else fdiv (sub64 (rl_limit l) (rl_count l)) (rl_limit l))"

subsection \<open>A client's view: a sequence of requests and penalties\<close>

text \<open>
  What an adapter does to its limiter over time: it asks for a request of some weight at
  two clock readings, or it reports a 429/418 answer. \<open>serve\<close> returns the weights admitted.
\<close>

datatype limiter_event = Request gotime gotime int64 | Penalty gotime string duration

fun serve ::
  "(gotime \<Rightarrow> gotime \<Rightarrow> int64 \<Rightarrow> 'l \<Rightarrow> 'l \<times> go_error option \<times> gauge_sets) \<Rightarrow>
   (gotime \<Rightarrow> string \<Rightarrow> duration \<Rightarrow> 'l \<Rightarrow> 'l) \<Rightarrow> limiter_event list \<Rightarrow> 'l \<Rightarrow> 'l \<times> int64 list"
where
  "serve wait penal [] l = (l, [])"
| "serve wait penal (Penalty t v d # evs) l = serve wait penal evs (penal t v d l)"
| "serve wait penal (Request t1 t2 w # evs) l =
     (case wait t1 t2 w l of (l', e, _) \<Rightarrow>
        (case serve wait penal evs l' of (l'', adm) \<Rightarrow>
           (l'', if e = None then w # adm else adm)))"

fun sane_event :: "limiter_event \<Rightarrow> bool" where
  "sane_event (Request t1 t2 w) \<longleftrightarrow> 0 \<le> w \<and> w < 2 ^ 62"
| "sane_event (Penalty t v d) \<longleftrightarrow> True"

fun requests_between :: "gotime \<Rightarrow> gotime \<Rightarrow> limiter_event \<Rightarrow> bool" where
  "requests_between a b (Request t1 t2 w) \<longleftrightarrow> a \<le> t1 \<and> t1 < b \<and> a \<le> t2 \<and> t2 < b"
| "requests_between a b (Penalty t v d) \<longleftrightarrow> True"

definition wl_ok :: "weighted_limiter \<Rightarrow> bool" where
  "wl_ok l \<longleftrightarrow> 0 \<le> wl_used l \<and> wl_used l < 2 ^ 62 \<and> 0 \<le> wl_budget l \<and> wl_budget l < 2 ^ 62 \<and>
     0 < wl_refill l \<and> wl_refill l < 2 ^ 62"

definition cl_ok :: "counter_limiter \<Rightarrow> bool" where
  "cl_ok l \<longleftrightarrow> 0 \<le> cl_current l \<and> cl_current l < 2 ^ 62 \<and> 0 \<le> cl_budget l \<and> cl_budget l < 2 ^ 62 \<and>
     0 < cl_decay l"

definition rl_ok :: "rps_limiter \<Rightarrow> bool" where
  "rl_ok l \<longleftrightarrow> 0 \<le> rl_count l \<and> rl_count l < 2 ^ 62 \<and> 0 \<le> rl_limit l \<and> rl_limit l < 2 ^ 62 \<and>
     0 < rl_window l \<and> rl_window l < 2 ^ 62"

text \<open>The whole decay periods that have passed at \<open>t\<close>.\<close>

definition decay_ticks :: "gotime \<Rightarrow> counter_limiter \<Rightarrow> int" where
  "decay_ticks t l = max 0 (trunc_div (time_sub t (cl_last l)) (cl_decay l))"

section \<open>The contract\<close>

text \<open>
  \<open>tick\<close> is the effect of the passage of time alone, \<open>charge w\<close> what a request of weight \<open>w\<close>
  costs, \<open>spent\<close> and \<open>cap\<close> the two sides of the comparison, \<open>until\<close> the end of a penalty.
\<close>

locale rate_limiter =
  fixes wait :: "gotime \<Rightarrow> gotime \<Rightarrow> int64 \<Rightarrow> 'l \<Rightarrow> 'l \<times> go_error option \<times> gauge_sets"
    and penal :: "gotime \<Rightarrow> string \<Rightarrow> duration \<Rightarrow> 'l \<Rightarrow> 'l"
    and tick :: "gotime \<Rightarrow> gotime \<Rightarrow> 'l \<Rightarrow> 'l"
    and charge :: "int64 \<Rightarrow> int64"
    and spent :: "'l \<Rightarrow> int64"
    and cap :: "'l \<Rightarrow> int64"
    and until :: "'l \<Rightarrow> gotime"
    and ok :: "'l \<Rightarrow> bool"
  assumes tick_spent: "ok l \<Longrightarrow> spent (tick t1 t2 l) \<le> spent l"
    and tick_cap: "cap (tick t1 t2 l) = cap l"
    and tick_until: "until (tick t1 t2 l) = until l"
    and tick_ok: "ok l \<Longrightarrow> ok (tick t1 t2 l)"
    and wait_blocked: "until l \<noteq> 0 \<Longrightarrow> t2 < until l \<Longrightarrow>
      \<exists>l'. wait t1 t2 w l = (l', Some ErrBudgetExhausted, []) \<and> l' \<in> {l, tick t1 t2 l}"
    and wait_full: "ok l \<Longrightarrow> 0 \<le> w \<Longrightarrow> w < 2 ^ 62 \<Longrightarrow> until l = 0 \<or> until l \<le> t2 \<Longrightarrow>
      cap l < spent (tick t1 t2 l) + charge w \<Longrightarrow>
      \<exists>m. wait t1 t2 w l = (tick t1 t2 l, Some ErrBudgetExhausted, m)"
    and wait_admit: "ok l \<Longrightarrow> 0 \<le> w \<Longrightarrow> w < 2 ^ 62 \<Longrightarrow> until l = 0 \<or> until l \<le> t2 \<Longrightarrow>
      spent (tick t1 t2 l) + charge w \<le> cap l \<Longrightarrow>
      \<exists>l' m. wait t1 t2 w l = (l', None, m) \<and> ok l' \<and> cap l' = cap l \<and> until l' = until l \<and>
        spent l' = spent (tick t1 t2 l) + charge w"
    and charge_nonneg: "0 \<le> w \<Longrightarrow> 0 \<le> charge w"
    and penal_until: "until (penal t v d l) = t + d"
    and penal_spent: "spent (penal t v d l) = spent l"
    and penal_cap: "cap (penal t v d l) = cap l"
    and penal_ok: "ok l \<Longrightarrow> ok (penal t v d l)"
begin

text \<open>The three outcomes of a request, as one case rule.\<close>

lemma wait_cases [consumes 4, case_names rejected admitted]:
  assumes "ok l" "0 \<le> w" "w < 2 ^ 62" "wait t1 t2 w l = (l', e, m)"
  obtains (rejected) "e = Some ErrBudgetExhausted" "l' = l \<or> l' = tick t1 t2 l"
  | (admitted) "e = None" "ok l'" "cap l' = cap l" "until l' = until l"
      "spent l' = spent (tick t1 t2 l) + charge w" "spent l' \<le> cap l'"
      "until l = 0 \<or> until l \<le> t2"
proof (cases "until l = 0 \<or> until l \<le> t2")
  case False
  then show thesis using wait_blocked [of l t2 t1 w] assms rejected by auto
next
  case True
  show thesis
  proof (cases "spent (tick t1 t2 l) + charge w \<le> cap l")
    case True
    then show thesis
      using wait_admit [OF assms(1-3) \<open>until l = 0 \<or> until l \<le> t2\<close> True] assms(4) admitted
        \<open>until l = 0 \<or> until l \<le> t2\<close> by auto
  next
    case False
    then show thesis
      using wait_full [of l w t2 t1] True assms rejected by auto
  qed
qed

lemma wait_frame:
  assumes "ok l" "0 \<le> w" "w < 2 ^ 62" "wait t1 t2 w l = (l', e, m)"
  shows "ok l' \<and> cap l' = cap l \<and> until l' = until l \<and> (spent l \<le> cap l \<longrightarrow> spent l' \<le> cap l)"
  using assms
proof (cases rule: wait_cases)
  case rejected
  then show ?thesis
    using assms(1) tick_ok [of l t1 t2] tick_spent [of l t1 t2] tick_cap [of t1 t2 l]
      tick_until [of t1 t2 l] by auto
next
  case admitted
  then show ?thesis by auto
qed

text \<open>The budget is never exceeded, whatever requests and penalties come.\<close>

lemma serve_within_cap:
  assumes "ok l" "spent l \<le> cap l" "\<forall>ev \<in> set evs. sane_event ev" "serve wait penal evs l = (l', adm)"
  shows "ok l' \<and> cap l' = cap l \<and> spent l' \<le> cap l'"
  using assms
proof (induction evs arbitrary: l adm)
  case (Cons ev evs)
  show ?case
  proof (cases ev)
    case (Request t1 t2 w)
    obtain l1 e m where 1: "wait t1 t2 w l = (l1, e, m)" by (cases "wait t1 t2 w l")
    have f: "ok l1 \<and> cap l1 = cap l \<and> spent l1 \<le> cap l1"
      using wait_frame [OF Cons.prems(1) _ _ 1] Cons.prems Request by auto
    obtain l2 adm2 where "serve wait penal evs l1 = (l2, adm2)" by (cases "serve wait penal evs l1")
    then show ?thesis using Cons.IH [of l1 adm2] Cons.prems Request 1 f by auto
  next
    case (Penalty t v d)
    then show ?thesis
      using Cons.IH [of "penal t v d l" adm] Cons.prems penal_ok penal_spent penal_cap by auto
  qed
qed simp

text \<open>While the limiter is in a penalty no request is admitted.\<close>

lemma serve_blocked:
  assumes "ok l" "until l \<noteq> 0" "\<forall>ev \<in> set evs. sane_event ev \<and> (\<exists>t1 t2 w. ev = Request t1 t2 w \<and> t2 < until l)"
    "serve wait penal evs l = (l', adm)"
  shows "adm = []"
  using assms
proof (induction evs arbitrary: l adm)
  case (Cons ev evs)
  then obtain t1 t2 w where ev: "ev = Request t1 t2 w" "t2 < until l" "sane_event ev" by auto
  obtain l1 where 1: "wait t1 t2 w l = (l1, Some ErrBudgetExhausted, [])" "l1 \<in> {l, tick t1 t2 l}"
    using wait_blocked [of l t2 t1 w] Cons.prems(2) ev by blast
  then have f: "ok l1 \<and> until l1 = until l"
    using Cons.prems(1) tick_ok tick_until by auto
  obtain l2 adm2 where "serve wait penal evs l1 = (l2, adm2)" by (cases "serve wait penal evs l1")
  then show ?case using Cons.IH [of l1 adm2] Cons.prems ev 1 f by auto
qed simp

end

text \<open>
  A limiter whose counter is only reset when a window ends: inside the window the
  admitted charges add up to at most what was left.
\<close>

locale window_limiter = rate_limiter +
  fixes opened :: "'a \<Rightarrow> gotime"
    and width :: "'a \<Rightarrow> duration"
  assumes tick_inside: "ok l \<Longrightarrow> opened l \<le> t1 \<Longrightarrow> opened l \<le> t2 \<Longrightarrow>
      t1 < opened l + width l \<Longrightarrow> t2 < opened l + width l \<Longrightarrow> tick t1 t2 l = l"
    and wait_inside: "ok l \<Longrightarrow> opened l \<le> t1 \<Longrightarrow> opened l \<le> t2 \<Longrightarrow>
      t1 < opened l + width l \<Longrightarrow> t2 < opened l + width l \<Longrightarrow> wait t1 t2 w l = (l', e, m) \<Longrightarrow>
      opened l' = opened l \<and> width l' = width l"
    and penal_inside: "opened (penal t v d l) = opened l" "width (penal t v d l) = width l"
    and tick_outside: "ok l \<Longrightarrow> opened l + width l \<le> t1 \<Longrightarrow> opened l + width l \<le> t2 \<Longrightarrow> spent (tick t1 t2 l) = 0"
begin

lemma serve_window:
  assumes "ok l" "\<forall>ev \<in> set evs. sane_event ev \<and> requests_between (opened l) (opened l + width l) ev"
    "serve wait penal evs l = (l', adm)" "spent l \<le> cap l"
  shows "spent l + sum_list (map charge adm) = spent l' \<and> spent l' \<le> cap l"
  using assms
proof (induction evs arbitrary: l adm)
  case (Cons ev evs)
  show ?case
  proof (cases ev)
    case (Request t1 t2 w)
    obtain l1 e m where 1: "wait t1 t2 w l = (l1, e, m)" by (cases "wait t1 t2 w l")
    have w: "0 \<le> w" "w < 2 ^ 62" using Cons.prems Request by auto
    have t: "tick t1 t2 l = l" using tick_inside [of l t1 t2] Cons.prems Request by auto
    have same: "opened l1 = opened l" "width l1 = width l"
      using wait_inside [of l t1 t2 w l1 e m] Cons.prems Request 1 by auto
    obtain adm2 where 2: "serve wait penal evs l1 = (l', adm2)"
      using Cons.prems(3) Request 1 by (auto split: prod.splits)
    have frame: "ok l1" "cap l1 = cap l" "spent l1 \<le> cap l1"
      using wait_frame [OF Cons.prems(1) w 1] Cons.prems(4) by auto
    have step: "spent l1 = spent l + (if e = None then charge w else 0)"
      using Cons.prems(1) w 1 by (cases rule: wait_cases) (use t in auto)
    have "spent l1 + sum_list (map charge adm2) = spent l' \<and> spent l' \<le> cap l1"
      using Cons.IH [OF frame(1) _ 2 frame(3)] Cons.prems(2) same by auto
    then show ?thesis using step Cons.prems(3) Request 1 2 frame by auto
  next
    case (Penalty t v d)
    then show ?thesis
      using Cons.IH [of "penal t v d l" adm] Cons.prems penal_ok penal_spent penal_cap penal_inside by auto
  qed
qed simp

text \<open>A request that fits the budget is admitted once the window and the penalty are over.\<close>

lemma wait_recovers:
  assumes "ok l" "0 \<le> w" "w < 2 ^ 62" "charge w \<le> cap l"
    and "until l = 0 \<or> until l \<le> t2" "opened l + width l \<le> t1" "opened l + width l \<le> t2"
  shows "\<exists>l' m. wait t1 t2 w l = (l', None, m) \<and> spent l' = charge w"
proof -
  have "spent (tick t1 t2 l) = 0" using tick_outside assms by blast
  then show ?thesis using wait_admit [OF assms(1-3,5), of t1] assms(4) by auto
qed

end

section \<open>The limiters satisfy the contract\<close>

lemmas wl_defs = WeightedLimiter_Wait_def WeightedLimiter_Backoff_def replenishLocked_def wl_ok_def
lemmas cl_defs = CounterLimiter_Wait_def CounterLimiter_Backoff_def decayLocked_def cl_ok_def
lemmas rl_defs = RPSLimiter_Wait_def RPSLimiter_Backoff_def roll_window_def rl_ok_def

lemma add64_small: "0 \<le> a \<Longrightarrow> a < 2 ^ 62 \<Longrightarrow> 0 \<le> b \<Longrightarrow> b < 2 ^ 62 \<Longrightarrow> add64 a b = a + b"
  by (simp add: in_int64_def)

lemma time_sub_ge_width:
  "0 < d \<Longrightarrow> d < 2 ^ 62 \<Longrightarrow> d \<le> time_sub t u \<longleftrightarrow> u + d \<le> t"
  by (auto simp: time_sub_def)

interpretation wl: window_limiter WeightedLimiter_Wait WeightedLimiter_Backoff
  "\<lambda>t1 t2. replenishLocked t1" "\<lambda>w. w" wl_used wl_budget wl_backoff wl_ok wl_lastFill wl_refill
  by unfold_locales
    (auto simp: wl_defs Let_def time_sub_ge_width add64_small split: if_splits)

interpretation rl: window_limiter "\<lambda>t1. RPSLimiter_Wait" RPSLimiter_Backoff
  "\<lambda>t1. roll_window" "\<lambda>w. 1" rl_count rl_limit rl_backoff rl_ok rl_start rl_window
  by unfold_locales
    (auto simp: rl_defs Let_def time_sub_ge_width add64_small split: if_splits)

lemma trunc_div_le: "0 < b \<Longrightarrow> a \<le> m \<Longrightarrow> 0 \<le> m \<Longrightarrow> trunc_div a b \<le> m"
proof (cases "a < 0")
  case True
  assume "0 < b" "a \<le> m" "0 \<le> m"
  with True show ?thesis using trunc_div_neg [of a b] by simp
next
  case False
  assume "0 < b" "a \<le> m"
  moreover have "a div b \<le> a div 1" using False \<open>0 < b\<close> by (intro zdiv_mono2) auto
  ultimately show ?thesis using False by (simp add: trunc_div_nonneg)
qed

lemma decay_ticks_range:
  assumes "cl_ok l"
  shows "0 \<le> decay_ticks t l" "decay_ticks t l \<le> max_int64"
    "cl_last l \<le> t \<Longrightarrow> decay_ticks t l * cl_decay l \<le> t - cl_last l"
    "decay_ticks t l * cl_decay l \<le> max_int64" "0 \<le> decay_ticks t l * cl_decay l"
proof -
  have d: "0 < cl_decay l" using assms by (simp add: cl_ok_def)
  have m: "time_sub t (cl_last l) \<le> max_int64" by (simp add: time_sub_def)
  show "0 \<le> decay_ticks t l" by (simp add: decay_ticks_def)
  then show "0 \<le> decay_ticks t l * cl_decay l" using d by simp
  show "decay_ticks t l \<le> max_int64"
    using trunc_div_le [OF d m] by (simp add: decay_ticks_def)
  have e: "decay_ticks t l * cl_decay l \<le> max 0 (time_sub t (cl_last l))"
  proof (cases "time_sub t (cl_last l) < 0")
    case True
    then show ?thesis using trunc_div_neg [OF True d] by (simp add: decay_ticks_def)
  next
    case False
    then have "trunc_div (time_sub t (cl_last l)) (cl_decay l) * cl_decay l \<le> time_sub t (cl_last l)"
      using d by (simp add: trunc_div_nonneg) (metis div_mult_mod_eq le_add_same_cancel1 pos_mod_sign)
    with False d show ?thesis by (simp add: decay_ticks_def trunc_div_nonneg pos_imp_zdiv_nonneg_iff)
  qed
  then show "decay_ticks t l * cl_decay l \<le> max_int64" using m by simp
  show "decay_ticks t l * cl_decay l \<le> t - cl_last l" if "cl_last l \<le> t"
    using e that by (simp add: time_sub_def split: if_splits)
qed

lemma decayLocked_eq:
  assumes "cl_ok l"
  shows "decayLocked t l =
    l\<lparr>cl_current := max 0 (cl_current l - decay_ticks t l),
      cl_last := cl_last l + decay_ticks t l * cl_decay l\<rparr>"
proof -
  note r = decay_ticks_range [OF assms, of t]
  have "in_int64 (decay_ticks t l * cl_decay l)" by (rule in_int64I) (use r(4,5) in linarith)+
  moreover have "in_int64 (cl_current l - decay_ticks t l)"
    using r(1,2) assms by (auto simp: in_int64_def cl_ok_def)
  ultimately show ?thesis
    using assms
    by (auto simp: decayLocked_def decay_ticks_def Let_def mul64_def sub64_def max_def cl_ok_def)
qed

interpretation cl: rate_limiter CounterLimiter_Wait CounterLimiter_Backoff
  "\<lambda>t1 t2. decayLocked t1" "\<lambda>w. w" cl_current cl_budget cl_backoff cl_ok
proof unfold_locales
  fix l t1 t2
  assume ok: "cl_ok l"
  show "cl_current (decayLocked t1 l) \<le> cl_current l"
    using ok decay_ticks_range [OF ok, of t1] by (simp add: decayLocked_eq) (simp add: cl_ok_def)
  show "cl_ok (decayLocked t1 l)"
    using ok decay_ticks_range [OF ok, of t1] by (simp add: decayLocked_eq) (simp add: cl_ok_def)
next
  fix l w t1 t2
  assume a: "cl_ok l" "0 \<le> w" "w < (2::int) ^ 62" "cl_backoff l = 0 \<or> cl_backoff l \<le> t2"
  have ok: "cl_ok (decayLocked t1 l)" and bo: "cl_backoff (decayLocked t1 l) = cl_backoff l"
    using a decay_ticks_range [OF a(1), of t1] by (auto simp: decayLocked_eq cl_ok_def)
  show "\<exists>m. CounterLimiter_Wait t1 t2 w l = (decayLocked t1 l, Some ErrBudgetExhausted, m)"
    if "cl_budget l < cl_current (decayLocked t1 l) + w"
    using a that ok bo
    by (auto simp: CounterLimiter_Wait_def Let_def add64_small cl_ok_def decayLocked_eq)
  show "\<exists>l' m. CounterLimiter_Wait t1 t2 w l = (l', None, m) \<and> cl_ok l' \<and> cl_budget l' = cl_budget l \<and>
      cl_backoff l' = cl_backoff l \<and> cl_current l' = cl_current (decayLocked t1 l) + w"
    if "cl_current (decayLocked t1 l) + w \<le> cl_budget l"
    using a that ok bo
    by (auto simp: CounterLimiter_Wait_def Let_def add64_small cl_ok_def decayLocked_eq)
qed (auto simp: cl_defs Let_def)

lemma CounterLimiter_Wait_step:
  assumes "cl_ok l" "0 \<le> w" "w < 2 ^ 62" "CounterLimiter_Wait t1 t2 w l = (l', e, m)"
  shows "cl_last l' = cl_last l + decay_ticks t1 l * cl_decay l" "cl_decay l' = cl_decay l"
    "cl_current l' = max 0 (cl_current l - decay_ticks t1 l) + (if e = None then w else 0)"
proof -
  let ?d = "decayLocked t1 l"
  have "cl_ok ?d" using assms(1) by (rule cl.tick_ok)
  then have "add64 (cl_current ?d) w = cl_current ?d + w"
    using assms by (intro add64_small) (auto simp: cl_ok_def)
  with assms(4) show "cl_last l' = cl_last l + decay_ticks t1 l * cl_decay l" "cl_decay l' = cl_decay l"
    "cl_current l' = max 0 (cl_current l - decay_ticks t1 l) + (if e = None then w else 0)"
    by (auto simp: CounterLimiter_Wait_def Let_def decayLocked_eq [OF assms(1)] split: if_splits)
qed

lemma counter_serve_ticks:
  assumes "cl_ok l" "cl_last l \<le> T"
    "\<forall>ev \<in> set evs. sane_event ev \<and> requests_between a T ev"
    "serve CounterLimiter_Wait CounterLimiter_Backoff evs l = (l', adm)"
  shows "\<exists>n \<ge> 0. cl_last l + n * cl_decay l \<le> T \<and> cl_current l + sum_list adm \<le> cl_current l' + n"
  using assms
proof (induction evs arbitrary: l adm)
  case Nil
  then show ?case by (intro exI [of _ 0]) auto
next
  case (Cons ev evs)
  show ?case
  proof (cases ev)
    case (Request t1 t2 w)
    obtain l1 e m where 1: "CounterLimiter_Wait t1 t2 w l = (l1, e, m)"
      by (cases "CounterLimiter_Wait t1 t2 w l")
    have w: "0 \<le> w" "w < 2 ^ 62" "t1 < T" using Cons.prems(3) Request by auto
    note step = CounterLimiter_Wait_step [OF Cons.prems(1) w(1,2) 1]
    let ?k = "decay_ticks t1 l"
    have k: "0 \<le> ?k" using decay_ticks_range(1) [OF Cons.prems(1)] by blast
    have last: "cl_last l1 \<le> T"
    proof (cases "cl_last l \<le> t1")
      case True
      then show ?thesis using decay_ticks_range(3) [OF Cons.prems(1) True] step(1) w(3) by simp
    next
      case False
      then have "?k = 0"
        using Cons.prems(1) trunc_div_neg [of "time_sub t1 (cl_last l)" "cl_decay l"]
        by (simp add: decay_ticks_def time_sub_def cl_ok_def)
      then show ?thesis using step(1) Cons.prems(2) by simp
    qed
    obtain adm2 where 2: "serve CounterLimiter_Wait CounterLimiter_Backoff evs l1 = (l', adm2)"
      and adm: "adm = (if e = None then w # adm2 else adm2)"
      using Cons.prems(4) Request 1 by (auto split: prod.splits)
    have ok1: "cl_ok l1" using cl.wait_frame [OF Cons.prems(1) w(1,2) 1] by simp
    obtain n where n: "n \<ge> 0" "cl_last l1 + n * cl_decay l \<le> T"
      "cl_current l1 + sum_list adm2 \<le> cl_current l' + n"
      using Cons.IH [OF ok1 last _ 2] Cons.prems(3) step(2) by auto
    show ?thesis
      by (intro exI [of _ "?k + n"]) (use n k step adm in \<open>auto simp: algebra_simps\<close>)
  next
    case (Penalty t v d)
    then show ?thesis
      using Cons.IH [of "CounterLimiter_Backoff t v d l" adm] Cons.prems cl.penal_ok
      by (auto simp: CounterLimiter_Backoff_def)
  qed
qed

section \<open>Properties\<close>

text \<open>
  C3: fixed-window safety of \<open>WeightedLimiter\<close>. For any sequence of requests and penalties
  whose clock readings fall in the current one-minute window, the weights \<open>Wait\<close> admits add
  up to at most the budget that was left when the sequence began, the counter holds exactly
  what was admitted, and it never passes the budget.
\<close>

theorem weighted_window_safety:
  assumes "wl_ok l" "wl_used l \<le> wl_budget l"
    and "\<forall>ev \<in> set evs. sane_event ev \<and> requests_between (wl_lastFill l) (wl_lastFill l + wl_refill l) ev"
    and "serve WeightedLimiter_Wait WeightedLimiter_Backoff evs l = (l', adm)"
  shows "wl_used l' = wl_used l + sum_list adm \<and> sum_list adm \<le> wl_budget l - wl_used l"
  using wl.serve_window [OF assms(1,3,4,2)] by auto

theorem weighted_window_safety_witness:
  "sum_list (snd (serve WeightedLimiter_Wait WeightedLimiter_Backoff
     [Request 10 11 6, Request 12 13 5, Request 14 15 4] (NewWeightedLimiter 5 ''binance'' 10))) \<le> 10"
proof -
  let ?l = "NewWeightedLimiter 5 ''binance'' 10"
  let ?evs = "[Request 10 11 6, Request 12 13 5, Request 14 15 4]"
  obtain l' adm where 1: "serve WeightedLimiter_Wait WeightedLimiter_Backoff ?evs ?l = (l', adm)"
    by (cases "serve WeightedLimiter_Wait WeightedLimiter_Backoff ?evs ?l")
  have "wl_ok ?l" "wl_used ?l \<le> wl_budget ?l"
    "\<forall>ev \<in> set ?evs. sane_event ev \<and> requests_between (wl_lastFill ?l) (wl_lastFill ?l + wl_refill ?l) ev"
    by (auto simp: wl_ok_def NewWeightedLimiter_def)
  from weighted_window_safety [OF this 1] show ?thesis
    using 1 by (simp add: NewWeightedLimiter_def)
qed

text \<open>
  C12: leaky-bucket safety of \<open>CounterLimiter\<close>. Whatever requests and penalties come before
  time \<open>T\<close>, the costs admitted exceed the free budget by at most the number of whole decay
  periods between the counter's last decay and \<open>T\<close>: the sustained rate is one unit per
  \<open>decay\<close> and the burst is the budget.
\<close>

theorem counter_leaky_bucket_safety:
  assumes "cl_ok l" "cl_current l \<le> cl_budget l" "cl_last l \<le> T"
    and "\<forall>ev \<in> set evs. sane_event ev \<and> requests_between a T ev"
    and "serve CounterLimiter_Wait CounterLimiter_Backoff evs l = (l', adm)"
  shows "sum_list adm \<le> cl_budget l - cl_current l + (T - cl_last l) div cl_decay l"
proof -
  obtain n where n: "n \<ge> 0" "cl_last l + n * cl_decay l \<le> T"
    "cl_current l + sum_list adm \<le> cl_current l' + n"
    using counter_serve_ticks [OF assms(1,3,4,5)] by blast
  have "n * cl_decay l div cl_decay l \<le> (T - cl_last l) div cl_decay l"
    using n assms(1) by (intro zdiv_mono1) (auto simp: cl_ok_def)
  then have "n \<le> (T - cl_last l) div cl_decay l" using assms(1) by (simp add: cl_ok_def)
  moreover have "cl_current l' \<le> cl_budget l"
    using cl.serve_within_cap [OF assms(1,2) _ assms(5)] assms(4) by auto
  ultimately show ?thesis using n by simp
qed

theorem counter_leaky_bucket_safety_witness:
  "sum_list (snd (serve CounterLimiter_Wait CounterLimiter_Backoff
     [Request 10 11 6, Request (7 * second) (7 * second) 6] (NewCounterLimiter 5 ''kraken'' 8))) \<le> 8 + 3"
proof -
  let ?l = "NewCounterLimiter 5 ''kraken'' 8"
  let ?evs = "[Request 10 11 6, Request (7 * second) (7 * second) 6]"
  obtain l' adm where 1: "serve CounterLimiter_Wait CounterLimiter_Backoff ?evs ?l = (l', adm)"
    by (cases "serve CounterLimiter_Wait CounterLimiter_Backoff ?evs ?l")
  have "cl_ok ?l" "cl_current ?l \<le> cl_budget ?l" "cl_last ?l \<le> 9 * second + 5"
    "\<forall>ev \<in> set ?evs. sane_event ev \<and> requests_between 0 (9 * second + 5) ev"
    by (auto simp: cl_ok_def NewCounterLimiter_def)
  from counter_leaky_bucket_safety [OF this 1] show ?thesis
    using 1 by (simp add: NewCounterLimiter_def)
qed

text \<open>
  C13: fixed-window safety of \<open>RPSLimiter\<close>. Within one window the number of admitted requests
  is at most the number of requests that were still free, whatever their weights.
\<close>

theorem rps_window_safety:
  assumes "rl_ok l" "rl_count l \<le> rl_limit l"
    and "\<forall>ev \<in> set evs. sane_event ev \<and> requests_between (rl_start l) (rl_start l + rl_window l) ev"
    and "serve (\<lambda>t1. RPSLimiter_Wait) RPSLimiter_Backoff evs l = (l', adm)"
  shows "rl_count l' = rl_count l + int (length adm) \<and> int (length adm) \<le> rl_limit l - rl_count l"
  using rl.serve_window [OF assms(1,3,4,2)] by (simp add: sum_list_triv)

theorem rps_window_safety_witness:
  "int (length (snd (serve (\<lambda>t1. RPSLimiter_Wait) RPSLimiter_Backoff
     [Request 6 6 1, Request 7 7 1, Request 8 8 1] (NewRPSLimiter 5 ''otc'' 2)))) \<le> 2"
proof -
  let ?l = "NewRPSLimiter 5 ''otc'' 2"
  let ?evs = "[Request 6 6 1, Request 7 7 1, Request 8 8 1]"
  obtain l' adm where 1: "serve (\<lambda>t1. RPSLimiter_Wait) RPSLimiter_Backoff ?evs ?l = (l', adm)"
    by (cases "serve (\<lambda>t1. RPSLimiter_Wait) RPSLimiter_Backoff ?evs ?l")
  have "rl_ok ?l" "rl_count ?l \<le> rl_limit ?l"
    "\<forall>ev \<in> set ?evs. sane_event ev \<and> requests_between (rl_start ?l) (rl_start ?l + rl_window ?l) ev"
    by (auto simp: rl_ok_def NewRPSLimiter_def)
  from rps_window_safety [OF this 1] show ?thesis using 1 by (simp add: NewRPSLimiter_def)
qed

text \<open>
  After a 429 or 418 answer none of the three limiters admits a request before the penalty
  ends, even when a window ends or the counter decays in between: \<open>Backoff\<close> at \<open>now\<close> for \<open>d\<close>
  makes every later \<open>Wait\<close> that reads a clock before \<open>now + d\<close> fail.
\<close>

theorem backoff_admits_nothing:
  assumes "wl_ok l1" "cl_ok l2" "rl_ok l3" "now + d \<noteq> 0"
    and "\<forall>ev \<in> set evs. sane_event ev \<and> (\<exists>t1 t2 w. ev = Request t1 t2 w \<and> t2 < now + d)"
  shows "snd (serve WeightedLimiter_Wait WeightedLimiter_Backoff evs (WeightedLimiter_Backoff now v d l1)) = [] \<and>
    snd (serve CounterLimiter_Wait CounterLimiter_Backoff evs (CounterLimiter_Backoff now v d l2)) = [] \<and>
    snd (serve (\<lambda>t1. RPSLimiter_Wait) RPSLimiter_Backoff evs (RPSLimiter_Backoff now v d l3)) = []"
proof (intro conjI)
  show "snd (serve WeightedLimiter_Wait WeightedLimiter_Backoff evs (WeightedLimiter_Backoff now v d l1)) = []"
    using wl.serve_blocked [OF wl.penal_ok [OF assms(1), of now v d], of evs] wl.penal_until assms(4,5)
    by (metis prod.collapse)
  show "snd (serve CounterLimiter_Wait CounterLimiter_Backoff evs (CounterLimiter_Backoff now v d l2)) = []"
    using cl.serve_blocked [OF cl.penal_ok [OF assms(2), of now v d], of evs] cl.penal_until assms(4,5)
    by (metis prod.collapse)
  show "snd (serve (\<lambda>t1. RPSLimiter_Wait) RPSLimiter_Backoff evs (RPSLimiter_Backoff now v d l3)) = []"
    using rl.serve_blocked [OF rl.penal_ok [OF assms(3), of now v d], of evs] rl.penal_until assms(4,5)
    by (metis prod.collapse)
qed

theorem backoff_admits_nothing_witness:
  "snd (serve WeightedLimiter_Wait WeightedLimiter_Backoff [Request 20 21 1]
     (WeightedLimiter_Backoff 10 ''binance'' 30 (NewWeightedLimiter 5 ''binance'' 1200))) = []"
  using backoff_admits_nothing [of "NewWeightedLimiter 5 ''binance'' 1200"
      "NewCounterLimiter 5 ''kraken'' 20" "NewRPSLimiter 5 ''otc'' 10" 10 30 "[Request 20 21 1]" "''binance''"]
  by (simp add: wl_ok_def cl_ok_def rl_ok_def NewWeightedLimiter_def NewCounterLimiter_def NewRPSLimiter_def)

text \<open>
  C27: The limiters recover. Once the window and the penalty are over, a request whose weight
  fits the budget is admitted by \<open>WeightedLimiter\<close>, and any request by an \<open>RPSLimiter\<close> with a
  positive limit, and exactly that request is then on the counter.
\<close>

theorem limiters_recover:
  assumes "wl_ok l" "0 \<le> w" "w \<le> wl_budget l" "wl_backoff l = 0 \<or> wl_backoff l \<le> t2"
    and "wl_lastFill l + wl_refill l \<le> t1" "t1 \<le> t2"
    and "rl_ok r" "1 \<le> rl_limit r" "rl_backoff r = 0 \<or> rl_backoff r \<le> t2" "rl_start r + rl_window r \<le> t2"
  shows "(\<exists>l' m. WeightedLimiter_Wait t1 t2 w l = (l', None, m) \<and> wl_used l' = w) \<and>
    (\<exists>r' m. RPSLimiter_Wait t2 w r = (r', None, m) \<and> rl_count r' = 1)"
proof
  show "\<exists>l' m. WeightedLimiter_Wait t1 t2 w l = (l', None, m) \<and> wl_used l' = w"
    using assms by (intro wl.wait_recovers) (auto simp: wl_ok_def)
  show "\<exists>r' m. RPSLimiter_Wait t2 w r = (r', None, m) \<and> rl_count r' = 1"
    using rl.wait_recovers [of r 1 t2 t2] assms by (simp add: RPSLimiter_Wait_def)
qed

theorem limiters_recover_witness:
  "\<exists>l' m. WeightedLimiter_Wait (61 * second) (61 * second) 10
     ((NewWeightedLimiter 5 ''binance'' 10)\<lparr>wl_used := 10\<rparr>) = (l', None, m) \<and> wl_used l' = 10"
  using limiters_recover [of "(NewWeightedLimiter 5 ''binance'' 10)\<lparr>wl_used := 10\<rparr>" 10 "61 * second"
      "61 * second" "NewRPSLimiter 5 ''otc'' 10"]
  by (simp add: wl_ok_def rl_ok_def NewWeightedLimiter_def NewRPSLimiter_def)

text \<open>
  The budget check of \<open>WeightedLimiter.Wait\<close> is bypassed by wrap-around. The used weight
  comes from the \<open>X-MBX-USED-WEIGHT-1M\<close> header through \<open>UpdateUsed\<close>; when it is the greatest
  \<open>int64\<close>, adding the weight of the next request wraps to the least \<open>int64\<close>, so the request
  is admitted although the budget is exhausted, and the counter is negative afterwards.
\<close>

theorem weighted_wait_overflow:
  assumes "wl_backoff l = 0" "time_sub t1 (wl_lastFill l) < wl_refill l" "0 \<le> wl_budget l"
  shows "\<exists>l' m. WeightedLimiter_Wait t1 t2 1 (fst (WeightedLimiter_UpdateUsed v max_int64 l)) = (l', None, m) \<and>
    wl_used l' = min_int64"
proof -
  have "add64 max_int64 1 = min_int64" by (simp add: add64_def wrap64_def)
  then show ?thesis
    using assms by (simp add: WeightedLimiter_Wait_def WeightedLimiter_UpdateUsed_def replenishLocked_def Let_def)
qed

theorem weighted_wait_overflow_witness:
  "\<exists>l' m. WeightedLimiter_Wait 6 7 1 (fst (WeightedLimiter_UpdateUsed ''binance'' max_int64
     (NewWeightedLimiter 5 ''binance'' 1200))) = (l', None, m) \<and> wl_used l' = min_int64"
  using weighted_wait_overflow [of "NewWeightedLimiter 5 ''binance'' 1200" 6 7 "''binance''"]
  by (simp add: NewWeightedLimiter_def time_sub_def)

end
