(* ===== verification/Book_Recon.thy ===== *)
theory Book_Recon
  imports Go_Prelude
begin

text \<open>
  The order book reconstruction of \<open>internal/ws/ws.go\<close> (\<open>BookReconstructor\<close>, lines 162--276):
  two Go maps from price strings to size strings, a sequence number, and the sorted prefix
  that \<open>TopN\<close> returns. Every method holds the mutex, so each is a state transformer; the
  clock is an argument, and so is the order in which \<open>range\<close> visits a map.

  The specification is a pair of partial maps (\<open>abs_book\<close>) on which a diff acts by
  "last mention wins, an empty or \<open>0\<close> size deletes" (\<open>spec_side\<close>).
\<close>

section \<open>Definitions\<close>

type_synonym level = "string \<times> string"

record book_recon =
  br_venue :: string
  br_pair :: string
  br_bids :: "(string, string) gomap"
  br_asks :: "(string, string) gomap"
  br_lastSeq :: int64
  br_lastUpdate :: gotime
  br_snapshotTTL :: duration

definition NewBookReconstructor :: "string \<Rightarrow> string \<Rightarrow> book_recon" where
  "NewBookReconstructor venue pair =
     \<lparr>br_venue = venue, br_pair = pair, br_bids = [], br_asks = [], br_lastSeq = 0,
      br_lastUpdate = 0, br_snapshotTTL = 1 * second\<rparr>"

text \<open>The loops of \<open>ApplySnapshot\<close> and \<open>ApplyDiff\<close> over one side of a message.\<close>

fun set_levels :: "level list \<Rightarrow> (string, string) gomap \<Rightarrow> (string, string) gomap" where
  "set_levels [] m = m"
| "set_levels ((p, s) # lvls) m = set_levels lvls (AList.update p s m)"

fun diff_levels :: "level list \<Rightarrow> (string, string) gomap \<Rightarrow> (string, string) gomap" where
  "diff_levels [] m = m"
| "diff_levels ((p, s) # lvls) m =
     diff_levels lvls (if s = ''0'' \<or> s = '''' then AList.delete p m else AList.update p s m)"

definition ApplySnapshot :: "gotime \<Rightarrow> level list \<Rightarrow> level list \<Rightarrow> book_recon \<Rightarrow> book_recon" where
  "ApplySnapshot now bids asks r =
     r\<lparr>br_bids := set_levels bids [], br_asks := set_levels asks [], br_lastUpdate := now\<rparr>"

text \<open>The result is the new state, \<open>applied\<close> and \<open>gap\<close>.\<close>

definition ApplyDiff ::
  "gotime \<Rightarrow> int64 \<Rightarrow> level list \<Rightarrow> level list \<Rightarrow> book_recon \<Rightarrow> book_recon \<times> bool \<times> bool"
where
  "ApplyDiff now seq bids asks r =
     (if br_lastSeq r \<noteq> 0 \<and> seq \<le> br_lastSeq r then (r, False, False)
      else if br_lastSeq r \<noteq> 0 \<and> seq > add64 (br_lastSeq r) 1 then (r, False, True)
      else (r\<lparr>br_bids := diff_levels bids (br_bids r), br_asks := diff_levels asks (br_asks r),
               br_lastSeq := seq, br_lastUpdate := now\<rparr>, True, False))"

text \<open>\<open>MarkGap\<close> also increments \<open>ws_gap_count\<close> for the venue: the label is returned.\<close>

definition MarkGap :: "book_recon \<Rightarrow> book_recon \<times> string" where
  "MarkGap r = (r\<lparr>br_lastSeq := 0\<rparr>, br_venue r)"

definition Lag :: "gotime \<Rightarrow> book_recon \<Rightarrow> gofloat" where
  "Lag now r =
     (if br_lastUpdate r = 0 then Fin 0
      else fdiv (time_sub now (br_lastUpdate r)) second)"

text \<open>
  \<open>sortLevels\<close>: the inner loop swaps the element at \<open>j\<close> towards the front until its left
  neighbour is strictly less (greater, when descending) by the byte order of the strings.
\<close>

definition level_less :: "bool \<Rightarrow> string \<Rightarrow> string \<Rightarrow> bool" where
  "level_less descending a b = (if descending then a > b else a < b)"

fun sift :: "bool \<Rightarrow> nat \<Rightarrow> level list \<Rightarrow> level list" where
  "sift descending 0 s = s"
| "sift descending (Suc j) s =
     (if level_less descending (fst (s ! j)) (fst (s ! Suc j)) then s
      else sift descending j (s[j := s ! Suc j, Suc j := s ! j]))"

definition sortLevels :: "bool \<Rightarrow> level list \<Rightarrow> level list" where
  "sortLevels descending s = fold (sift descending) [1..<length s] s"

text \<open>Slicing \<open>out[:n]\<close> with a negative \<open>n\<close> panics: \<open>None\<close>.\<close>

definition collectLevels ::
  "(level list \<Rightarrow> level list) \<Rightarrow> (string, string) gomap \<Rightarrow> bool \<Rightarrow> int \<Rightarrow> level list option"
where
  "collectLevels ord m descending n =
     (let out = sortLevels descending (ord m)
      in if int (length out) > n then (if n < 0 then None else Some (take (nat n) out)) else Some out)"

definition TopN ::
  "(level list \<Rightarrow> level list) \<Rightarrow> int \<Rightarrow> book_recon \<Rightarrow> (level list \<times> level list) option"
where
  "TopN ord n r =
     (case (collectLevels ord (br_bids r) True n, collectLevels ord (br_asks r) False n) of
        (Some bids, Some asks) \<Rightarrow> Some (bids, asks)
      | _ \<Rightarrow> None)"

subsection \<open>A stream of diffs\<close>

type_synonym diff_msg = "gotime \<times> int64 \<times> level list \<times> level list"

fun msg_seq :: "diff_msg \<Rightarrow> int64" where
  "msg_seq (t, seq, b, a) = seq"

text \<open>Feeding messages in arrival order; the result also lists the messages applied and whether a gap was seen.\<close>

fun feed :: "diff_msg list \<Rightarrow> book_recon \<Rightarrow> book_recon \<times> diff_msg list \<times> bool" where
  "feed [] r = (r, [], False)"
| "feed ((t, seq, b, a) # ms) r =
     (case ApplyDiff t seq b a r of (r1, ok, gap) \<Rightarrow>
        (case feed ms r1 of (r2, applied, gap2) \<Rightarrow>
           (r2, if ok then (t, seq, b, a) # applied else applied, gap \<or> gap2)))"

subsection \<open>Specification\<close>

definition abs_book :: "book_recon \<Rightarrow> (string \<rightharpoonup> string) \<times> (string \<rightharpoonup> string)" where
  "abs_book r = (map_of (br_bids r), map_of (br_asks r))"

text \<open>One side after a diff: the last mention of a price decides, else the old size stays.\<close>

definition spec_side :: "level list \<Rightarrow> (string \<rightharpoonup> string) \<Rightarrow> (string \<rightharpoonup> string)" where
  "spec_side lvls m = (\<lambda>p. case map_of (rev lvls) p of None \<Rightarrow> m p
     | Some s \<Rightarrow> if s = ''0'' \<or> s = '''' then None else Some s)"

fun spec_msg :: "diff_msg \<Rightarrow> (string \<rightharpoonup> string) \<times> (string \<rightharpoonup> string) \<Rightarrow> (string \<rightharpoonup> string) \<times> (string \<rightharpoonup> string)" where
  "spec_msg (t, seq, b, a) (mb, ma) = (spec_side b mb, spec_side a ma)"

definition wf_book :: "book_recon \<Rightarrow> bool" where
  "wf_book r \<longleftrightarrow> wf_map (br_bids r) \<and> wf_map (br_asks r)"

text \<open>The listing \<open>TopN\<close> should give: the whole side, strictly sorted by the key order.\<close>

definition sorted_side :: "bool \<Rightarrow> level list \<Rightarrow> bool" where
  "sorted_side descending = sorted_wrt (\<lambda>x y. level_less descending (fst x) (fst y))"

text \<open>A reference sort: insertion from the right end.\<close>

fun ins_rev :: "bool \<Rightarrow> level \<Rightarrow> level list \<Rightarrow> level list" where
  "ins_rev d x [] = [x]"
| "ins_rev d x (y # ys) = (if level_less d (fst y) (fst x) then x # y # ys else y # ins_rev d x ys)"

definition ins_level :: "bool \<Rightarrow> level \<Rightarrow> level list \<Rightarrow> level list" where
  "ins_level d x xs = rev (ins_rev d x (rev xs))"

definition ins_sort :: "bool \<Rightarrow> level list \<Rightarrow> level list" where
  "ins_sort d xs = foldl (\<lambda>acc x. ins_level d x acc) [] xs"

section \<open>The maps\<close>

lemma map_of_set_levels [simp]: "map_of (set_levels lvls m) = map_of m ++ map_of (rev lvls)"
  by (induction lvls m rule: set_levels.induct) (auto simp: fun_eq_iff map_add_def split: option.split)

lemma wf_set_levels [simp]: "wf_map m \<Longrightarrow> wf_map (set_levels lvls m)"
  by (induction lvls m rule: set_levels.induct) (auto simp: fun_upd_def)

lemma wf_diff_levels [simp]: "wf_map m \<Longrightarrow> wf_map (diff_levels lvls m)"
  by (induction lvls m rule: diff_levels.induct) auto

lemma spec_side_Nil [simp]: "spec_side [] m = m"
  by (simp add: spec_side_def)

lemma spec_side_Cons:
  "spec_side ((p, s) # lvls) m = spec_side lvls (if s = ''0'' \<or> s = '''' then m(p := None) else m(p \<mapsto> s))"
  by (auto simp: spec_side_def fun_eq_iff map_add_def split: option.splits)

lemma map_of_diff_levels [simp]: "map_of (diff_levels lvls m) = spec_side lvls (map_of m)"
  by (induction lvls m rule: diff_levels.induct) (auto simp: spec_side_Cons fun_upd_def)

lemma wf_NewBook [simp]: "wf_book (NewBookReconstructor v p)"
  by (simp add: wf_book_def NewBookReconstructor_def)

lemma wf_ApplySnapshot [simp]: "wf_book (ApplySnapshot now b a r)"
  by (simp add: wf_book_def ApplySnapshot_def)

lemma wf_ApplyDiff: "wf_book r \<Longrightarrow> ApplyDiff now seq b a r = (r', ok, gap) \<Longrightarrow> wf_book r'"
  by (auto simp: wf_book_def ApplyDiff_def split: if_splits)

lemma wf_MarkGap: "wf_book r \<Longrightarrow> wf_book (fst (MarkGap r))"
  by (simp add: wf_book_def MarkGap_def)

section \<open>The sort\<close>

lemma level_less_irrefl [simp]: "\<not> level_less d a a"
  by (simp add: level_less_def)

lemma level_less_trans: "level_less d a b \<Longrightarrow> level_less d b c \<Longrightarrow> level_less d a c"
  by (auto simp: level_less_def split: if_splits)

lemma level_less_asym: "level_less d a b \<Longrightarrow> \<not> level_less d b a"
  by (auto simp: level_less_def split: if_splits)

lemma level_less_total: "a \<noteq> b \<Longrightarrow> \<not> level_less d a b \<Longrightarrow> level_less d b a"
  by (auto simp: level_less_def split: if_splits)

lemma mset_ins_rev [simp]: "mset (ins_rev d x xs) = add_mset x (mset xs)"
  by (induction xs) auto

lemma mset_ins_level [simp]: "mset (ins_level d x xs) = add_mset x (mset xs)"
  by (simp add: ins_level_def)

lemma length_ins_level [simp]: "length (ins_level d x xs) = Suc (length xs)"
  using mset_ins_level [of d x xs] by (metis size_mset size_add_mset)

lemma set_ins_rev: "set (ins_rev d x xs) = insert x (set xs)"
  by (induction xs) auto

lemma ins_rev_sorted:
  "sorted_wrt (\<lambda>x y. level_less d (fst y) (fst x)) xs \<Longrightarrow> fst x \<notin> fst ` set xs \<Longrightarrow>
   sorted_wrt (\<lambda>x y. level_less d (fst y) (fst x)) (ins_rev d x xs)"
proof (induction xs)
  case (Cons y ys)
  show ?case
  proof (cases "level_less d (fst y) (fst x)")
    case True
    with Cons.prems show ?thesis by (auto intro: level_less_trans)
  next
    case False
    then have "level_less d (fst x) (fst y)" using Cons.prems(2) level_less_total by auto
    with False Cons show ?thesis by (auto simp: set_ins_rev)
  qed
qed simp

lemma ins_level_sorted:
  "sorted_side d xs \<Longrightarrow> fst x \<notin> fst ` set xs \<Longrightarrow> sorted_side d (ins_level d x xs)"
  using ins_rev_sorted [of d "rev xs" x] by (simp add: sorted_side_def ins_level_def sorted_wrt_rev)

text \<open>The in-place inner loop is insertion into the part before it.\<close>

lemma sift_append: "sift d (length xs) (xs @ x # ys) = ins_level d x xs @ ys"
proof (induction xs arbitrary: ys rule: rev_induct)
  case Nil
  then show ?case by (simp add: ins_level_def)
next
  case (snoc z zs)
  have "sift d (Suc (length zs)) (zs @ z # x # ys) =
    (if level_less d (fst z) (fst x) then zs @ z # x # ys else sift d (length zs) (zs @ x # z # ys))"
    by (simp add: nth_append list_update_append)
  with snoc [of "z # ys"] show ?case by (simp add: ins_level_def)
qed

lemma ins_sort_snoc [simp]: "ins_sort d (xs @ [x]) = ins_level d x (ins_sort d xs)"
  by (simp add: ins_sort_def)

lemma mset_ins_sort [simp]: "mset (ins_sort d xs) = mset xs"
  by (induction xs rule: rev_induct) (simp_all, simp add: ins_sort_def)

lemma length_ins_sort [simp]: "length (ins_sort d xs) = length xs"
  by (metis mset_ins_sort size_mset)

lemma fold_sift:
  "k < length s \<Longrightarrow> fold (sift d) [1..<Suc k] s = ins_sort d (take (Suc k) s) @ drop (Suc k) s"
proof (induction k)
  case 0
  then show ?case by (cases s) (simp_all add: ins_sort_def ins_level_def)
next
  case (Suc k)
  let ?x = "s ! Suc k"
  have IH: "fold (sift d) [1..<Suc k] s = ins_sort d (take (Suc k) s) @ ?x # drop (Suc (Suc k)) s"
    using Suc by (simp add: Cons_nth_drop_Suc)
  have "fold (sift d) [1..<Suc (Suc k)] s = sift d (Suc k) (fold (sift d) [1..<Suc k] s)"
    by (subst upt_Suc_append) simp_all
  also have "\<dots> = ins_level d ?x (ins_sort d (take (Suc k) s)) @ drop (Suc (Suc k)) s"
    using sift_append [of d "ins_sort d (take (Suc k) s)" ?x] Suc.prems IH by (simp add: min_def)
  also have "ins_level d ?x (ins_sort d (take (Suc k) s)) = ins_sort d (take (Suc (Suc k)) s)"
    using Suc.prems by (metis ins_sort_snoc take_Suc_conv_app_nth)
  finally show ?case .
qed

lemma sortLevels_ins_sort: "sortLevels d s = ins_sort d s"
proof (cases s)
  case Nil
  then show ?thesis by (simp add: sortLevels_def ins_sort_def)
next
  case (Cons x xs)
  then show ?thesis using fold_sift [of "length xs" s d] by (simp add: sortLevels_def)
qed

lemma mset_sortLevels [simp]: "mset (sortLevels d s) = mset s"
  by (simp add: sortLevels_ins_sort)

lemma set_sortLevels [simp]: "set (sortLevels d s) = set s"
  using mset_sortLevels by (rule mset_eq_setD)

lemma sorted_sortLevels: "wf_map s \<Longrightarrow> sorted_side d (sortLevels d s)"
  unfolding sortLevels_ins_sort
proof (induction s rule: rev_induct)
  case Nil
  then show ?case by (simp add: ins_sort_def sorted_side_def)
next
  case (snoc x xs)
  have "set (ins_sort d xs) = set xs" by (rule mset_eq_setD) simp
  then have "fst x \<notin> fst ` set (ins_sort d xs)" "wf_map xs"
    using snoc.prems by (auto simp: wf_map_def)
  then show ?case using snoc.IH ins_level_sorted by simp
qed

lemma sorted_side_unique:
  "sorted_side d xs \<Longrightarrow> sorted_side d ys \<Longrightarrow> set xs = set ys \<Longrightarrow> xs = ys"
proof (induction xs arbitrary: ys)
  case (Cons x xs)
  then obtain y ys' where ys: "ys = y # ys'" by (cases ys) auto
  have "x = y"
  proof (rule ccontr)
    assume "x \<noteq> y"
    then have "level_less d (fst y) (fst x)" "level_less d (fst x) (fst y)"
      using Cons.prems ys by (auto simp: sorted_side_def)
    then show False using level_less_asym by blast
  qed
  moreover have "x \<notin> set xs" "y \<notin> set ys'"
    using Cons.prems ys by (auto simp: sorted_side_def)
  ultimately have "set xs = set ys'" using Cons.prems(3) ys by auto
  with Cons ys \<open>x = y\<close> show ?case by (simp add: sorted_side_def)
qed simp

lemma sortLevels_order:
  assumes "wf_map m" "range_order ord"
  shows "sortLevels d (ord m) = sortLevels d m"
proof (rule sorted_side_unique)
  have p: "mset (ord m) = mset m" using assms(2) by (rule range_orderD)
  then have "wf_map (ord m)" using assms(1) map_of_perm(1) by blast
  then show "sorted_side d (sortLevels d (ord m))" by (rule sorted_sortLevels)
  show "sorted_side d (sortLevels d m)" using assms(1) by (rule sorted_sortLevels)
  show "set (sortLevels d (ord m)) = set (sortLevels d m)" using mset_eq_setD [OF p] by simp
qed

lemma collectLevels_take:
  assumes "wf_map m" "range_order ord" "0 \<le> n"
  shows "collectLevels ord m d n = Some (take (nat n) (sortLevels d m))"
  using assms by (auto simp: collectLevels_def Let_def sortLevels_order)

section \<open>Streams of diffs\<close>

lemma ApplyDiff_cases [consumes 4, case_names stale gap applied]:
  assumes "0 < br_lastSeq r" "in_int64 (br_lastSeq r)" "in_int64 seq" "ApplyDiff t seq b a r = (r', ok, gap)"
  obtains (stale) "seq \<le> br_lastSeq r" "r' = r" "\<not> ok" "\<not> gap"
  | (gap) "br_lastSeq r + 1 < seq" "r' = r" "\<not> ok" "gap"
  | (applied) "seq = br_lastSeq r + 1" "ok" "\<not> gap" "br_lastSeq r' = seq"
      "abs_book r' = spec_msg (t, seq, b, a) (abs_book r)"
proof (cases "seq \<le> br_lastSeq r")
  case True
  with assms show thesis by (intro stale) (auto simp: ApplyDiff_def)
next
  case False
  then have "add64 (br_lastSeq r) 1 = br_lastSeq r + 1"
    using assms by (simp add: in_int64_def)
  note facts = this False assms
  show thesis
  proof (cases "br_lastSeq r + 1 < seq")
    case True
    with facts show thesis by (intro gap) (auto simp: ApplyDiff_def)
  next
    case False
    with facts show thesis by (intro applied) (auto simp: ApplyDiff_def abs_book_def)
  qed
qed

lemma feed_invariant:
  assumes "0 < br_lastSeq r" "in_int64 (br_lastSeq r)" "\<forall>m \<in> set ms. in_int64 (msg_seq m)"
    and "feed ms r = (r', applied, gap)"
  shows "map msg_seq applied = map (\<lambda>i. br_lastSeq r + 1 + int i) [0..<length applied] \<and>
    br_lastSeq r' = br_lastSeq r + int (length applied) \<and>
    abs_book r' = fold spec_msg applied (abs_book r) \<and>
    (\<not> gap \<longrightarrow> (\<forall>m \<in> set ms. msg_seq m \<le> br_lastSeq r'))"
  using assms
proof (induction ms arbitrary: r applied gap)
  case (Cons m ms)
  obtain t seq b a where m: "m = (t, seq, b, a)" by (cases m)
  obtain r1 ok g1 where 1: "ApplyDiff t seq b a r = (r1, ok, g1)" by (cases "ApplyDiff t seq b a r")
  obtain ap2 g2 where 2: "feed ms r1 = (r', ap2, g2)"
    and out: "applied = (if ok then m # ap2 else ap2)" "gap = (g1 \<or> g2)"
    using Cons.prems(4) m 1 by (auto split: prod.splits)
  have s: "in_int64 seq" and ms: "\<forall>m \<in> set ms. in_int64 (msg_seq m)"
    using Cons.prems(3) m by auto
  from Cons.prems(1,2) s 1 show ?case
  proof (cases rule: ApplyDiff_cases)
    case stale
    then show ?thesis using Cons.IH [OF Cons.prems(1,2) ms, of ap2 g2] 2 out m by auto
  next
    case gap
    then show ?thesis using Cons.IH [OF Cons.prems(1,2) ms, of ap2 g2] 2 out m by auto
  next
    case applied
    have pos: "0 < br_lastSeq r1" "in_int64 (br_lastSeq r1)" using applied Cons.prems(1) s by auto
    note IH = Cons.IH [OF pos ms 2]
    have "[0..<Suc (length ap2)] = 0 # map Suc [0..<length ap2]"
      by (simp add: map_Suc_upt upt_conv_Cons del: upt_Suc)
    with IH out m applied show ?thesis by (auto simp: comp_def simp del: upt_Suc)
  qed
qed simp

section \<open>Properties\<close>

text \<open>
  C5: integrity of the reconstructed book under any delivery. Feed a synchronised
  reconstructor any list of diffs, lost, repeated or out of order: the diffs it applies are
  exactly a consecutive run of sequence numbers after the one it was at, the book is what
  the specification gives for those diffs, and if no gap was reported the book is at least as
  new as every diff received, so a lost diff never goes unnoticed.
\<close>

theorem book_stream_integrity:
  assumes "0 < br_lastSeq r" "in_int64 (br_lastSeq r)" "\<forall>m \<in> set ms. in_int64 (msg_seq m)"
    and "feed ms r = (r', applied, gap)"
  shows "map msg_seq applied = map (\<lambda>i. br_lastSeq r + 1 + int i) [0..<length applied] \<and>
    abs_book r' = fold spec_msg applied (abs_book r) \<and>
    (\<not> gap \<longrightarrow> (\<forall>m \<in> set ms. msg_seq m \<le> br_lastSeq r'))"
  using feed_invariant [OF assms] by blast

theorem book_stream_integrity_witness:
  "map msg_seq (fst (snd (feed
      [(1, 6, [(''50000'', ''1'')], []), (2, 8, [(''49999'', ''2'')], []), (3, 7, [(''50000'', ''0'')], [])]
      ((NewBookReconstructor ''binance'' ''BTCUSDT'')\<lparr>br_lastSeq := 5\<rparr>)))) = [6, 7]"
proof -
  let ?r = "(NewBookReconstructor ''binance'' ''BTCUSDT'')\<lparr>br_lastSeq := 5\<rparr>"
  let ?ms = "[(1, 6, [(''50000'', ''1'')], []), (2, 8, [(''49999'', ''2'')], []), (3, 7, [(''50000'', ''0'')], [])]
    :: diff_msg list"
  obtain r' ap g where f: "feed ?ms ?r = (r', ap, g)" by (cases "feed ?ms ?r")
  have "length ap = 2" using f by (auto simp: ApplyDiff_def NewBookReconstructor_def add64_def wrap64_def)
  moreover have "map msg_seq ap = map (\<lambda>i. br_lastSeq ?r + 1 + int i) [0..<length ap]"
    using book_stream_integrity [OF _ _ _ f] by (simp add: NewBookReconstructor_def in_int64_def)
  ultimately show ?thesis using f by (simp add: NewBookReconstructor_def upt_rec)
qed

text \<open>
  C31: \<open>TopN\<close> is deterministic and returns the top of the book. For a well-formed book and a
  non-negative \<open>n\<close>, whatever order \<open>range\<close> visits the maps in, each side is the first \<open>n\<close>
  entries of the one listing of that side that is strictly sorted by the byte order of the
  price strings (bids descending, asks ascending), so no entry left out precedes one returned.
\<close>

theorem topN_sorted_prefix:
  assumes "wf_book r" "range_order ord" "0 \<le> n"
  shows "\<exists>bs as. TopN ord n r = Some (take (nat n) bs, take (nat n) as) \<and>
    sorted_side True bs \<and> mset bs = mset (br_bids r) \<and> sorted_side False as \<and> mset as = mset (br_asks r)"
  using assms
  by (intro exI [of _ "sortLevels True (br_bids r)"] exI [of _ "sortLevels False (br_asks r)"])
    (auto simp: TopN_def collectLevels_take wf_book_def sorted_sortLevels)

theorem topN_sorted_prefix_witness:
  "\<exists>bs as. TopN rev 1 (ApplySnapshot 7 [(''50000'', ''1''), (''49999'', ''2'')] [(''50001'', ''3'')]
       (NewBookReconstructor ''binance'' ''BTCUSDT'')) = Some (take (nat 1) bs, take (nat 1) as) \<and>
     sorted_side True bs \<and> length bs = 2 \<and> sorted_side False as \<and> length as = 1"
proof -
  let ?r = "ApplySnapshot 7 [(''50000'', ''1''), (''49999'', ''2'')] [(''50001'', ''3'')]
       (NewBookReconstructor ''binance'' ''BTCUSDT'')"
  have "length (br_bids ?r) = 2" "length (br_asks ?r) = 1" by (simp_all add: ApplySnapshot_def)
  moreover have "wf_book ?r" "range_order rev" "(0::int) \<le> 1" by (simp_all add: range_order_def)
  ultimately show ?thesis using topN_sorted_prefix [of ?r rev 1] by (metis size_mset)
qed

text \<open>
  A snapshot does not carry a sequence number, so the diff that follows one is never
  checked: after a gap has been marked and the snapshot reloaded, a diff with any sequence
  number, also one older than the snapshot, is applied and becomes the new position.
\<close>

theorem resync_accepts_any_diff:
  "\<exists>r'. ApplyDiff t2 seq b a (ApplySnapshot t1 sb sa (fst (MarkGap r))) = (r', True, False) \<and>
    br_lastSeq r' = seq \<and>
    abs_book r' = spec_msg (t2, seq, b, a) (map_of (rev sb), map_of (rev sa))"
  by (simp add: ApplyDiff_def ApplySnapshot_def MarkGap_def abs_book_def)

text \<open>
  Only the texts \<open>0\<close> and the empty text delete a level. A diff that sets a price to any
  other text, for example \<open>0.00000000\<close>, leaves the level in the book with that size.
\<close>

theorem diff_keeps_other_zero_texts:
  assumes "ApplyDiff t seq [(p, s)] [] r = (r', True, False)" "s \<noteq> ''0''" "s \<noteq> ''''"
  shows "fst (abs_book r') p = Some s"
  using assms by (auto simp: ApplyDiff_def abs_book_def spec_side_def split: if_splits)

theorem diff_keeps_other_zero_texts_witness:
  "fst (abs_book (fst (ApplyDiff 1 6 [(''50000'', ''0.00000000'')] []
     ((NewBookReconstructor ''binance'' ''BTCUSDT'')\<lparr>br_lastSeq := 5\<rparr>)))) ''50000'' = Some ''0.00000000''"
proof -
  let ?r = "(NewBookReconstructor ''binance'' ''BTCUSDT'')\<lparr>br_lastSeq := 5\<rparr>"
  obtain r' where 1: "ApplyDiff 1 6 [(''50000'', ''0.00000000'')] [] ?r = (r', True, False)"
    by (simp add: ApplyDiff_def NewBookReconstructor_def add64_def wrap64_def)
  from diff_keeps_other_zero_texts [OF this] show ?thesis using 1 by simp
qed

text \<open>
  The byte order is not the numeric order. In a book whose bids are \<open>9.5\<close> and \<open>10.0\<close> the
  entry \<open>TopN\<close> returns as best bid is \<open>9.5\<close>, and in one whose asks are the same it is \<open>10.0\<close>.
\<close>

theorem topN_not_numeric:
  "TopN (\<lambda>m. m) 1 (ApplySnapshot t [(''9.5'', ''1''), (''10.0'', ''1'')] [(''9.5'', ''1''), (''10.0'', ''1'')] r) =
     Some ([(''9.5'', ''1'')], [(''10.0'', ''1'')])"
  by (simp add: TopN_def collectLevels_def ApplySnapshot_def sortLevels_def level_less_def Let_def
      less_char_def)

end
