(* ===== verification/Ws_Client.thy ===== *)
theory Ws_Client
  imports Go_Prelude
begin

text \<open>
  The reconnecting WebSocket client of \<open>internal/ws/ws.go\<close> (\<open>Client\<close>; the book
  reconstruction of the same file is the theory \<open>Book_Recon\<close>).

  \<open>Run\<close> is a goroutine that other goroutines interfere with through the client's fields, so it
  is a machine with a program counter: each transition is one segment of \<open>Run\<close> or \<open>readLoop\<close>
  between two points where the environment acts (the dial, the blocking read, the \<open>select\<close>, the
  mutex), and \<open>Close\<close>, \<open>SetHandler\<close>, \<open>Connect\<close> and \<open>WriteJSON\<close> are transitions of the other
  goroutines. What the network, the context and \<open>math/rand\<close> do is the input of a transition.
  Connections are numbered in the order they are opened.
\<close>

section \<open>Definitions\<close>

record ws_client =
  wc_url :: string
  wc_venue :: string
  wc_handler :: "nat option"
  wc_conn :: "nat option"
  wc_closed :: bool
  wc_maxBackoff :: duration

definition defaultMaxBackoff :: duration where
  "defaultMaxBackoff = 30 * second"

definition NewClient :: "string \<Rightarrow> string \<Rightarrow> ws_client" where
  "NewClient url venue =
     \<lparr>wc_url = url, wc_venue = venue, wc_handler = None, wc_conn = None, wc_closed = False,
      wc_maxBackoff = defaultMaxBackoff\<rparr>"

definition SetHandler :: "nat option \<Rightarrow> ws_client \<Rightarrow> ws_client" where
  "SetHandler h c = c\<lparr>wc_handler := h\<rparr>"

text \<open>\<open>connect\<close>: the argument is what \<open>DialContext\<close> returned.\<close>

definition connect :: "go_error + nat \<Rightarrow> ws_client \<Rightarrow> go_error option \<times> ws_client" where
  "connect dial c = (case dial of Inl err \<Rightarrow> (Some err, c) | Inr conn \<Rightarrow> (None, c\<lparr>wc_conn := Some conn\<rparr>))"

text \<open>\<open>Close\<close>: the flag, and the connection that is closed.\<close>

definition Client_Close :: "ws_client \<Rightarrow> ws_client \<times> nat option" where
  "Client_Close c = (c\<lparr>wc_closed := True\<rparr>, wc_conn c)"

text \<open>\<open>WriteJSON\<close>: the connection written to, or the error.\<close>

definition Client_WriteJSON :: "ws_client \<Rightarrow> go_error + nat" where
  "Client_WriteJSON c = (case wc_conn c of None \<Rightarrow> Inl (ErrMsg ''ws: not connected'') | Some conn \<Rightarrow> Inr conn)"

text \<open>
  \<open>nextBackoff\<close>: \<open>rnd n\<close> is \<open>rand.Int63n(n)\<close>, which panics (\<open>None\<close>) unless \<open>n\<close> is positive.
\<close>

definition nextBackoff :: "(int64 \<Rightarrow> int64) \<Rightarrow> duration \<Rightarrow> duration \<Rightarrow> duration option" where
  "nextBackoff rnd prev mx =
     (if add64 prev 1 \<le> 0 then None
      else (let nxt = wrap64 (float64_of_int prev * 2);
                jitter = rnd (add64 prev 1);
                nxt' = add64 nxt jitter
            in Some (if nxt' > mx then mx else nxt')))"

subsection \<open>The machine\<close>

datatype run_pc =
    Top
  | Dialing
  | ReadTop
  | Reading nat "nat option"
  | AfterRead
  | Waiting
  | Returned "go_error option"
  | Panicked

record run_state =
  rs_pc :: run_pc
  rs_backoff :: duration
  rs_client :: ws_client
  rs_next :: nat                                  \<comment> \<open>the number of the next connection\<close>
  rs_shut :: "nat list"                           \<comment> \<open>connections closed\<close>
  rs_delivered :: "(nat \<times> nat \<times> string) list"     \<comment> \<open>handler, connection, message\<close>
  rs_sent :: "(nat \<times> string) list"                \<comment> \<open>what was written on which connection\<close>
  rs_waits :: "duration list"
  rs_reconnects :: nat                            \<comment> \<open>\<open>ws_reconnect_count\<close>\<close>

text \<open>
  The inputs of \<open>Run\<close>: \<open>CtxErr\<close> carries \<open>ctx.Err()\<close>. \<open>DialFail\<close> and \<open>ReadFail\<close> say what the
  context was just afterwards and which random numbers \<open>nextBackoff\<close> gets.
\<close>

datatype run_input =
    Proceed
  | DialFail go_error "go_error option" "int64 \<Rightarrow> int64"
  | DialOk
  | Message string
  | ReadFail
  | Check "go_error option" "int64 \<Rightarrow> int64"
  | Elapsed
  | CtxDone go_error

datatype other_input =
    OClose
  | OSetHandler "nat option"
  | OConnect
  | OWriteJSON string

definition pause :: "(int64 \<Rightarrow> int64) \<Rightarrow> run_state \<Rightarrow> run_state" where
  "pause rnd s =
     (case nextBackoff rnd (rs_backoff s) (wc_maxBackoff (rs_client s)) of
        None \<Rightarrow> s\<lparr>rs_pc := Panicked\<rparr>
      | Some b \<Rightarrow> s\<lparr>rs_backoff := b, rs_waits := rs_waits s @ [b], rs_pc := Waiting\<rparr>)"

text \<open>\<open>conn.Close()\<close> and \<open>c.conn = nil\<close> after \<open>readLoop\<close>.\<close>

definition drop_conn :: "run_state \<Rightarrow> run_state" where
  "drop_conn s =
     (case wc_conn (rs_client s) of
        None \<Rightarrow> s
      | Some conn \<Rightarrow> s\<lparr>rs_shut := rs_shut s @ [conn], rs_client := (rs_client s)\<lparr>wc_conn := None\<rparr>\<rparr>)"

fun run_step :: "run_input \<Rightarrow> run_state \<Rightarrow> run_state option" where
  "run_step i s =
     (case (rs_pc s, i) of
        (Top, Proceed) \<Rightarrow>
          Some (if wc_closed (rs_client s) then s\<lparr>rs_pc := Returned None\<rparr> else s\<lparr>rs_pc := Dialing\<rparr>)
      | (Dialing, DialFail err ctx rnd) \<Rightarrow>
          (case connect (Inl err) (rs_client s) of
             (_, c) \<Rightarrow>
               (case ctx of
                  Some e \<Rightarrow> Some (s\<lparr>rs_client := c, rs_pc := Returned (Some e)\<rparr>)
                | None \<Rightarrow> Some (pause rnd (s\<lparr>rs_client := c\<rparr>))))
      | (Dialing, DialOk) \<Rightarrow>
          (case connect (Inr (rs_next s)) (rs_client s) of
             (_, c) \<Rightarrow>
               Some (s\<lparr>rs_client := c, rs_next := rs_next s + 1, rs_reconnects := rs_reconnects s + 1,
                       rs_backoff := 100 * millisecond, rs_pc := ReadTop\<rparr>))
      | (ReadTop, Proceed) \<Rightarrow>
          (case wc_conn (rs_client s) of
             None \<Rightarrow> Some (s\<lparr>rs_pc := AfterRead\<rparr>)
           | Some conn \<Rightarrow>
               if wc_closed (rs_client s) then Some (s\<lparr>rs_pc := AfterRead\<rparr>)
               else Some (s\<lparr>rs_pc := Reading conn (wc_handler (rs_client s))\<rparr>))
      | (Reading conn h, Message msg) \<Rightarrow>
          (case h of
             None \<Rightarrow> Some (s\<lparr>rs_pc := ReadTop\<rparr>)
           | Some f \<Rightarrow> Some (s\<lparr>rs_delivered := rs_delivered s @ [(f, conn, msg)], rs_pc := ReadTop\<rparr>))
      | (Reading conn h, ReadFail) \<Rightarrow> Some (s\<lparr>rs_pc := AfterRead\<rparr>)
      | (AfterRead, Check ctx rnd) \<Rightarrow>
          (case ctx of
             Some e \<Rightarrow> Some (s\<lparr>rs_pc := Returned (Some e)\<rparr>)
           | None \<Rightarrow> Some (pause rnd (drop_conn s)))
      | (Waiting, Elapsed) \<Rightarrow> Some (s\<lparr>rs_pc := Top\<rparr>)
      | (Waiting, CtxDone e) \<Rightarrow> Some (s\<lparr>rs_pc := Returned (Some e)\<rparr>)
      | _ \<Rightarrow> None)"

declare run_step.simps [simp del]

fun other_step :: "other_input \<Rightarrow> run_state \<Rightarrow> run_state" where
  "other_step OClose s =
     (case Client_Close (rs_client s) of
        (c, conn) \<Rightarrow> s\<lparr>rs_client := c, rs_shut := rs_shut s @ (case conn of None \<Rightarrow> [] | Some k \<Rightarrow> [k])\<rparr>)"
| "other_step (OSetHandler h) s = s\<lparr>rs_client := SetHandler h (rs_client s)\<rparr>"
| "other_step OConnect s =
     s\<lparr>rs_client := snd (connect (Inr (rs_next s)) (rs_client s)), rs_next := rs_next s + 1\<rparr>"
| "other_step (OWriteJSON v) s =
     (case Client_WriteJSON (rs_client s) of
        Inl _ \<Rightarrow> s
      | Inr conn \<Rightarrow> s\<lparr>rs_sent := rs_sent s @ [(conn, v)]\<rparr>)"

text \<open>\<open>Run\<close> is entered with a client as the caller left it; \<open>n\<close> connections were opened before.\<close>

definition run_start :: "nat \<Rightarrow> (nat \<times> string) list \<Rightarrow> ws_client \<Rightarrow> run_state" where
  "run_start n sent c =
     \<lparr>rs_pc = Top, rs_backoff = 100 * millisecond, rs_client = c, rs_next = n, rs_shut = [],
      rs_delivered = [], rs_sent = sent, rs_waits = [], rs_reconnects = 0\<rparr>"

text \<open>The documented range of \<open>rand.Int63n\<close>.\<close>

definition int63n_ok :: "(int64 \<Rightarrow> int64) \<Rightarrow> bool" where
  "int63n_ok rnd \<longleftrightarrow> (\<forall>n > 0. 0 \<le> rnd n \<and> rnd n < n)"

fun input_ok :: "run_input \<Rightarrow> bool" where
  "input_ok (DialFail err ctx rnd) = int63n_ok rnd"
| "input_ok (Check ctx rnd) = int63n_ok rnd"
| "input_ok _ = True"

text \<open>The interleavings; the number counts the transitions of \<open>Run\<close> itself.\<close>

inductive ws_steps :: "nat \<Rightarrow> run_state \<Rightarrow> run_state \<Rightarrow> bool" where
  here: "ws_steps 0 s s"
| own: "ws_steps k s t \<Longrightarrow> run_step i t = Some u \<Longrightarrow> input_ok i \<Longrightarrow> ws_steps (Suc k) s u"
| other: "ws_steps k s t \<Longrightarrow> ws_steps k s (other_step j t)"

text \<open>The interleavings in which no other goroutine calls \<open>Connect\<close> while \<open>Run\<close> runs.\<close>

inductive lone_steps :: "run_state \<Rightarrow> run_state \<Rightarrow> bool" where
  lone_here: "lone_steps s s"
| lone_own: "lone_steps s t \<Longrightarrow> run_step i t = Some u \<Longrightarrow> input_ok i \<Longrightarrow> lone_steps s u"
| lone_other: "lone_steps s t \<Longrightarrow> j \<noteq> OConnect \<Longrightarrow> lone_steps s (other_step j t)"

text \<open>
  What happens to \<open>Run\<close> without any help from the exchange or the context: a dial ends with its
  handshake timeout of ten seconds, a timer elapses, and a read returns an error once the
  connection was closed on this side. A read from a connection that is open may block for ever.
\<close>

definition due :: "(int64 \<Rightarrow> int64) \<Rightarrow> run_state \<Rightarrow> run_input option" where
  "due rnd s =
     (case rs_pc s of
        Top \<Rightarrow> Some Proceed
      | Dialing \<Rightarrow> Some (DialFail (ErrMsg ''handshake timeout'') None rnd)
      | ReadTop \<Rightarrow> Some Proceed
      | Reading conn h \<Rightarrow> if conn \<in> set (rs_shut s) then Some ReadFail else None
      | AfterRead \<Rightarrow> Some (Check None rnd)
      | Waiting \<Rightarrow> Some Elapsed
      | Returned e \<Rightarrow> None
      | Panicked \<Rightarrow> None)"

section \<open>The transitions\<close>

lemma run_step_cases:
  assumes "run_step i s = Some t"
  obtains
    (closed) "rs_pc s = Top" "wc_closed (rs_client s)" "t = s\<lparr>rs_pc := Returned None\<rparr>"
  | (dial) "rs_pc s = Top" "\<not> wc_closed (rs_client s)" "t = s\<lparr>rs_pc := Dialing\<rparr>"
  | (fail_ctx) e where "rs_pc s = Dialing" "t = s\<lparr>rs_pc := Returned (Some e)\<rparr>"
  | (fail) err rnd where "i = DialFail err None rnd" "rs_pc s = Dialing" "t = pause rnd s"
  | (ok) "rs_pc s = Dialing"
      "t = s\<lparr>rs_client := (rs_client s)\<lparr>wc_conn := Some (rs_next s)\<rparr>, rs_next := rs_next s + 1,
             rs_reconnects := rs_reconnects s + 1, rs_backoff := 100 * millisecond, rs_pc := ReadTop\<rparr>"
  | (stop) "rs_pc s = ReadTop" "t = s\<lparr>rs_pc := AfterRead\<rparr>"
  | (block) conn where "rs_pc s = ReadTop" "wc_conn (rs_client s) = Some conn" "\<not> wc_closed (rs_client s)"
      "t = s\<lparr>rs_pc := Reading conn (wc_handler (rs_client s))\<rparr>"
  | (deliver) conn f msg where "rs_pc s = Reading conn (Some f)"
      "t = s\<lparr>rs_delivered := rs_delivered s @ [(f, conn, msg)], rs_pc := ReadTop\<rparr>"
  | (ignore) conn where "rs_pc s = Reading conn None" "t = s\<lparr>rs_pc := ReadTop\<rparr>"
  | (read_fail) conn h where "rs_pc s = Reading conn h" "t = s\<lparr>rs_pc := AfterRead\<rparr>"
  | (after_ctx) e where "rs_pc s = AfterRead" "t = s\<lparr>rs_pc := Returned (Some e)\<rparr>"
  | (after) rnd where "i = Check None rnd" "rs_pc s = AfterRead" "t = pause rnd (drop_conn s)"
  | (elapsed) "rs_pc s = Waiting" "t = s\<lparr>rs_pc := Top\<rparr>"
  | (wait_ctx) e where "rs_pc s = Waiting" "t = s\<lparr>rs_pc := Returned (Some e)\<rparr>"
  using assms
  by (cases "rs_pc s"; cases i)
    (auto simp: run_step.simps connect_def split: if_splits option.splits)

lemma drop_conn_simps [simp]:
  "rs_pc (drop_conn s) = rs_pc s" "rs_backoff (drop_conn s) = rs_backoff s"
  "rs_waits (drop_conn s) = rs_waits s" "rs_next (drop_conn s) = rs_next s"
  "rs_delivered (drop_conn s) = rs_delivered s" "rs_sent (drop_conn s) = rs_sent s"
  "wc_conn (rs_client (drop_conn s)) = None"
  "wc_maxBackoff (rs_client (drop_conn s)) = wc_maxBackoff (rs_client s)"
  "wc_closed (rs_client (drop_conn s)) = wc_closed (rs_client s)"
  by (simp_all add: drop_conn_def split: option.split)

lemma pause_simps [simp]:
  "rs_client (pause rnd s) = rs_client s" "rs_next (pause rnd s) = rs_next s"
  "rs_delivered (pause rnd s) = rs_delivered s" "rs_sent (pause rnd s) = rs_sent s"
  by (simp_all add: pause_def split: option.split)

lemma pause_pc: "rs_pc (pause rnd s) = Waiting \<or> rs_pc (pause rnd s) = Panicked"
  by (simp add: pause_def split: option.split)

lemma other_step_simps [simp]:
  "rs_pc (other_step j s) = rs_pc s" "rs_backoff (other_step j s) = rs_backoff s"
  "rs_waits (other_step j s) = rs_waits s" "rs_delivered (other_step j s) = rs_delivered s"
  "wc_maxBackoff (rs_client (other_step j s)) = wc_maxBackoff (rs_client s)"
  by (cases j; simp add: Client_Close_def SetHandler_def connect_def Client_WriteJSON_def
      split: option.split)+

lemma other_step_conn:
  "wc_conn (rs_client (other_step j s)) = wc_conn (rs_client s) \<or>
   wc_conn (rs_client (other_step j s)) = Some (rs_next s)"
  "rs_next s \<le> rs_next (other_step j s)"
  "wc_closed (rs_client s) \<Longrightarrow> wc_closed (rs_client (other_step j s))"
  by (cases j; simp add: Client_Close_def SetHandler_def connect_def Client_WriteJSON_def
      split: option.split)+

subsection \<open>Backoff\<close>

abbreviation minBackoff :: duration where
  "minBackoff \<equiv> 100 * millisecond"

lemma nextBackoff_bounds:
  assumes "int63n_ok rnd" "0 \<le> prev" "prev \<le> defaultMaxBackoff"
  obtains b where "nextBackoff rnd prev defaultMaxBackoff = Some b"
    "min (2 * prev) defaultMaxBackoff \<le> b" "b \<le> min (3 * prev) defaultMaxBackoff"
proof -
  have p: "prev \<le> 30000000000" using assms(3) by (simp add: defaultMaxBackoff_def)
  have one: "add64 prev 1 = prev + 1" using assms(2) p by (simp add: in_int64_def)
  have fl: "float64_of_int prev = prev" using assms(2) p by (intro float64_of_int_exact) simp
  have two: "wrap64 (prev * 2) = prev * 2" using assms(2) p by (simp add: in_int64_def)
  have j: "0 \<le> rnd (prev + 1)" "rnd (prev + 1) \<le> prev"
    using assms(1,2) unfolding int63n_ok_def by (smt (verit))+
  have sum: "add64 (prev * 2) (rnd (prev + 1)) = prev * 2 + rnd (prev + 1)"
    using j p by (simp add: in_int64_def)
  show ?thesis
    using j assms(2,3) by (intro that) (auto simp: nextBackoff_def one fl two sum Let_def)
qed

definition backoff_inv :: "run_state \<Rightarrow> bool" where
  "backoff_inv s \<longleftrightarrow> wc_maxBackoff (rs_client s) = defaultMaxBackoff \<and>
     minBackoff \<le> rs_backoff s \<and> rs_backoff s \<le> defaultMaxBackoff \<and> rs_pc s \<noteq> Panicked \<and>
     (\<forall>b \<in> set (rs_waits s). 2 * minBackoff \<le> b \<and> b \<le> defaultMaxBackoff)"

lemma backoff_inv_pause:
  assumes "backoff_inv s" "int63n_ok rnd"
  shows "backoff_inv (pause rnd s)"
proof -
  have "0 \<le> rs_backoff s" "rs_backoff s \<le> defaultMaxBackoff" using assms(1) by (auto simp: backoff_inv_def)
  from nextBackoff_bounds [OF assms(2) this] obtain b where
    "nextBackoff rnd (rs_backoff s) defaultMaxBackoff = Some b"
    "min (2 * rs_backoff s) defaultMaxBackoff \<le> b" "b \<le> min (3 * rs_backoff s) defaultMaxBackoff" .
  then show ?thesis using assms(1)
    by (auto simp: backoff_inv_def pause_def defaultMaxBackoff_def)
qed

lemma backoff_inv_drop: "backoff_inv s \<Longrightarrow> backoff_inv (drop_conn s)"
  by (simp add: backoff_inv_def)

lemma backoff_inv_step:
  assumes "run_step i s = Some t" "input_ok i" "backoff_inv s"
  shows "backoff_inv t"
  using assms(1)
proof (cases rule: run_step_cases)
  case (fail err rnd)
  then show ?thesis using assms backoff_inv_pause by simp
next
  case (after rnd)
  then show ?thesis using assms backoff_inv_pause backoff_inv_drop by simp
qed (use assms(3) in \<open>simp_all add: backoff_inv_def defaultMaxBackoff_def\<close>)

lemma backoff_inv_other: "backoff_inv s \<Longrightarrow> backoff_inv (other_step j s)"
  unfolding backoff_inv_def other_step_simps .

lemma backoff_inv_steps: "ws_steps k s t \<Longrightarrow> backoff_inv s \<Longrightarrow> backoff_inv t"
  by (induction rule: ws_steps.induct) (blast intro: backoff_inv_step backoff_inv_other)+

subsection \<open>Shutdown\<close>

fun pc_rank :: "run_pc \<Rightarrow> nat" where
  "pc_rank Top = 1"
| "pc_rank Dialing = 5"
| "pc_rank ReadTop = 4"
| "pc_rank (Reading _ _) = 5"
| "pc_rank AfterRead = 3"
| "pc_rank Waiting = 2"
| "pc_rank (Returned _) = 0"
| "pc_rank Panicked = 0"

lemma closed_step:
  assumes "run_step i s = Some t" "wc_closed (rs_client s)"
  shows "wc_closed (rs_client t) \<and> pc_rank (rs_pc t) < pc_rank (rs_pc s) \<and>
    length (rs_delivered t) + (if pc_rank (rs_pc t) = 5 then 1 else 0) \<le>
      length (rs_delivered s) + (if pc_rank (rs_pc s) = 5 then 1 else 0)"
  using assms(1)
proof (cases rule: run_step_cases)
  case (fail err rnd)
  then show ?thesis using assms(2) pause_pc [of rnd s] by auto
next
  case (after rnd)
  then show ?thesis using assms(2) pause_pc [of rnd "drop_conn s"] by auto
qed (use assms(2) in simp_all)

lemma closed_steps:
  assumes "ws_steps k s t" "wc_closed (rs_client s)"
  shows "wc_closed (rs_client t) \<and> k + pc_rank (rs_pc t) \<le> pc_rank (rs_pc s) \<and>
    length (rs_delivered t) + (if pc_rank (rs_pc t) = 5 then 1 else 0) \<le>
      length (rs_delivered s) + (if pc_rank (rs_pc s) = 5 then 1 else 0)"
  using assms
proof (induction rule: ws_steps.induct)
  case (own k s t i u)
  from closed_step [OF own.hyps(2)] own.IH [OF own.prems] show ?case by linarith
next
  case (other k s t j)
  from other.IH [OF other.prems] other_step_conn(3) [of t j] show ?case by (simp only: other_step_simps)
qed simp

lemma pc_rank_le [simp]: "pc_rank pc \<le> 5"
  by (cases pc) simp_all

text \<open>The connection being read is the one \<open>Close\<close> would close.\<close>

definition reads_own :: "run_state \<Rightarrow> bool" where
  "reads_own s \<longleftrightarrow> (\<forall>conn h. rs_pc s = Reading conn h \<longrightarrow> wc_conn (rs_client s) = Some conn)"

lemma reads_own_step:
  assumes "run_step i s = Some t" "reads_own s"
  shows "reads_own t"
  using assms(1)
proof (cases rule: run_step_cases)
  case (fail err rnd)
  then show ?thesis using pause_pc [of rnd s] by (auto simp: reads_own_def)
next
  case (after rnd)
  then show ?thesis using pause_pc [of rnd "drop_conn s"] by (auto simp: reads_own_def)
qed (use assms(2) in \<open>auto simp: reads_own_def\<close>)

lemma reads_own_other: "reads_own s \<Longrightarrow> j \<noteq> OConnect \<Longrightarrow> reads_own (other_step j s)"
  by (cases j) (auto simp: reads_own_def Client_Close_def SetHandler_def Client_WriteJSON_def split: option.splits)

lemma lone_steps_inv: "lone_steps s t \<Longrightarrow> reads_own s \<Longrightarrow> backoff_inv s \<Longrightarrow> reads_own t \<and> backoff_inv t"
  by (induction rule: lone_steps.induct)
    (blast intro: reads_own_step reads_own_other backoff_inv_step backoff_inv_other)+

text \<open>Once closed, a read that is under way is from a connection that was shut, and none begins.\<close>

definition reads_shut :: "run_state \<Rightarrow> bool" where
  "reads_shut s \<longleftrightarrow> wc_closed (rs_client s) \<and> (\<forall>conn h. rs_pc s = Reading conn h \<longrightarrow> conn \<in> set (rs_shut s))"

lemma reads_shut_Close: "reads_own s \<Longrightarrow> reads_shut (other_step OClose s)"
  by (auto simp: reads_own_def reads_shut_def Client_Close_def split: option.splits)

lemma reads_shut_step:
  assumes "run_step i s = Some t" "reads_shut s"
  shows "reads_shut t"
  using assms(1)
proof (cases rule: run_step_cases)
  case (fail err rnd)
  then show ?thesis using assms(2) pause_pc [of rnd s] by (auto simp: reads_shut_def)
next
  case (after rnd)
  then show ?thesis using assms(2) pause_pc [of rnd "drop_conn s"] by (auto simp: reads_shut_def)
qed (use assms(2) in \<open>auto simp: reads_shut_def\<close>)

lemma reads_shut_other: "reads_shut s \<Longrightarrow> reads_shut (other_step j s)"
  by (cases j) (auto simp: reads_shut_def Client_Close_def SetHandler_def connect_def Client_WriteJSON_def split: option.splits)

lemma reads_shut_steps: "ws_steps k s t \<Longrightarrow> reads_shut s \<Longrightarrow> reads_shut t"
  by (induction rule: ws_steps.induct) (blast intro: reads_shut_step reads_shut_other)+

lemma due_enabled:
  assumes "reads_shut s" "rs_pc s \<noteq> Panicked" "\<And>e. rs_pc s \<noteq> Returned e"
  shows "\<exists>i t. due rnd s = Some i \<and> run_step i s = Some t"
  using assms by (cases "rs_pc s") (auto simp: due_def run_step.simps connect_def reads_shut_def split: option.split)

subsection \<open>The first connection\<close>

text \<open>Until \<open>Run\<close> has a connection of its own it reads nothing, and it never reads an older one.\<close>

definition fresh_inv :: "nat \<Rightarrow> run_state \<Rightarrow> bool" where
  "fresh_inv n s \<longleftrightarrow> n \<le> rs_next s \<and>
     (\<forall>c. wc_conn (rs_client s) = Some c \<longrightarrow> c < n \<longrightarrow> rs_pc s \<in> {Top, Dialing, Waiting, Panicked} \<or>
        (\<exists>e. rs_pc s = Returned e)) \<and>
     (\<forall>c h. rs_pc s = Reading c h \<longrightarrow> n \<le> c) \<and> (\<forall>(f, c, m) \<in> set (rs_delivered s). n \<le> c)"

lemma fresh_inv_step:
  assumes "run_step i s = Some t" "fresh_inv n s"
  shows "fresh_inv n t"
  using assms(1)
proof (cases rule: run_step_cases)
  case (fail err rnd)
  then show ?thesis using assms(2) pause_pc [of rnd s] by (auto simp: fresh_inv_def)
next
  case (after rnd)
  then show ?thesis using assms(2) pause_pc [of rnd "drop_conn s"] by (auto simp: fresh_inv_def)
next
  case (block conn)
  then show ?thesis using assms(2) by (auto simp: fresh_inv_def not_less)
qed (use assms(2) in \<open>auto simp: fresh_inv_def\<close>)

lemma fresh_inv_other: "fresh_inv n s \<Longrightarrow> fresh_inv n (other_step j s)"
  using other_step_conn(1,2) [where s = s and j = j]
  unfolding fresh_inv_def other_step_simps by (auto simp del: other_step.simps)

lemma fresh_inv_steps: "ws_steps k s t \<Longrightarrow> fresh_inv n s \<Longrightarrow> fresh_inv n t"
  by (induction rule: ws_steps.induct) (blast intro: fresh_inv_step fresh_inv_other)+

section \<open>Properties\<close>

text \<open>
  C29: under every interleaving with the other goroutines and every behaviour of the network, of
  the context and of the random source, \<open>Run\<close> on a client with the default maximum never
  panics in \<open>nextBackoff\<close>, its backoff stays between 100 milliseconds and 30 seconds, every
  pause it makes is between 200 milliseconds and 30 seconds; and one more \<open>nextBackoff\<close> at
  least doubles the backoff and at most triples it, up to the maximum.
\<close>

theorem backoff_bounded:
  assumes "ws_steps k (run_start n sent c) s" "wc_maxBackoff c = defaultMaxBackoff" "int63n_ok rnd"
  shows "rs_pc s \<noteq> Panicked \<and> 100 * millisecond \<le> rs_backoff s \<and> rs_backoff s \<le> 30 * second \<and>
    (\<forall>b \<in> set (rs_waits s). 200 * millisecond \<le> b \<and> b \<le> 30 * second) \<and>
    (\<exists>b. nextBackoff rnd (rs_backoff s) defaultMaxBackoff = Some b \<and>
       min (2 * rs_backoff s) defaultMaxBackoff \<le> b \<and> b \<le> min (3 * rs_backoff s) defaultMaxBackoff)"
proof -
  have "backoff_inv (run_start n sent c)"
    using assms(2) by (simp add: backoff_inv_def run_start_def defaultMaxBackoff_def)
  with backoff_inv_steps [OF assms(1)] have inv: "backoff_inv s" .
  then have "0 \<le> rs_backoff s" "rs_backoff s \<le> defaultMaxBackoff" by (auto simp: backoff_inv_def)
  from nextBackoff_bounds [OF assms(3) this] obtain b where "nextBackoff rnd (rs_backoff s) defaultMaxBackoff = Some b"
    "min (2 * rs_backoff s) defaultMaxBackoff \<le> b" "b \<le> min (3 * rs_backoff s) defaultMaxBackoff" .
  then show ?thesis using inv by (auto simp: backoff_inv_def defaultMaxBackoff_def)
qed

text \<open>Two failed dials: pauses of at least 200 and 400 milliseconds.\<close>

definition failed_dials :: "run_input list" where
  "failed_dials = [Proceed, DialFail (ErrMsg ''refused'') None (\<lambda>n. 0), Elapsed, Proceed,
     DialFail (ErrMsg ''refused'') None (\<lambda>n. 0)]"

fun own_steps :: "run_input list \<Rightarrow> run_state \<Rightarrow> run_state option" where
  "own_steps [] s = Some s"
| "own_steps (i # is) s = (case run_step i s of None \<Rightarrow> None | Some t \<Rightarrow> own_steps is t)"

lemma ws_steps_add: "ws_steps k s t \<Longrightarrow> own_steps is t = Some u \<Longrightarrow> list_all input_ok is \<Longrightarrow>
    ws_steps (k + length is) s u"
proof (induction "is" arbitrary: k t)
  case (Cons i "is")
  then obtain t' where "run_step i t = Some t'" "own_steps is t' = Some u" by (auto split: option.splits)
  with Cons.IH [OF ws_steps.own [OF Cons.prems(1)]] Cons.prems(3) show ?case by fastforce
qed simp

lemmas own_steps_ws = ws_steps_add [OF ws_steps.here, simplified]

theorem backoff_bounded_witness:
  "\<exists>s. ws_steps 5 (run_start 0 [] (NewClient ''u'' ''v'')) s \<and> rs_waits s = [200 * millisecond, 400 * millisecond] \<and>
     rs_backoff s \<le> 30 * second"
proof -
  have nb: "nextBackoff (\<lambda>n. 0) (100 * millisecond) defaultMaxBackoff = Some (200 * millisecond)"
    "nextBackoff (\<lambda>n. 0) (200 * millisecond) defaultMaxBackoff = Some (400 * millisecond)"
    by (simp_all add: nextBackoff_def float64_of_int_exact defaultMaxBackoff_def in_int64_def Let_def)
  obtain s where s: "own_steps failed_dials (run_start 0 [] (NewClient ''u'' ''v'')) = Some s"
    "rs_waits s = [200 * millisecond, 400 * millisecond]"
    using nb by (simp add: failed_dials_def run_step.simps run_start_def NewClient_def connect_def pause_def)
  have steps: "ws_steps 5 (run_start 0 [] (NewClient ''u'' ''v'')) s"
    using own_steps_ws [OF s(1)] by (simp add: failed_dials_def int63n_ok_def eval_nat_numeral)
  have "wc_maxBackoff (NewClient ''u'' ''v'') = defaultMaxBackoff" "int63n_ok (\<lambda>n. 0)"
    by (simp_all add: NewClient_def int63n_ok_def)
  from backoff_bounded [OF steps this] steps s(2) show ?thesis by blast
qed

text \<open>
  C30: \<open>Close\<close> makes \<open>Run\<close> return. Take a client with the default maximum on which no other goroutine
  called \<open>Connect\<close> since \<open>Run\<close> was entered, and close it at any point. Whatever the other goroutines
  then do, \<open>Run\<close> makes at most five more transitions and hands at most one more message to a
  handler; and until it has returned its next transition is due without any help from the exchange
  or the context, since a read that is under way is from the connection that \<open>Close\<close> closed. So it
  returns, and it does not panic.
\<close>

theorem run_returns_after_close:
  assumes "lone_steps (run_start n sent c) s" "wc_maxBackoff c = defaultMaxBackoff"
    and "ws_steps k (other_step OClose s) t"
  shows "k \<le> 5 \<and> length (rs_delivered t) \<le> length (rs_delivered s) + 1 \<and>
    ((\<exists>r. rs_pc t = Returned r) \<or> (\<exists>i u. due rnd t = Some i \<and> run_step i t = Some u)) \<and> rs_pc t \<noteq> Panicked"
proof -
  have "reads_own (run_start n sent c)" "backoff_inv (run_start n sent c)"
    using assms(2) by (simp_all add: reads_own_def backoff_inv_def run_start_def defaultMaxBackoff_def)
  from lone_steps_inv [OF assms(1) this] have s: "reads_own s" "backoff_inv s" by simp_all
  have shut: "reads_shut t" by (rule reads_shut_steps [OF assms(3) reads_shut_Close [OF s(1)]])
  have "backoff_inv t" by (rule backoff_inv_steps [OF assms(3) backoff_inv_other [OF s(2)]])
  then have np: "rs_pc t \<noteq> Panicked" by (simp add: backoff_inv_def)
  have "wc_closed (rs_client (other_step OClose s))" by (simp add: Client_Close_def)
  from closed_steps [OF assms(3) this] pc_rank_le [of "rs_pc s"]
  have "k \<le> 5" "length (rs_delivered t) \<le> length (rs_delivered s) + 1"
    by (simp_all only: other_step_simps, linarith) (auto split: if_splits)
  then show ?thesis using np due_enabled [OF shut np, of rnd] by blast
qed

text \<open>A client that is closed while it reads: the read fails, the pause, one look at the flag, and nil.\<close>

lemma lone_steps_own:
  "own_steps is t = Some u \<Longrightarrow> lone_steps s t \<Longrightarrow> list_all input_ok is \<Longrightarrow> lone_steps s u"
proof (induction "is" arbitrary: t)
  case (Cons i "is")
  then obtain t' where "run_step i t = Some t'" "own_steps is t' = Some u" by (auto split: option.splits)
  with Cons.IH [OF _ lone_own [OF Cons.prems(2)]] Cons.prems(3) show ?case by simp
qed simp

theorem run_returns_after_close_witness:
  "\<exists>s t. lone_steps (run_start 0 [] (NewClient ''u'' ''v'')) s \<and> rs_pc s = Reading 0 None \<and>
     ws_steps 4 (other_step OClose s) t \<and> rs_pc t = Returned None \<and> length (rs_delivered t) \<le> length (rs_delivered s) + 1 \<and>
     (\<exists>i. due (\<lambda>n. 0) (other_step OClose s) = Some i)"
proof -
  let ?s0 = "run_start 0 [] (NewClient ''u'' ''v'')"
  let ?is = "[ReadFail, Check None (\<lambda>n. 0), Elapsed, Proceed]"
  have nb: "nextBackoff (\<lambda>n. 0) (100 * millisecond) defaultMaxBackoff = Some (200 * millisecond)"
    by (simp add: nextBackoff_def float64_of_int_exact defaultMaxBackoff_def in_int64_def Let_def)
  obtain s t where s: "own_steps [Proceed, DialOk, Proceed] ?s0 = Some s" "rs_pc s = Reading 0 None"
    and t: "own_steps ?is (other_step OClose s) = Some t" "rs_pc t = Returned None"
    using nb by (simp add: run_step.simps run_start_def NewClient_def connect_def pause_def drop_conn_def Client_Close_def)
  have steps: "ws_steps 4 (other_step OClose s) t"
    using own_steps_ws [OF t(1)] by (simp add: int63n_ok_def eval_nat_numeral del: other_step.simps)
  have lone: "lone_steps ?s0 s" by (rule lone_steps_own [OF s(1) lone_here]) simp
  have m: "wc_maxBackoff (NewClient ''u'' ''v'') = defaultMaxBackoff" by (simp add: NewClient_def)
  note r = run_returns_after_close [OF lone m, where rnd = "\<lambda>n. 0"]
  have "\<exists>i. due (\<lambda>n. 0) (other_step OClose s) = Some i"
    using r [OF ws_steps.here] s(2) by (auto simp del: other_step.simps)
  with r [OF steps] steps lone s(2) t(2) show ?thesis by blast
qed

text \<open>
  \<open>Run\<close> dials before it reads: no message it ever delivers comes from a connection opened
  before it was called. A subscription written on the connection of \<open>Connect\<close> therefore never
  receives its answer, unless another goroutine writes it again.
\<close>

theorem run_ignores_first_connection:
  assumes "ws_steps k (run_start n sent c) s" "(f, conn, msg) \<in> set (rs_delivered s)"
  shows "n \<le> conn"
proof -
  have "fresh_inv n (run_start n sent c)" by (simp add: fresh_inv_def run_start_def)
  from fresh_inv_steps [OF assms(1) this] assms(2) show ?thesis by (auto simp: fresh_inv_def)
qed

text \<open>A message on the connection \<open>Run\<close> opened, number 1, while the subscription was sent on number 0.\<close>

theorem run_ignores_first_connection_witness:
  "\<exists>s. ws_steps 4 (run_start 1 [(0, ''subscribe'')] ((NewClient ''u'' ''v'')\<lparr>wc_handler := Some 7, wc_conn := Some 0\<rparr>)) s \<and>
     (\<exists>conn. (7, conn, ''m'') \<in> set (rs_delivered s) \<and> 1 \<le> conn)"
proof -
  let ?s0 = "run_start 1 [(0, ''subscribe'')] ((NewClient ''u'' ''v'')\<lparr>wc_handler := Some 7, wc_conn := Some 0\<rparr>)"
  let ?is = "[Proceed, DialOk, Proceed, Message ''m'']"
  obtain s where s: "own_steps ?is ?s0 = Some s" "rs_delivered s = [(7, 1, ''m'')]"
    by (simp add: run_step.simps run_start_def NewClient_def connect_def)
  have steps: "ws_steps 4 ?s0 s" using own_steps_ws [OF s(1)] by (simp add: eval_nat_numeral)
  from run_ignores_first_connection [OF this, of 7 1 "''m''"] steps s(2) show ?thesis by auto
qed

end
