(* ===== verification/Venue_Model.thy ===== *)
theory Venue_Model
  imports Go_Prelude
begin

text \<open>
  The shared vocabulary of \<open>internal/venue/venue.go\<close> and \<open>errors.go\<close>, and the in-memory
  connector of \<open>internal/venue/dummy.go\<close>.

  \<open>decimal.Decimal\<close> is a third-party type: the model takes the type \<open>'d\<close> and the operations
  the code calls (\<open>dec_ops\<close>) as an argument, and what a theorem needs of them is a hypothesis
  of that theorem. \<open>dec_int\<close> is an instance on integers, used where the model is evaluated.

  \<open>Side\<close>, \<open>OrderType\<close> and \<open>OrderStatus\<close> are string types in Go (any string converts to them),
  so they are strings here, with the constants of the source.
\<close>

section \<open>Decimals\<close>

record 'd dec_ops =
  dec_zero :: 'd                                       \<comment> \<open>decimal.Zero\<close>
  dec_nil :: 'd                                        \<comment> \<open>the Go zero value decimal.Decimal{}\<close>
  dec_of_string :: "string \<Rightarrow> 'd \<times> go_error option"     \<comment> \<open>NewFromString\<close>
  dec_of_rat :: "rat \<Rightarrow> 'd"                             \<comment> \<open>NewFromFloat, NewFromInt of a literal\<close>
  dec_string :: "'d \<Rightarrow> string"                          \<comment> \<open>String\<close>
  dec_float :: "'d \<Rightarrow> gofloat"                          \<comment> \<open>Float64\<close>
  dec_is_zero :: "'d \<Rightarrow> bool"                           \<comment> \<open>IsZero\<close>
  dec_lt :: "'d \<Rightarrow> 'd \<Rightarrow> bool"                           \<comment> \<open>LessThan; GreaterThan with the arguments swapped\<close>
  dec_eq :: "'d \<Rightarrow> 'd \<Rightarrow> bool"                           \<comment> \<open>Equal\<close>
  dec_add :: "'d \<Rightarrow> 'd \<Rightarrow> 'd"                            \<comment> \<open>Add\<close>
  dec_sub :: "'d \<Rightarrow> 'd \<Rightarrow> 'd"                            \<comment> \<open>Sub\<close>
  dec_mul :: "'d \<Rightarrow> 'd \<Rightarrow> 'd"                            \<comment> \<open>Mul\<close>
  dec_div :: "'d \<Rightarrow> 'd \<Rightarrow> 'd"                            \<comment> \<open>Div by a non-zero divisor\<close>

text \<open>\<open>LessThanOrEqual\<close> is "less or equal" in the library.\<close>

definition dec_le :: "'d dec_ops \<Rightarrow> 'd \<Rightarrow> 'd \<Rightarrow> bool" where
  "dec_le D a b \<longleftrightarrow> dec_lt D a b \<or> dec_eq D a b"

text \<open>\<open>p, _ := decimal.NewFromString(s)\<close>: the value, whatever the error.\<close>

definition dec_parse :: "'d dec_ops \<Rightarrow> string \<Rightarrow> 'd" where
  "dec_parse D s = fst (dec_of_string D s)"

section \<open>Data\<close>

abbreviation SideBuy :: string where "SideBuy \<equiv> ''buy''"
abbreviation SideSell :: string where "SideSell \<equiv> ''sell''"
abbreviation OrderTypeMarket :: string where "OrderTypeMarket \<equiv> ''market''"
abbreviation OrderTypeLimit :: string where "OrderTypeLimit \<equiv> ''limit''"
abbreviation OrderStatusNew :: string where "OrderStatusNew \<equiv> ''new''"
abbreviation OrderStatusPartial :: string where "OrderStatusPartial \<equiv> ''partial''"
abbreviation OrderStatusFilled :: string where "OrderStatusFilled \<equiv> ''filled''"
abbreviation OrderStatusCanceled :: string where "OrderStatusCanceled \<equiv> ''canceled''"

record 'd order_request =
  rq_ClientOrderID :: string
  rq_Symbol :: string
  rq_Side :: string
  rq_Type :: string
  rq_Quantity :: 'd
  rq_Price :: 'd

record cancel_request =
  cr_VenueOrderID :: string
  cr_ClientOrderID :: string

record fill_query =
  fq_VenueOrderID :: string
  fq_Start :: gotime
  fq_End :: gotime
  fq_Limit :: int64

record 'd fill =
  fl_VenueOrderID :: string
  fl_TradeID :: string
  fl_Price :: 'd
  fl_Quantity :: 'd
  fl_Fee :: 'd
  fl_FeeAsset :: string
  fl_Timestamp :: gotime

record 'd order_response =
  or_VenueOrderID :: string
  or_ClientOrderID :: string
  or_Status :: string
  or_FilledQty :: 'd
  or_AvgPrice :: 'd
  or_Fills :: "'d fill list"

record 'd balance =
  bl_Asset :: string
  bl_Free :: 'd
  bl_Locked :: 'd

type_synonym 'd balances = "(string, 'd balance) gomap"

record 'd book_level =
  lv_Price :: 'd
  lv_Size :: 'd

record 'd book_update =
  bu_Pair :: string
  bu_Bids :: "'d book_level list"
  bu_Asks :: "'d book_level list"
  bu_TS :: gotime

record venue_config =
  vc_Name :: string
  vc_RESTBase :: string
  vc_WSBase :: string
  vc_Knobs :: "(string, string) gomap"

text \<open>The \<open>limit\<close> clause the connectors share: \<open>if limit > 0 && len(out) > limit { out = out[:limit] }\<close>.\<close>

definition limit_fills :: "int64 \<Rightarrow> 'a list \<Rightarrow> 'a list" where
  "limit_fills n out = (if n > 0 \<and> int (length out) > n then take (nat n) out else out)"

section \<open>The dummy connector\<close>

text \<open>
  \<open>orders\<close> maps ids to pointers, \<open>PlaceOrder\<close> returns the pointer it stores and \<open>CancelOrder\<close>
  writes through it, so the responses live in an explicit heap: \<open>dv_heap ! a\<close> is the response
  at address \<open>a\<close>, \<open>dv_orders\<close> holds addresses, and \<open>PlaceOrder\<close> allocates.
\<close>

record 'd dummy_venue =
  dv_price :: 'd
  dv_fills :: "'d fill list"
  dv_orders :: "(string, nat) gomap"
  dv_heap :: "'d order_response list"

definition NewDummyVenueConnector :: "'d dec_ops \<Rightarrow> string \<Rightarrow> 'd dummy_venue" where
  "NewDummyVenueConnector D env_DUMMY_PRICE =
     (let price = dec_of_rat D 50000;
          price' = (if env_DUMMY_PRICE \<noteq> '''' then
                      (case dec_of_string D env_DUMMY_PRICE of (p, None) \<Rightarrow> p | (_, Some _) \<Rightarrow> price)
                    else price)
      in \<lparr>dv_price = price', dv_fills = [], dv_orders = [], dv_heap = []\<rparr>)"

text \<open>
  \<open>PlaceOrder\<close>, lines 37--63 in four parts: the id, the price, the fill and the response.
  \<open>uuid1\<close> and \<open>uuid2\<close> are what the two calls of \<open>uuid.NewString\<close> return.
\<close>

definition dummy_cid :: "string \<Rightarrow> 'd order_request \<Rightarrow> string" where
  "dummy_cid uuid1 req = (if rq_ClientOrderID req = '''' then uuid1 else rq_ClientOrderID req)"

definition dummy_order_price :: "'d dec_ops \<Rightarrow> 'd order_request \<Rightarrow> 'd dummy_venue \<Rightarrow> 'd" where
  "dummy_order_price D req d = (if dec_is_zero D (rq_Price req) then dv_price d else rq_Price req)"

definition dummy_fill :: "'d dec_ops \<Rightarrow> string \<Rightarrow> string \<Rightarrow> 'd \<Rightarrow> 'd \<Rightarrow> gotime \<Rightarrow> 'd fill" where
  "dummy_fill D cid uuid2 price qty now =
     \<lparr>fl_VenueOrderID = cid, fl_TradeID = uuid2, fl_Price = price, fl_Quantity = qty,
      fl_Fee = dec_mul D (dec_mul D price qty) (dec_of_rat D (1 / 1000)),
      fl_FeeAsset = ''USDT'', fl_Timestamp = now\<rparr>"

definition dummy_response :: "string \<Rightarrow> 'd \<Rightarrow> 'd \<Rightarrow> 'd fill \<Rightarrow> 'd order_response" where
  "dummy_response cid price qty fill =
     \<lparr>or_VenueOrderID = cid, or_ClientOrderID = cid, or_Status = OrderStatusFilled,
      or_FilledQty = qty, or_AvgPrice = price, or_Fills = [fill]\<rparr>"

text \<open>The result is the address of the stored response.\<close>

definition Dummy_PlaceOrder ::
  "'d dec_ops \<Rightarrow> string \<Rightarrow> string \<Rightarrow> gotime \<Rightarrow> 'd order_request \<Rightarrow> 'd dummy_venue \<Rightarrow> 'd dummy_venue \<times> nat"
where
  "Dummy_PlaceOrder D uuid1 uuid2 now req d =
     (let cid = dummy_cid uuid1 req;
          price = dummy_order_price D req d;
          qty = rq_Quantity req;
          fill = dummy_fill D cid uuid2 price qty now;
          a = length (dv_heap d)
      in (d\<lparr>dv_fills := dv_fills d @ [fill], dv_orders := AList.update cid a (dv_orders d),
            dv_heap := dv_heap d @ [dummy_response cid price qty fill]\<rparr>, a))"

definition dummy_cancel_id :: "cancel_request \<Rightarrow> string" where
  "dummy_cancel_id req = (if cr_VenueOrderID req = '''' then cr_ClientOrderID req else cr_VenueOrderID req)"

definition Dummy_CancelOrder :: "cancel_request \<Rightarrow> 'd dummy_venue \<Rightarrow> 'd dummy_venue \<times> go_error option" where
  "Dummy_CancelOrder req d =
     (case map_of (dv_orders d) (dummy_cancel_id req) of
        Some a \<Rightarrow> d\<lparr>dv_heap := (dv_heap d)[a := (dv_heap d ! a)\<lparr>or_Status := OrderStatusCanceled\<rparr>]\<rparr>
      | None \<Rightarrow> d, None)"

text \<open>\<open>GetOrder\<close> returns a copy of the response.\<close>

definition Dummy_GetOrder :: "string \<Rightarrow> 'd dummy_venue \<Rightarrow> go_error + 'd order_response" where
  "Dummy_GetOrder venueOrderID d =
     (case map_of (dv_orders d) venueOrderID of
        Some a \<Rightarrow> Inr (dv_heap d ! a) | None \<Rightarrow> Inl ErrOrderNotFound)"

definition fill_matches :: "fill_query \<Rightarrow> 'd fill \<Rightarrow> bool" where
  "fill_matches q f \<longleftrightarrow>
     \<not> (fq_VenueOrderID q \<noteq> '''' \<and> fl_VenueOrderID f \<noteq> fq_VenueOrderID q) \<and>
     \<not> (fq_Start q \<noteq> 0 \<and> fl_Timestamp f < fq_Start q) \<and>
     \<not> (fq_End q \<noteq> 0 \<and> fl_Timestamp f > fq_End q)"

definition Dummy_GetFills :: "fill_query \<Rightarrow> 'd dummy_venue \<Rightarrow> 'd fill list" where
  "Dummy_GetFills query d = limit_fills (fq_Limit query) (filter (fill_matches query) (dv_fills d))"

definition Dummy_GetBalances :: "'d dec_ops \<Rightarrow> 'd balances" where
  "Dummy_GetBalances D =
     [(''BTC'', \<lparr>bl_Asset = ''BTC'', bl_Free = dec_of_rat D (3 / 2), bl_Locked = dec_of_rat D (1 / 10)\<rparr>),
      (''USDT'', \<lparr>bl_Asset = ''USDT'', bl_Free = dec_of_rat D 250000, bl_Locked = dec_of_rat D 1000\<rparr>),
      (''ETH'', \<lparr>bl_Asset = ''ETH'', bl_Free = dec_of_rat D 20, bl_Locked = dec_zero D\<rparr>)]"

definition Dummy_LastFill :: "'d dummy_venue \<Rightarrow> 'd fill option" where
  "Dummy_LastFill d = (if dv_fills d = [] then None else Some (dv_fills d ! (length (dv_fills d) - 1)))"

text \<open>One tick of \<open>SubscribeBook\<close> for one pair; \<open>r\<close> is \<open>decimal.NewFromFloat(rand.Float64() - 0.5)\<close>.\<close>

definition Dummy_tick :: "'d dec_ops \<Rightarrow> 'd \<Rightarrow> gotime \<Rightarrow> string \<Rightarrow> 'd dummy_venue \<Rightarrow> 'd book_update" where
  "Dummy_tick D r now pair d =
     (let delta = dec_mul D (dec_mul D r (dv_price d)) (dec_of_rat D (1 / 1000));
          mid = dec_add D (dv_price d) delta
      in \<lparr>bu_Pair = pair,
          bu_Bids = [\<lparr>lv_Price = dec_sub D mid (dec_of_rat D 1), lv_Size = dec_of_rat D (1 / 2)\<rparr>],
          bu_Asks = [\<lparr>lv_Price = dec_add D mid (dec_of_rat D 1), lv_Size = dec_of_rat D (1 / 2)\<rparr>],
          bu_TS = now\<rparr>)"

subsection \<open>Invariant, and an instance of the decimals\<close>

text \<open>Every stored address is allocated, and the response there carries the id it is stored under.\<close>

definition dummy_ok :: "'d dummy_venue \<Rightarrow> bool" where
  "dummy_ok d \<longleftrightarrow> wf_map (dv_orders d) \<and>
     (\<forall>id a. map_of (dv_orders d) id = Some a \<longrightarrow>
        a < length (dv_heap d) \<and> or_VenueOrderID (dv_heap d ! a) = id \<and> or_ClientOrderID (dv_heap d ! a) = id)"

definition dec_int :: "int dec_ops" where
  "dec_int = \<lparr>dec_zero = 0, dec_nil = 0,
     dec_of_string = (\<lambda>s. case parse_int64 s of None \<Rightarrow> (0, Some (ErrMsg ''decimal'')) | Some i \<Rightarrow> (i, None)),
     dec_of_rat = (\<lambda>q. \<lfloor>q\<rfloor>), dec_string = format_int, dec_float = (\<lambda>i. Fin (of_int i)),
     dec_is_zero = (\<lambda>i. i = 0), dec_lt = (<), dec_eq = (=), dec_add = (+), dec_sub = (-), dec_mul = (*),
     dec_div = (div)\<rparr>"

section \<open>Lemmas\<close>

lemma limit_fills_prefix: "\<exists>rest. out = limit_fills n out @ rest"
  by (cases "n > 0 \<and> int (length out) > n") (auto simp: limit_fills_def intro: append_take_drop_id [symmetric])

lemma length_limit_fills: "0 < n \<Longrightarrow> int (length (limit_fills n out)) \<le> n"
  by (simp add: limit_fills_def)

lemma set_limit_fills: "x \<in> set (limit_fills n out) \<Longrightarrow> x \<in> set out"
  by (auto simp: limit_fills_def split: if_splits dest: in_set_takeD)

lemma dummy_ok_New: "dummy_ok (NewDummyVenueConnector D s)"
  by (simp add: dummy_ok_def NewDummyVenueConnector_def Let_def)

lemma dummy_response_simps [simp]:
  "or_VenueOrderID (dummy_response cid p q f) = cid" "or_ClientOrderID (dummy_response cid p q f) = cid"
  "or_Status (dummy_response cid p q f) = OrderStatusFilled" "or_FilledQty (dummy_response cid p q f) = q"
  "or_AvgPrice (dummy_response cid p q f) = p" "or_Fills (dummy_response cid p q f) = [f]"
  by (simp_all add: dummy_response_def)

lemma dummy_fill_simps [simp]:
  "fl_VenueOrderID (dummy_fill D cid u p q t) = cid" "fl_TradeID (dummy_fill D cid u p q t) = u"
  "fl_Price (dummy_fill D cid u p q t) = p" "fl_Quantity (dummy_fill D cid u p q t) = q"
  "fl_Timestamp (dummy_fill D cid u p q t) = t"
  by (simp_all add: dummy_fill_def)

lemma dummy_ok_heap: "dummy_ok d \<Longrightarrow> map_of (dv_orders d) k = Some a \<Longrightarrow> a < length (dv_heap d)"
  by (simp add: dummy_ok_def)

lemma dummy_ok_PlaceOrder:
  assumes "dummy_ok d" "Dummy_PlaceOrder D u1 u2 now req d = (d', a)"
  shows "dummy_ok d'"
  using assms by (auto simp: dummy_ok_def Dummy_PlaceOrder_def Let_def nth_append less_Suc_eq split: if_splits)

lemma dummy_ok_CancelOrder:
  assumes "dummy_ok d" "Dummy_CancelOrder req d = (d', e)"
  shows "dummy_ok d'"
  using assms
  by (auto simp: dummy_ok_def Dummy_CancelOrder_def nth_list_update split: option.splits if_splits)

section \<open>Properties\<close>

text \<open>
  Placing an order with the dummy connector and reading it back. The order is filled in
  full at the request price, or at the connector's price when the request has none; \<open>GetOrder\<close>
  returns the very response \<open>PlaceOrder\<close> did, every other id reads as before, and the one
  fill is appended to the fills and carries the order's id, price and quantity.
\<close>

theorem dummy_place_then_get:
  assumes "dummy_ok d" "Dummy_PlaceOrder D u1 u2 now req d = (d', a)"
  shows "\<exists>r f. Dummy_GetOrder (dummy_cid u1 req) d' = Inr r \<and> dv_heap d' ! a = r \<and>
      or_Status r = OrderStatusFilled \<and> or_FilledQty r = rq_Quantity req \<and>
      or_AvgPrice r = (if dec_is_zero D (rq_Price req) then dv_price d else rq_Price req) \<and> or_Fills r = [f] \<and>
      dv_fills d' = dv_fills d @ [f] \<and> Dummy_LastFill d' = Some f \<and>
      fl_VenueOrderID f = dummy_cid u1 req \<and> fl_Price f = or_AvgPrice r \<and> fl_Quantity f = rq_Quantity req \<and>
      (\<forall>id. id \<noteq> dummy_cid u1 req \<longrightarrow> Dummy_GetOrder id d' = Dummy_GetOrder id d)"
proof -
  let ?f = "dummy_fill D (dummy_cid u1 req) u2 (dummy_order_price D req d) (rq_Quantity req) now"
  let ?r = "dummy_response (dummy_cid u1 req) (dummy_order_price D req d) (rq_Quantity req) ?f"
  have d': "d' = d\<lparr>dv_fills := dv_fills d @ [?f],
      dv_orders := AList.update (dummy_cid u1 req) a (dv_orders d), dv_heap := dv_heap d @ [?r]\<rparr>"
    and a: "a = length (dv_heap d)"
    using assms(2) by (auto simp: Dummy_PlaceOrder_def Let_def)
  have "Dummy_GetOrder id d' = Dummy_GetOrder id d" if "id \<noteq> dummy_cid u1 req" for id
    using that dummy_ok_heap [OF assms(1)] by (simp add: Dummy_GetOrder_def d' nth_append split: option.split)
  moreover have "Dummy_GetOrder (dummy_cid u1 req) d' = Inr ?r" "dv_heap d' ! a = ?r"
    "Dummy_LastFill d' = Some ?f" "dv_fills d' = dv_fills d @ [?f]"
    by (simp_all add: Dummy_GetOrder_def Dummy_LastFill_def d' a)
  moreover have "or_AvgPrice ?r = (if dec_is_zero D (rq_Price req) then dv_price d else rq_Price req)"
    by (simp add: dummy_order_price_def)
  ultimately show ?thesis by (intro exI [of _ ?r] exI [of _ ?f]) simp
qed

theorem dummy_place_then_get_witness:
  "let d = NewDummyVenueConnector dec_int '''';
       req = \<lparr>rq_ClientOrderID = '''', rq_Symbol = ''BTCUSDT'', rq_Side = SideBuy, rq_Type = OrderTypeMarket,
              rq_Quantity = 2, rq_Price = 0\<rparr>;
       d' = fst (Dummy_PlaceOrder dec_int ''u-1'' ''u-2'' 7 req d)
   in \<exists>r. Dummy_GetOrder ''u-1'' d' = Inr r \<and> or_AvgPrice r = 50000 \<and> or_FilledQty r = 2"
proof -
  let ?d = "NewDummyVenueConnector dec_int ''''"
  let ?req = "\<lparr>rq_ClientOrderID = '''', rq_Symbol = ''BTCUSDT'', rq_Side = SideBuy, rq_Type = OrderTypeMarket,
              rq_Quantity = 2, rq_Price = 0\<rparr> :: int order_request"
  obtain d' a where 1: "Dummy_PlaceOrder dec_int ''u-1'' ''u-2'' 7 ?req ?d = (d', a)"
    by (cases "Dummy_PlaceOrder dec_int ''u-1'' ''u-2'' 7 ?req ?d")
  have "dv_price ?d = 50000" "dummy_cid ''u-1'' ?req = ''u-1''" "dec_is_zero dec_int (rq_Price ?req)"
    by (simp_all add: NewDummyVenueConnector_def dec_int_def dummy_cid_def)
  then show ?thesis
    using dummy_place_then_get [OF dummy_ok_New 1] 1 by auto
qed

text \<open>
  Cancelling writes through the stored pointer. Cancelling an id that was placed makes the
  response the last \<open>PlaceOrder\<close> for that id handed out read \<open>canceled\<close>, also for the caller
  who still holds it, changes nothing else in it and no other response, and leaves the fills;
  cancelling an unknown id changes nothing and still reports success.
\<close>

theorem dummy_cancel_through_pointer:
  assumes "dummy_ok d" "Dummy_CancelOrder req d = (d', e)"
  shows "e = None \<and> dv_fills d' = dv_fills d \<and> dv_orders d' = dv_orders d \<and>
    (case map_of (dv_orders d) (dummy_cancel_id req) of
       None \<Rightarrow> d' = d
     | Some a \<Rightarrow> dv_heap d' ! a = (dv_heap d ! a)\<lparr>or_Status := OrderStatusCanceled\<rparr> \<and>
         Dummy_GetOrder (dummy_cancel_id req) d' = Inr (dv_heap d' ! a) \<and>
         (\<forall>b. b \<noteq> a \<longrightarrow> dv_heap d' ! b = dv_heap d ! b))"
  using assms dummy_ok_heap [OF assms(1)]
  by (auto simp: Dummy_CancelOrder_def Dummy_GetOrder_def split: option.splits)

theorem dummy_cancel_through_pointer_witness:
  "let req = \<lparr>rq_ClientOrderID = ''c1'', rq_Symbol = ''BTCUSDT'', rq_Side = SideBuy, rq_Type = OrderTypeLimit,
              rq_Quantity = 2, rq_Price = 9\<rparr>;
       d = fst (Dummy_PlaceOrder dec_int ''u-1'' ''u-2'' 7 req (NewDummyVenueConnector dec_int ''''));
       d' = fst (Dummy_CancelOrder \<lparr>cr_VenueOrderID = ''c1'', cr_ClientOrderID = ''''\<rparr> d)
   in or_Status (dv_heap d ! 0) = OrderStatusFilled \<and> or_Status (dv_heap d' ! 0) = OrderStatusCanceled"
proof -
  let ?req = "\<lparr>rq_ClientOrderID = ''c1'', rq_Symbol = ''BTCUSDT'', rq_Side = SideBuy, rq_Type = OrderTypeLimit,
              rq_Quantity = 2, rq_Price = 9\<rparr> :: int order_request"
  let ?c = "\<lparr>cr_VenueOrderID = ''c1'', cr_ClientOrderID = ''''\<rparr>"
  obtain d a where 1: "Dummy_PlaceOrder dec_int ''u-1'' ''u-2'' 7 ?req (NewDummyVenueConnector dec_int '''') = (d, a)"
    by (cases "Dummy_PlaceOrder dec_int ''u-1'' ''u-2'' 7 ?req (NewDummyVenueConnector dec_int '''')")
  obtain d' e where 2: "Dummy_CancelOrder ?c d = (d', e)" by (cases "Dummy_CancelOrder ?c d")
  have "dummy_ok d" using dummy_ok_PlaceOrder [OF dummy_ok_New 1] .
  moreover have "map_of (dv_orders d) (dummy_cancel_id ?c) = Some 0" "or_Status (dv_heap d ! 0) = OrderStatusFilled"
    using 1 by (auto simp: Dummy_PlaceOrder_def NewDummyVenueConnector_def dummy_cid_def dummy_cancel_id_def Let_def)
  ultimately show ?thesis
    using dummy_cancel_through_pointer [OF _ 2] 1 2 by (simp add: Let_def)
qed

end
