(* ===== verification/Book_Agg.thy ===== *)
theory Book_Agg
  imports Venue_Model
begin

text \<open>
  The top-of-book aggregator of \<open>internal/book/book.go\<close>. Its goroutine \<open>consume\<close> folds the
  updates of the subscription into a map from pairs to tops; \<open>Get\<close> reads the map. The locale
  \<open>keyed_latest\<close> says that such a fold holds the last update of every key; it is interpreted on
  \<open>consume_one\<close>.

  \<open>Close\<close> calls the cancel function of a context that \<open>NewBookAggregator\<close> derives and passes to
  nobody, so the contexts are part of the state: \<open>ba_cancelled\<close> is that derived context, and the
  subscription goes on as long as the parent context does.
\<close>

section \<open>Definitions\<close>

record top_of_book =
  tb_Pair :: string
  tb_Bid :: gofloat
  tb_Ask :: gofloat
  tb_TS :: gotime

record book_aggregator =
  ba_latest :: "(string, top_of_book) gomap"
  ba_cancelled :: bool

text \<open>\<open>SubscribeBook\<close> of the connector either fails or gives the channel.\<close>

definition NewBookAggregator :: "go_error + 'ch \<Rightarrow> go_error + (book_aggregator \<times> 'ch)" where
  "NewBookAggregator subscribe =
     (case subscribe of
        Inl err \<Rightarrow> Inl err
      | Inr ch \<Rightarrow> Inr (\<lparr>ba_latest = [], ba_cancelled = False\<rparr>, ch))"

definition best_price :: "'d dec_ops \<Rightarrow> 'd book_level list \<Rightarrow> gofloat" where
  "best_price D levels = (if length levels > 0 then dec_float D (lv_Price (levels ! 0)) else Fin 0)"

definition top_of :: "'d dec_ops \<Rightarrow> 'd book_update \<Rightarrow> top_of_book" where
  "top_of D upd =
     \<lparr>tb_Pair = bu_Pair upd, tb_Bid = best_price D (bu_Bids upd), tb_Ask = best_price D (bu_Asks upd),
      tb_TS = bu_TS upd\<rparr>"

definition consume_one :: "'d dec_ops \<Rightarrow> 'd book_update \<Rightarrow> book_aggregator \<Rightarrow> book_aggregator" where
  "consume_one D upd a = a\<lparr>ba_latest := AList.update (bu_Pair upd) (top_of D upd) (ba_latest a)\<rparr>"

definition consume :: "'d dec_ops \<Rightarrow> 'd book_update list \<Rightarrow> book_aggregator \<Rightarrow> book_aggregator" where
  "consume D upds a = fold (consume_one D) upds a"

definition Aggregator_Get :: "book_aggregator \<Rightarrow> string \<Rightarrow> top_of_book option" where
  "Aggregator_Get a pair = map_of (ba_latest a) pair"

definition Aggregator_Close :: "book_aggregator \<Rightarrow> book_aggregator" where
  "Aggregator_Close a = a\<lparr>ba_cancelled := True\<rparr>"

section \<open>Folding updates by key\<close>

locale keyed_latest =
  fixes apply_one :: "'u \<Rightarrow> 's \<Rightarrow> 's"
    and get :: "'s \<Rightarrow> 'k \<Rightarrow> 'v option"
    and key :: "'u \<Rightarrow> 'k"
    and val :: "'u \<Rightarrow> 'v"
  assumes get_same: "get (apply_one u s) (key u) = Some (val u)"
    and get_other: "k \<noteq> key u \<Longrightarrow> get (apply_one u s) k = get s k"
begin

lemma get_fold:
  "get (fold apply_one us s) k =
     (case filter (\<lambda>u. key u = k) us of [] \<Rightarrow> get s k | v # vs \<Rightarrow> Some (val (last (v # vs))))"
proof (induction us arbitrary: s)
  case (Cons u us)
  then show ?case
    by (cases "key u = k"; cases "filter (\<lambda>u. key u = k) us") (auto simp: get_same get_other)
qed simp

end

interpretation agg: keyed_latest "consume_one D" Aggregator_Get bu_Pair "top_of D"
  for D :: "'d dec_ops"
  by unfold_locales (simp_all add: consume_one_def Aggregator_Get_def)

section \<open>Properties\<close>

text \<open>
  After any sequence of updates, before or after \<open>Close\<close>, \<open>Get\<close> of a pair returns the top
  of the last update of that pair (the first bid and the first ask as floats, 0 for an empty
  side), and nothing when there was none. In particular an update consumed after \<open>Close\<close> is
  still applied.
\<close>

theorem aggregator_latest:
  "Aggregator_Get (consume D late (Aggregator_Close (consume D early \<lparr>ba_latest = [], ba_cancelled = False\<rparr>))) pair =
     (case filter (\<lambda>u. bu_Pair u = pair) (early @ late) of
        [] \<Rightarrow> None
      | u # us \<Rightarrow> Some (top_of D (last (u # us))))"
proof -
  have c: "Aggregator_Get (Aggregator_Close a) pair = Aggregator_Get a pair" for a
    by (simp add: Aggregator_Get_def Aggregator_Close_def)
  have n: "Aggregator_Get \<lparr>ba_latest = [], ba_cancelled = False\<rparr> pair = None"
    by (simp add: Aggregator_Get_def)
  show ?thesis
    by (cases "filter (\<lambda>u. bu_Pair u = pair) early"; cases "filter (\<lambda>u. bu_Pair u = pair) late")
      (auto simp: consume_def agg.get_fold c n)
qed

end
