(* ===== verification/Order_Store.thy ===== *)
theory Order_Store
  imports Venue_Model
begin

text \<open>
  The order and fill store of \<open>internal/store/store.go\<close>. The \<open>Store\<close> interface is the locale
  \<open>order_store\<close>: its laws say that a client order id is written once and that a fill is
  known by its venue and trade id. \<open>MemStore\<close> interprets it; what a client may conclude for a
  whole history of calls is proved in the locale.
\<close>

section \<open>Definitions\<close>

record 'd store_order =
  so_VenueOrderID :: string
  so_ClientOrderID :: string
  so_Venue :: string
  so_Pair :: string
  so_Side :: string
  so_OrderType :: string
  so_Status :: string
  so_FilledQty :: 'd
  so_AvgPrice :: 'd
  so_Quantity :: 'd
  so_Price :: 'd
  so_CreatedAt :: gotime
  so_UpdatedAt :: gotime

record 'd store_fill =
  sf_VenueOrderID :: string
  sf_TradeID :: string
  sf_Venue :: string
  sf_Pair :: string
  sf_Price :: 'd
  sf_Quantity :: 'd
  sf_Fee :: 'd
  sf_FeeAsset :: string
  sf_Timestamp :: gotime

record 'd mem_store =
  ms_orders :: "(string, 'd store_order) gomap"
  ms_fills :: "'d store_fill list"

definition NewMemStore :: "'d mem_store" where
  "NewMemStore = \<lparr>ms_orders = [], ms_fills = []\<rparr>"

text \<open>The stamps of lines 62--65; \<open>now1\<close> and \<open>now2\<close> are the two readings of the clock.\<close>

definition stamp_order :: "gotime \<Rightarrow> gotime \<Rightarrow> 'd store_order \<Rightarrow> 'd store_order" where
  "stamp_order now1 now2 r =
     (if so_CreatedAt r = 0 then r\<lparr>so_CreatedAt := now1\<rparr> else r)\<lparr>so_UpdatedAt := now2\<rparr>"

definition MemStore_RecordOrder ::
  "gotime \<Rightarrow> gotime \<Rightarrow> 'd store_order \<Rightarrow> 'd mem_store \<Rightarrow> 'd mem_store \<times> (go_error + bool)"
where
  "MemStore_RecordOrder now1 now2 r s =
     (case map_of (ms_orders s) (so_ClientOrderID r) of
        Some _ \<Rightarrow> (s, Inr False)
      | None \<Rightarrow> (s\<lparr>ms_orders := AList.update (so_ClientOrderID r) (stamp_order now1 now2 r) (ms_orders s)\<rparr>,
                 Inr True))"

definition MemStore_GetOrderByClientID :: "string \<Rightarrow> 'd mem_store \<Rightarrow> 'd store_order option" where
  "MemStore_GetOrderByClientID cid s = map_of (ms_orders s) cid"

definition stamp_fill :: "gotime \<Rightarrow> 'd store_fill \<Rightarrow> 'd store_fill" where
  "stamp_fill now f = (if sf_Timestamp f = 0 then f\<lparr>sf_Timestamp := now\<rparr> else f)"

definition MemStore_RecordFill ::
  "gotime \<Rightarrow> 'd store_fill \<Rightarrow> 'd mem_store \<Rightarrow> 'd mem_store \<times> (go_error + bool)"
where
  "MemStore_RecordFill now f s =
     (if \<exists>e \<in> set (ms_fills s). sf_Venue e = sf_Venue f \<and> sf_TradeID e = sf_TradeID f then (s, Inr False)
      else (s\<lparr>ms_fills := ms_fills s @ [stamp_fill now f]\<rparr>, Inr True))"

definition MemStore_FillsForOrder :: "string \<Rightarrow> 'd mem_store \<Rightarrow> go_error + 'd store_fill list" where
  "MemStore_FillsForOrder venueOrderID s =
     Inr (filter (\<lambda>f. sf_VenueOrderID f = venueOrderID) (ms_fills s))"

subsection \<open>Histories of calls\<close>

abbreviation fill_key :: "'d store_fill \<Rightarrow> string \<times> string" where
  "fill_key f \<equiv> (sf_Venue f, sf_TradeID f)"

definition mem_ok :: "'d mem_store \<Rightarrow> bool" where
  "mem_ok s \<longleftrightarrow> wf_map (ms_orders s) \<and> distinct (map fill_key (ms_fills s))"

datatype 'd store_call = CallOrder gotime gotime "'d store_order" | CallFill gotime "'d store_fill"

fun replay ::
  "(gotime \<Rightarrow> gotime \<Rightarrow> 'd store_order \<Rightarrow> 's \<Rightarrow> 's \<times> (go_error + bool)) \<Rightarrow>
   (gotime \<Rightarrow> 'd store_fill \<Rightarrow> 's \<Rightarrow> 's \<times> (go_error + bool)) \<Rightarrow> 'd store_call list \<Rightarrow> 's \<Rightarrow> 's"
where
  "replay ro rf [] s = s"
| "replay ro rf (CallOrder t1 t2 r # cs) s = replay ro rf cs (fst (ro t1 t2 r s))"
| "replay ro rf (CallFill t f # cs) s = replay ro rf cs (fst (rf t f s))"

text \<open>The first order with a given client id in a history, stamped.\<close>

fun first_order :: "string \<Rightarrow> 'd store_call list \<Rightarrow> 'd store_order option" where
  "first_order cid [] = None"
| "first_order cid (CallOrder t1 t2 r # cs) =
     (if so_ClientOrderID r = cid then Some (stamp_order t1 t2 r) else first_order cid cs)"
| "first_order cid (CallFill t f # cs) = first_order cid cs"

text \<open>The fills of a history whose key is new when they come, stamped, in order of arrival.\<close>

fun new_fills :: "(string \<times> string) set \<Rightarrow> 'd store_call list \<Rightarrow> 'd store_fill list" where
  "new_fills seen [] = []"
| "new_fills seen (CallOrder t1 t2 r # cs) = new_fills seen cs"
| "new_fills seen (CallFill t f # cs) =
     (if fill_key f \<in> seen then new_fills seen cs
      else stamp_fill t f # new_fills (insert (fill_key f) seen) cs)"

section \<open>The interface\<close>

locale order_store =
  fixes record_order :: "gotime \<Rightarrow> gotime \<Rightarrow> 'd store_order \<Rightarrow> 's \<Rightarrow> 's \<times> (go_error + bool)"
    and order_of :: "string \<Rightarrow> 's \<Rightarrow> 'd store_order option"
    and record_fill :: "gotime \<Rightarrow> 'd store_fill \<Rightarrow> 's \<Rightarrow> 's \<times> (go_error + bool)"
    and all_fills :: "'s \<Rightarrow> 'd store_fill list"
    and fills_for :: "string \<Rightarrow> 's \<Rightarrow> go_error + 'd store_fill list"
    and ok :: "'s \<Rightarrow> bool"
  assumes order_dup: "order_of (so_ClientOrderID r) s \<noteq> None \<Longrightarrow> record_order t1 t2 r s = (s, Inr False)"
    and order_new: "ok s \<Longrightarrow> order_of (so_ClientOrderID r) s = None \<Longrightarrow>
      \<exists>s'. record_order t1 t2 r s = (s', Inr True) \<and> ok s' \<and> all_fills s' = all_fills s \<and>
        (\<forall>c. order_of c s' = (if c = so_ClientOrderID r then Some (stamp_order t1 t2 r) else order_of c s))"
    and fill_dup: "fill_key f \<in> fill_key ` set (all_fills s) \<Longrightarrow> record_fill t f s = (s, Inr False)"
    and fill_new: "ok s \<Longrightarrow> fill_key f \<notin> fill_key ` set (all_fills s) \<Longrightarrow>
      \<exists>s'. record_fill t f s = (s', Inr True) \<and> ok s' \<and> all_fills s' = all_fills s @ [stamp_fill t f] \<and>
        (\<forall>c. order_of c s' = order_of c s)"
    and fills_for_eq: "fills_for v s = Inr (filter (\<lambda>f. sf_VenueOrderID f = v) (all_fills s))"
begin

lemma key_stamp_fill [simp]: "sf_Venue (stamp_fill t f) = sf_Venue f" "sf_TradeID (stamp_fill t f) = sf_TradeID f"
  by (simp_all add: stamp_fill_def)

text \<open>A history keeps the first order of each client id and the first fill of each key.\<close>

lemma replay_first_wins:
  "ok s \<Longrightarrow> ok (replay record_order record_fill cs s) \<and>
    order_of c (replay record_order record_fill cs s) =
      (case order_of c s of Some r \<Rightarrow> Some r | None \<Rightarrow> first_order c cs) \<and>
    all_fills (replay record_order record_fill cs s) =
      all_fills s @ new_fills (fill_key ` set (all_fills s)) cs"
proof (induction cs arbitrary: s)
  case (Cons x cs)
  show ?case
  proof (cases x)
    case (CallOrder t1 t2 r)
    show ?thesis
    proof (cases "order_of (so_ClientOrderID r) s")
      case None
      then obtain s' where "record_order t1 t2 r s = (s', Inr True)" "ok s'" "all_fills s' = all_fills s"
        "\<forall>c. order_of c s' = (if c = so_ClientOrderID r then Some (stamp_order t1 t2 r) else order_of c s)"
        using order_new [OF Cons.prems None] by blast
      then show ?thesis using Cons.IH [of s'] CallOrder None by (auto split: option.split)
    next
      case (Some r')
      then show ?thesis using order_dup [of r s t1 t2] Cons CallOrder by (auto split: option.split)
    qed
  next
    case (CallFill t f)
    show ?thesis
    proof (cases "fill_key f \<in> fill_key ` set (all_fills s)")
      case True
      then show ?thesis using fill_dup [OF True] Cons CallFill by (auto split: option.split)
    next
      case False
      then obtain s' where "record_fill t f s = (s', Inr True)" "ok s'"
        "all_fills s' = all_fills s @ [stamp_fill t f]" "\<forall>c. order_of c s' = order_of c s"
        using fill_new [OF Cons.prems False] by blast
      then show ?thesis using Cons.IH [of s'] CallFill False by (simp split: option.split)
    qed
  qed
qed (simp split: option.split)

end

lemma new_fills_distinct:
  "distinct (map fill_key (new_fills seen cs)) \<and> fill_key ` set (new_fills seen cs) \<inter> seen = {}"
  by (induction seen cs rule: new_fills.induct) (auto simp: stamp_fill_def split: if_splits)

lemma fill_known_iff:
  "(\<exists>e \<in> set fs. sf_Venue e = sf_Venue f \<and> sf_TradeID e = sf_TradeID f) \<longleftrightarrow> fill_key f \<in> fill_key ` set fs"
  by force

interpretation mem: order_store MemStore_RecordOrder MemStore_GetOrderByClientID MemStore_RecordFill ms_fills
  MemStore_FillsForOrder mem_ok
  by unfold_locales
    (auto simp: MemStore_RecordOrder_def MemStore_GetOrderByClientID_def MemStore_RecordFill_def
      MemStore_FillsForOrder_def mem_ok_def stamp_fill_def fill_known_iff split: option.splits)

lemma mem_ok_New [simp]: "mem_ok NewMemStore"
  by (simp add: mem_ok_def NewMemStore_def)

lemma NewMemStore_empty [simp]:
  "MemStore_GetOrderByClientID cid NewMemStore = None" "ms_fills NewMemStore = []"
  by (simp_all add: MemStore_GetOrderByClientID_def NewMemStore_def)

section \<open>Properties\<close>

text \<open>
  C10: recording is idempotent and the first writer wins. After any history of calls on a new
  store, looking up a client order id gives exactly the first order recorded under it (with its
  creation and update stamps), however often later calls, retries included, name the same id.
\<close>

theorem store_first_order_wins:
  "MemStore_GetOrderByClientID cid (replay MemStore_RecordOrder MemStore_RecordFill cs NewMemStore) =
     first_order cid cs"
  using mem.replay_first_wins [OF mem_ok_New, where c = cid and cs = cs] by simp

text \<open>
  C33: no fill is counted twice. After any history of calls on a new store the fills kept have
  pairwise different (venue, trade id) keys, are the first arrivals of their keys in order of
  arrival, and \<open>FillsForOrder\<close> lists exactly those of the order asked for.
\<close>

theorem store_fills_deduplicated:
  "\<exists>fs. fs = new_fills {} cs \<and> distinct (map fill_key fs) \<and>
     MemStore_FillsForOrder oid (replay MemStore_RecordOrder MemStore_RecordFill cs NewMemStore) =
       Inr (filter (\<lambda>f. sf_VenueOrderID f = oid) fs)"
  using mem.replay_first_wins [OF mem_ok_New, where c = "[]" and cs = cs] new_fills_distinct [of "{}" cs]
  by (simp add: mem.fills_for_eq)

end
