(* ===== verification/Vault_Secrets.thy ===== *)
theory Vault_Secrets
  imports Go_Prelude
begin

text \<open>
  Credential loading, rotation and redaction: \<open>internal/secrets/secrets.go\<close>. The vault is a
  service: \<open>VaultClient\<close> is a pair of functions on a vault state \<open>'v\<close>, an argument of the
  operations; the probe that confirms new credentials is a function that also runs on it.
\<close>

section \<open>Definitions\<close>

record credentials =
  cd_APIKey :: string
  cd_APISecret :: string
  cd_Version :: string
  cd_LeaseID :: string
  cd_LoadedAt :: gotime

record secret =
  sc_Data :: "(string, string) gomap"
  sc_Version :: string
  sc_LeaseID :: string
  sc_Renewable :: bool

record 'v vault_client =
  vt_Read :: "string \<Rightarrow> 'v \<Rightarrow> (go_error + secret) \<times> 'v"
  vt_Revoke :: "string \<Rightarrow> 'v \<Rightarrow> go_error option \<times> 'v"

record manager =
  mg_venue :: string
  mg_current :: "credentials option"

definition NewManager :: "string \<Rightarrow> manager" where
  "NewManager venue = \<lparr>mg_venue = venue, mg_current = None\<rparr>"

text \<open>A missing key of a Go map reads as the zero value.\<close>

definition data_value :: "secret \<Rightarrow> string" where
  "data_value s = (case map_of (sc_Data s) ''value'' of None \<Rightarrow> '''' | Some v \<Rightarrow> v)"

definition key_path :: "string \<Rightarrow> string" where
  "key_path venue = ''secret/exchange-connectors/'' @ venue @ ''/api-key''"

definition secret_path :: "string \<Rightarrow> string" where
  "secret_path venue = ''secret/exchange-connectors/'' @ venue @ ''/api-secret''"

definition Load ::
  "'v vault_client \<Rightarrow> gotime \<Rightarrow> manager \<Rightarrow> 'v \<Rightarrow> (go_error + credentials) \<times> manager \<times> 'v"
where
  "Load vc now m v =
     (case vt_Read vc (key_path (mg_venue m)) v of
        (Inl e, v1) \<Rightarrow> (Inl (ErrWrap ''load api-key: '' e), m, v1)
      | (Inr ks, v1) \<Rightarrow>
          (case vt_Read vc (secret_path (mg_venue m)) v1 of
             (Inl e, v2) \<Rightarrow> (Inl (ErrWrap ''load api-secret: '' e), m, v2)
           | (Inr ss, v2) \<Rightarrow>
               (let creds = \<lparr>cd_APIKey = data_value ks, cd_APISecret = data_value ss,
                             cd_Version = sc_Version ks, cd_LeaseID = sc_LeaseID ks, cd_LoadedAt = now\<rparr>
                in (Inr creds, m\<lparr>mg_current := Some creds\<rparr>, v2))))"

definition Current :: "manager \<Rightarrow> credentials option" where
  "Current m = mg_current m"

text \<open>A nil probe is \<open>None\<close>; a probe returns an error or nil.\<close>

definition Rotate ::
  "'v vault_client \<Rightarrow> gotime \<Rightarrow> (credentials \<Rightarrow> 'v \<Rightarrow> go_error option \<times> 'v) option \<Rightarrow> manager \<Rightarrow> 'v \<Rightarrow>
   (go_error + credentials) \<times> manager \<times> 'v"
where
  "Rotate vc now probe m v =
     (let old = Current m in
      case Load vc now m v of
        (Inl e, m1, v1) \<Rightarrow> (Inl e, m1, v1)
      | (Inr newCreds, m1, v1) \<Rightarrow>
          (case (case probe of None \<Rightarrow> (None, v1) | Some p \<Rightarrow> p newCreds v1) of
             (Some e, v2) \<Rightarrow> (Inl (ErrWrap ''probe failed: '' e), m1, v2)
           | (None, v2) \<Rightarrow>
               (case old of
                  Some oldc \<Rightarrow>
                    (if cd_LeaseID oldc \<noteq> '''' \<and> cd_LeaseID oldc \<noteq> cd_LeaseID newCreds
                     then (Inr newCreds, m1, snd (vt_Revoke vc (cd_LeaseID oldc) v2))
                     else (Inr newCreds, m1, v2))
                | None \<Rightarrow> (Inr newCreds, m1, v2))))"

definition RevokeOld :: "'v vault_client \<Rightarrow> manager \<Rightarrow> 'v \<Rightarrow> go_error option \<times> 'v" where
  "RevokeOld vc m v =
     (case mg_current m of
        None \<Rightarrow> (None, v)
      | Some c \<Rightarrow> if cd_LeaseID c = '''' then (None, v) else vt_Revoke vc (cd_LeaseID c) v)"

definition Redact :: "string \<Rightarrow> string" where
  "Redact s =
     (if length s = 0 then ''''
      else if length s \<le> 4 then replicate (length s) CHR ''*''
      else take 2 s @ replicate (length s - 4) CHR ''*'' @ drop (length s - 2) s)"

definition RedactCreds :: "credentials option \<Rightarrow> credentials option" where
  "RedactCreds c =
     (case c of None \<Rightarrow> None
      | Some c \<Rightarrow> Some \<lparr>cd_APIKey = Redact (cd_APIKey c), cd_APISecret = Redact (cd_APISecret c),
                        cd_Version = cd_Version c, cd_LeaseID = cd_LeaseID c, cd_LoadedAt = cd_LoadedAt c\<rparr>)"

record credential_record =
  ce_Venue :: string
  ce_KeyID :: string
  ce_VaultPath :: string
  ce_Version :: string
  ce_RotatedAt :: gotime

type_synonym credential_store = "credential_record list"

definition Record_cred ::
  "string \<Rightarrow> string \<Rightarrow> string \<Rightarrow> string \<Rightarrow> gotime \<Rightarrow> credential_store \<Rightarrow> credential_store"
where
  "Record_cred venue keyID vaultPath version rotatedAt rows =
     rows @ [\<lparr>ce_Venue = venue, ce_KeyID = keyID, ce_VaultPath = vaultPath, ce_Version = version,
              ce_RotatedAt = rotatedAt\<rparr>]"

definition Rows :: "credential_store \<Rightarrow> credential_record list" where
  "Rows rows = rows"

text \<open>The loop of \<open>Latest\<close> runs from the last index down; \<open>i\<close> is the number of rows not yet seen.\<close>

fun latest_from :: "nat \<Rightarrow> string \<Rightarrow> credential_store \<Rightarrow> credential_record option" where
  "latest_from 0 venue rows = None"
| "latest_from (Suc i) venue rows =
     (if ce_Venue (rows ! i) = venue then Some (rows ! i) else latest_from i venue rows)"

definition Latest :: "string \<Rightarrow> credential_store \<Rightarrow> credential_record option" where
  "Latest venue rows = latest_from (length rows) venue rows"

text \<open>\<open>None\<close> stands for a nil store or nil credentials.\<close>

definition RecordCredentials ::
  "credential_store option \<Rightarrow> string \<Rightarrow> credentials option \<Rightarrow> credential_store option"
where
  "RecordCredentials store venue c =
     (case (store, c) of
        (Some rows, Some c) \<Rightarrow>
          Some (Record_cred venue (Redact (cd_APIKey c))
            (''secret/exchange-connectors/'' @ venue @ ''/api-key'') (cd_Version c) (cd_LoadedAt c) rows)
      | _ \<Rightarrow> store)"

subsection \<open>The trace of a rotation\<close>

text \<open>
  What the other parties see, in order: the calls of the probe with the credentials it was given
  and its verdict, and the leases that \<open>Revoke\<close> was called with. The trace is kept beside the
  state of any vault and any probe.
\<close>

datatype vault_event = Probed credentials "go_error option" | Revoked string

definition logging_vault :: "'v vault_client \<Rightarrow> ('v \<times> vault_event list) vault_client" where
  "logging_vault vc =
     \<lparr>vt_Read = (\<lambda>p (v, tr). case vt_Read vc p v of (r, v') \<Rightarrow> (r, v', tr)),
      vt_Revoke = (\<lambda>l (v, tr). case vt_Revoke vc l v of (e, v') \<Rightarrow> (e, v', tr @ [Revoked l]))\<rparr>"

definition logging_probe ::
  "(credentials \<Rightarrow> 'v \<Rightarrow> go_error option \<times> 'v) \<Rightarrow> credentials \<Rightarrow> 'v \<times> vault_event list \<Rightarrow>
   go_error option \<times> 'v \<times> vault_event list"
where
  "logging_probe p c = (\<lambda>(v, tr). case p c v of (e, v') \<Rightarrow> (e, v', tr @ [Probed c e]))"

text \<open>The trace a rotation to \<open>c\<close> leaves: the accepting probe, if there is one, and then the old lease.\<close>

definition probe_accepted :: "'p option \<Rightarrow> credentials \<Rightarrow> vault_event list" where
  "probe_accepted probe c = (case probe of None \<Rightarrow> [] | Some _ \<Rightarrow> [Probed c None])"

definition old_lease_revoked :: "credentials option \<Rightarrow> credentials \<Rightarrow> vault_event list" where
  "old_lease_revoked old c =
     (case old of None \<Rightarrow> []
      | Some o1 \<Rightarrow> if cd_LeaseID o1 \<noteq> '''' \<and> cd_LeaseID o1 \<noteq> cd_LeaseID c then [Revoked (cd_LeaseID o1)] else [])"

text \<open>A fixed vault for evaluation: both paths hold a value, the lease is the vault state.\<close>

definition fixed_vault :: "string vault_client" where
  "fixed_vault =
     \<lparr>vt_Read = (\<lambda>p v. (Inr \<lparr>sc_Data = [(''value'', p)], sc_Version = ''1'', sc_LeaseID = v, sc_Renewable = True\<rparr>, v)),
      vt_Revoke = (\<lambda>l v. (None, v))\<rparr>"

section \<open>Rotation\<close>

lemma Load_logging:
  assumes "Load (logging_vault vc) now m (v, rv) = (r, m', v', rv')"
  shows "rv' = rv" "(\<exists>c. r = Inr c \<and> m' = m\<lparr>mg_current := Some c\<rparr> \<and> cd_LoadedAt c = now) \<or> (\<exists>e. r = Inl e) \<and> m' = m"
  using assms
  by (auto simp: Load_def logging_vault_def Let_def split: prod.splits sum.splits)

text \<open>The outcomes of a rotation, with the trace of each.\<close>

lemma Rotate_cases [consumes 1, case_names load_failed probe_failed rotated]:
  assumes "Rotate (logging_vault vc) now (map_option logging_probe probe) m (v, tr) = (r, m', v', tr')"
  obtains (load_failed) e where "fst (Load (logging_vault vc) now m (v, tr)) = Inl e" "r = Inl e" "m' = m" "tr' = tr"
  | (probe_failed) e c where "fst (Load (logging_vault vc) now m (v, tr)) = Inr c" "probe \<noteq> None"
      "r = Inl (ErrWrap ''probe failed: '' e)" "m' = m\<lparr>mg_current := Some c\<rparr>" "tr' = tr @ [Probed c (Some e)]"
  | (rotated) c where "fst (Load (logging_vault vc) now m (v, tr)) = Inr c" "r = Inr c" "m' = m\<lparr>mg_current := Some c\<rparr>"
      "tr' = tr @ probe_accepted probe c @ old_lease_revoked (mg_current m) c"
proof -
  obtain r1 m1 v1 tr1 where 1: "Load (logging_vault vc) now m (v, tr) = (r1, m1, v1, tr1)"
    by (cases "Load (logging_vault vc) now m (v, tr)") auto
  note L = Load_logging [OF 1]
  show thesis
  proof (cases r1)
    case (Inl e)
    then show thesis using assms 1 L by (intro load_failed [of e]) (auto simp: Rotate_def)
  next
    case (Inr c)
    have m1: "m1 = m\<lparr>mg_current := Some c\<rparr>" and l1: "tr1 = tr" using L Inr by auto
    show thesis
    proof (cases probe)
      case None
      then show thesis using assms 1 Inr m1 l1
        by (intro rotated [of c])
          (auto simp: Rotate_def Current_def logging_vault_def probe_accepted_def old_lease_revoked_def
            split: option.splits if_splits prod.splits)
    next
      case (Some p)
      obtain pe v2 where p: "p c v1 = (pe, v2)" by (cases "p c v1")
      show thesis
      proof (cases pe)
        case (Some e)
        then show thesis using assms 1 Inr p \<open>probe = Some p\<close> m1 l1
          by (intro probe_failed [of c e]) (auto simp: Rotate_def logging_probe_def)
      next
        case None
        then show thesis using assms 1 Inr p \<open>probe = Some p\<close> m1 l1
          by (intro rotated [of c])
            (auto simp: Rotate_def Current_def logging_probe_def logging_vault_def probe_accepted_def old_lease_revoked_def
              split: option.splits if_splits prod.splits)
      qed
    qed
  qed
qed

section \<open>Redaction\<close>

lemma latest_from_append: "i \<le> length rows \<Longrightarrow> latest_from i venue (rows @ rest) = latest_from i venue rows"
  by (induction i) (auto simp: nth_append)

lemma Latest_snoc:
  "Latest venue (rows @ [r]) = (if ce_Venue r = venue then Some r else Latest venue rows)"
  by (simp add: Latest_def latest_from_append)

lemma length_Redact: "length (Redact s) = length s"
  by (cases "length s \<le> 4") (auto simp: Redact_def)

section \<open>Properties\<close>

text \<open>
  C8: old credentials are revoked only after the new ones were accepted. For any vault and any
  probe, the trace of a call of \<open>Rotate\<close> is one of three. Reading the new credentials failed: the
  trace is empty and the error is returned. The probe was given the new credentials and rejected
  them: that is the whole trace, nothing is revoked, and the probe's error is returned. Or the
  probe, if there is one, was given the new credentials and accepted them, and after it exactly
  the lease of the previous credentials was revoked, if they had one and it is not the new
  lease; then the new credentials are current and returned.
\<close>

theorem rotate_revokes_only_after_probe:
  assumes "Rotate (logging_vault vc) now (map_option logging_probe probe) m (v, []) = (r, m', v', trace)"
  shows "case fst (Load (logging_vault vc) now m (v, [])) of
      Inl e \<Rightarrow> r = Inl e \<and> trace = []
    | Inr c \<Rightarrow>
        (\<exists>e. probe \<noteq> None \<and> r = Inl (ErrWrap ''probe failed: '' e) \<and> trace = [Probed c (Some e)]) \<or>
        (r = Inr c \<and> mg_current m' = Some c \<and>
         trace = probe_accepted probe c @ old_lease_revoked (mg_current m) c)"
  using assms by (cases rule: Rotate_cases) simp_all

text \<open>The same old credentials with a probe that accepts and with one that rejects.\<close>

theorem rotate_revokes_only_after_probe_witness:
  "let old = \<lparr>cd_APIKey = ''k'', cd_APISecret = ''s'', cd_Version = ''0'', cd_LeaseID = ''lease-0'', cd_LoadedAt = 3\<rparr>;
       m = \<lparr>mg_venue = ''binance'', mg_current = Some old\<rparr>;
       rotate = (\<lambda>probe. snd (snd (snd (Rotate (logging_vault fixed_vault) 7 (map_option logging_probe (Some probe)) m (''lease-1'', [])))))
   in (\<exists>c. rotate (\<lambda>c v. (None, v)) = [Probed c None, Revoked ''lease-0'']) \<and>
      (\<exists>c. rotate (\<lambda>c v. (Some (ErrMsg ''401''), v)) = [Probed c (Some (ErrMsg ''401''))])"
proof -
  let ?old = "\<lparr>cd_APIKey = ''k'', cd_APISecret = ''s'', cd_Version = ''0'', cd_LeaseID = ''lease-0'', cd_LoadedAt = 3\<rparr>"
  let ?m = "\<lparr>mg_venue = ''binance'', mg_current = Some ?old\<rparr>"
  let ?R = "\<lambda>probe. Rotate (logging_vault fixed_vault) 7 (map_option logging_probe (Some probe)) ?m (''lease-1'', [])"
  let ?good = "\<lambda>c v. (None, v)" and ?bad = "\<lambda>c v. (Some (ErrMsg ''401''), v)"
  obtain c where c: "fst (Load (logging_vault fixed_vault) 7 ?m (''lease-1'', [])) = Inr c" "cd_LeaseID c = ''lease-1''"
    by (simp add: Load_def logging_vault_def fixed_vault_def Let_def)
  have ok: "fst (?R ?good) = Inr c" and no: "fst (?R ?bad) = Inl (ErrWrap ''probe failed: '' (ErrMsg ''401''))"
    using c(1) by (auto simp: Rotate_def Current_def logging_probe_def Load_def logging_vault_def fixed_vault_def Let_def)
  obtain r1 m1 v1 t1 where 1: "?R ?good = (r1, m1, v1, t1)" by (cases "?R ?good") auto
  obtain r2 m2 v2 t2 where 2: "?R ?bad = (r2, m2, v2, t2)" by (cases "?R ?bad") auto
  have "t1 = [Probed c None, Revoked ''lease-0'']"
    using rotate_revokes_only_after_probe [OF 1] ok 1 c by (simp add: probe_accepted_def old_lease_revoked_def)
  moreover have "t2 = [Probed c (Some (ErrMsg ''401''))]"
    using rotate_revokes_only_after_probe [OF 2] no 2 c by simp
  ultimately show ?thesis unfolding Let_def 1 2 by simp
qed

text \<open>
  After a failed probe the unconfirmed credentials stay current and the lease of the working
  ones is lost. When a rotation fails in the probe and the next one succeeds, the lease revoked
  is the one of the unconfirmed credentials; the lease that was in use before the failure is
  revoked by neither call.
\<close>

theorem failed_probe_orphans_lease:
  assumes "mg_current m = Some old"
    and "Rotate (logging_vault vc) t1 (Some (logging_probe p1)) m (v, []) = (Inl (ErrWrap ''probe failed: '' e), m1, v1, tr1)"
    and "mg_current m1 = Some c1" "cd_LeaseID c1 \<noteq> cd_LeaseID old"
    and "Rotate (logging_vault vc) t2 (Some (logging_probe p2)) m1 (v1, tr1) = (Inr c2, m2, v2, tr2)"
  shows "mg_current m1 \<noteq> Some old \<and> Revoked (cd_LeaseID old) \<notin> set tr2"
proof -
  have 1: "Rotate (logging_vault vc) t1 (map_option logging_probe (Some p1)) m (v, []) =
      (Inl (ErrWrap ''probe failed: '' e), m1, v1, tr1)" using assms(2) by simp
  have 2: "Rotate (logging_vault vc) t2 (map_option logging_probe (Some p2)) m1 (v1, tr1) = (Inr c2, m2, v2, tr2)"
    using assms(5) by simp
  from 1 have "set tr1 \<subseteq> range (\<lambda>(c, e). Probed c e)" by (cases rule: Rotate_cases) auto
  moreover from 2 have "set tr2 \<subseteq> set tr1 \<union> {Probed c2 None, Revoked (cd_LeaseID c1)}"
    by (cases rule: Rotate_cases) (use assms(3) in \<open>auto simp: probe_accepted_def old_lease_revoked_def split: if_splits\<close>)
  ultimately show ?thesis using assms(3,4) by auto
qed

theorem failed_probe_orphans_lease_witness:
  "let old = \<lparr>cd_APIKey = ''k'', cd_APISecret = ''s'', cd_Version = ''0'', cd_LeaseID = ''lease-0'', cd_LoadedAt = 3\<rparr>;
       m = \<lparr>mg_venue = ''binance'', mg_current = Some old\<rparr>;
       bad = logging_probe (\<lambda>c v. (Some (ErrMsg ''401''), ''lease-2''));
       good = logging_probe (\<lambda>c v. (None, v));
       (r1, m1, w1) = Rotate (logging_vault fixed_vault) 7 (Some bad) m (''lease-1'', []);
       (r2, m2, v2, trace) = Rotate (logging_vault fixed_vault) 8 (Some good) m1 w1
   in last trace = Revoked ''lease-1'' \<and> Revoked ''lease-0'' \<notin> set trace"
proof -
  let ?old = "\<lparr>cd_APIKey = ''k'', cd_APISecret = ''s'', cd_Version = ''0'', cd_LeaseID = ''lease-0'', cd_LoadedAt = 3\<rparr>"
  let ?m = "\<lparr>mg_venue = ''binance'', mg_current = Some ?old\<rparr>"
  let ?bad = "\<lambda>c v. (Some (ErrMsg ''401''), ''lease-2'')" and ?good = "\<lambda>c v. (None, v)"
  let ?c = "\<lambda>l t. \<lparr>cd_APIKey = key_path ''binance'', cd_APISecret = secret_path ''binance'',
      cd_Version = ''1'', cd_LeaseID = l, cd_LoadedAt = t\<rparr>"
  let ?tr = "[Probed (?c ''lease-1'' 7) (Some (ErrMsg ''401''))]"
  have 1: "Rotate (logging_vault fixed_vault) 7 (Some (logging_probe ?bad)) ?m (''lease-1'', []) =
    (Inl (ErrWrap ''probe failed: '' (ErrMsg ''401'')), ?m\<lparr>mg_current := Some (?c ''lease-1'' 7)\<rparr>, ''lease-2'', ?tr)"
    by (simp add: Rotate_def Current_def Load_def logging_vault_def fixed_vault_def logging_probe_def data_value_def Let_def)
  have 2: "Rotate (logging_vault fixed_vault) 8 (Some (logging_probe ?good))
      (?m\<lparr>mg_current := Some (?c ''lease-1'' 7)\<rparr>) (''lease-2'', ?tr) =
    (Inr (?c ''lease-2'' 8), ?m\<lparr>mg_current := Some (?c ''lease-2'' 8)\<rparr>, ''lease-2'',
     ?tr @ [Probed (?c ''lease-2'' 8) None, Revoked ''lease-1''])"
    by (simp add: Rotate_def Current_def Load_def logging_vault_def fixed_vault_def logging_probe_def data_value_def Let_def)
  show ?thesis
    using failed_probe_orphans_lease [OF _ 1 _ _ 2] by (simp add: 1 2 [simplified] Let_def)
qed

text \<open>
  C38: what redaction shows. The result has the length of the secret, a secret of at most four
  bytes is masked completely, and of a longer one nothing but the first two and the last two
  bytes shows: two secrets that agree in length and in those bytes have the same redaction.
\<close>

theorem redact_noninterference:
  assumes "length s = length t" "length s \<le> 4 \<or> take 2 s = take 2 t \<and> drop (length s - 2) s = drop (length t - 2) t"
  shows "Redact s = Redact t \<and> length (Redact s) = length s \<and>
    (\<forall>i. 2 \<le> i \<longrightarrow> i + 2 < length s \<longrightarrow> Redact s ! i = CHR ''*'')"
proof (intro conjI allI impI)
  show "Redact s = Redact t" using assms by (auto simp: Redact_def)
  show "length (Redact s) = length s" by (rule length_Redact)
  fix i
  assume "2 \<le> i" "i + 2 < length s"
  then show "Redact s ! i = CHR ''*''" by (auto simp: Redact_def nth_append)
qed

theorem redact_noninterference_witness: "Redact ''AKxyzQ9'' = Redact ''AK123Q9''"
  using redact_noninterference [of "''AKxyzQ9''" "''AK123Q9''"] by simp

text \<open>
  The credential table holds no secret. \<open>RecordCredentials\<close> appends a row that names the
  vault path, the version and the redacted key; it is the row \<open>Latest\<close> returns for the venue,
  other venues are unaffected, and the stored rows do not depend on the API secret at all.
\<close>

theorem record_credentials_no_secret:
  "\<exists>rows'. RecordCredentials (Some rows) venue (Some c) = Some rows' \<and>
     Latest venue rows' = Some \<lparr>ce_Venue = venue, ce_KeyID = Redact (cd_APIKey c), ce_VaultPath = key_path venue,
       ce_Version = cd_Version c, ce_RotatedAt = cd_LoadedAt c\<rparr> \<and>
     (\<forall>w. w \<noteq> venue \<longrightarrow> Latest w rows' = Latest w rows) \<and>
     RecordCredentials (Some rows) venue (Some (c\<lparr>cd_APISecret := x\<rparr>)) = Some rows'"
  by (simp add: RecordCredentials_def Record_cred_def Latest_snoc key_path_def)

theorem record_credentials_no_secret_witness:
  "\<exists>rows'. RecordCredentials (Some []) ''kraken'' (Some \<lparr>cd_APIKey = ''AKxyzQ9'', cd_APISecret = ''s3cr3t'',
       cd_Version = ''v1'', cd_LeaseID = ''l1'', cd_LoadedAt = 5\<rparr>) = Some rows' \<and>
     map_option ce_KeyID (Latest ''kraken'' rows') = Some ''AK***Q9'' \<and> Latest ''binance'' rows' = None"
proof -
  have "Latest ''binance'' [] = None" by (simp add: Latest_def)
  moreover have "Redact ''AKxyzQ9'' = ''AK***Q9''" by (simp add: Redact_def)
  ultimately show ?thesis
    using record_credentials_no_secret [of "[]" "''kraken''" "\<lparr>cd_APIKey = ''AKxyzQ9'', cd_APISecret = ''s3cr3t'',
       cd_Version = ''v1'', cd_LeaseID = ''l1'', cd_LoadedAt = 5\<rparr>" "''''"] by auto
qed

end
