(* ===== verification/Audit_Log.thy ===== *)
theory Audit_Log
  imports Venue_Model
begin

text \<open>
  Audit emission: \<open>internal/audit/audit.go\<close> (the event, the in-memory sink) and
  \<open>internal/audit/async.go\<close> (the asynchronous sink, the Kafka sink, the log sink, the gRPC
  stub, trace propagation).

  \<open>Sink\<close> is an interface: the locale \<open>audit_sink\<close> says that an emitted event is taken, after
  all earlier ones, or counted as lost, or neither, as the outcome and the event decide. The in-memory and the Kafka sink interpret it
  directly. The asynchronous sink has a queue and a goroutine: its steps are the step relation
  \<open>async_step\<close>, over the operations \<open>Emit\<close>, \<open>Close\<close> and the iterations of \<open>loop\<close>.
  Kafka's writer, \<open>json.Marshal\<close>, SHA-256 and the time format are arguments.
\<close>

section \<open>Definitions\<close>

abbreviation EventOrderPlaced :: string where "EventOrderPlaced \<equiv> ''order_placed''"
abbreviation EventOrderCanceled :: string where "EventOrderCanceled \<equiv> ''order_canceled''"
abbreviation EventOrderUpdated :: string where "EventOrderUpdated \<equiv> ''order_updated''"
abbreviation EventFill :: string where "EventFill \<equiv> ''fill''"
abbreviation EventBalanceSnapshot :: string where "EventBalanceSnapshot \<equiv> ''balance_snapshot''"
abbreviation EventCredRotation :: string where "EventCredRotation \<equiv> ''credential_rotation''"

record 'd fill_detail =
  fd_TradeID :: string
  fd_Price :: 'd
  fd_Quantity :: 'd
  fd_Fee :: 'd
  fd_FeeAsset :: string
  fd_TS :: gotime

record 'd balance_detail =
  bd_Asset :: string
  bd_Free :: 'd
  bd_Locked :: 'd

record 'd audit_event =
  ae_Type :: string
  ae_Venue :: string
  ae_Timestamp :: gotime
  ae_OrderID :: string
  ae_ClientID :: string
  ae_Pair :: string
  ae_Side :: string
  ae_OrderType :: string
  ae_Quantity :: 'd
  ae_Price :: 'd
  ae_Fill :: "'d fill_detail option"
  ae_Balance :: "'d balance_detail option"
  ae_TraceID :: string

text \<open>A composite literal that sets only the type and the venue.\<close>

definition blank_event :: "'d dec_ops \<Rightarrow> string \<Rightarrow> string \<Rightarrow> 'd audit_event" where
  "blank_event D typ venue =
     \<lparr>ae_Type = typ, ae_Venue = venue, ae_Timestamp = 0, ae_OrderID = '''', ae_ClientID = '''', ae_Pair = '''',
      ae_Side = '''', ae_OrderType = '''', ae_Quantity = dec_nil D, ae_Price = dec_nil D, ae_Fill = None,
      ae_Balance = None, ae_TraceID = ''''\<rparr>"

text \<open>\<open>if event.Timestamp.IsZero() { event.Timestamp = time.Now().UTC() }\<close>\<close>

definition stamp_event :: "gotime \<Rightarrow> 'd audit_event \<Rightarrow> 'd audit_event" where
  "stamp_event now e = (if ae_Timestamp e = 0 then e\<lparr>ae_Timestamp := now\<rparr> else e)"

subsection \<open>InMemorySink\<close>

type_synonym 'd memory_sink = "'d audit_event list"

definition MemorySink_Emit :: "gotime \<Rightarrow> 'd audit_event \<Rightarrow> 'd memory_sink \<Rightarrow> 'd memory_sink" where
  "MemorySink_Emit now e s = s @ [stamp_event now e]"

definition MemorySink_Events :: "'d memory_sink \<Rightarrow> 'd audit_event list" where
  "MemorySink_Events s = s"

definition MemorySink_Count :: "'d memory_sink \<Rightarrow> nat" where
  "MemorySink_Count s = length s"

subsection \<open>KafkaSink\<close>

record kafka_envelope =
  ke_schema_version :: string
  ke_id :: string
  ke_ts :: string
  ke_source_service :: string
  ke_actor_id :: string
  ke_action :: string
  ke_target_type :: string
  ke_target_id :: string
  ke_payload_hash :: string
  ke_payload :: string

text \<open>
  The libraries the sink calls: \<open>json.Marshal\<close> of the event and of the envelope (\<open>None\<close> is an
  error), the hexadecimal SHA-256 sum, the RFC 3339 format, and \<open>WriteMessages\<close> with a key.
\<close>

record 'd kafka_env =
  kv_marshal_event :: "'d audit_event \<Rightarrow> string option"
  kv_marshal_envelope :: "kafka_envelope \<Rightarrow> string option"
  kv_sha256_hex :: "string \<Rightarrow> string"
  kv_format :: "gotime \<Rightarrow> string"

record kafka_sink =
  ks_venue :: string
  ks_dropped :: int64
  ks_written :: "(string \<times> string) list"   \<comment> \<open>the key and the value of every message the writer took\<close>

definition NewKafkaSink :: "string list \<Rightarrow> string \<Rightarrow> go_error + kafka_sink" where
  "NewKafkaSink brokers venue =
     (if length brokers = 0 then Inl ErrNoBrokers
      else Inr \<lparr>ks_venue = venue, ks_dropped = 0, ks_written = []\<rparr>)"

definition envelope_id :: "'d kafka_env \<Rightarrow> 'd audit_event \<Rightarrow> string" where
  "envelope_id K e =
     (if ae_OrderID e = '''' then ae_Venue e @ ''-'' @ kv_format K (ae_Timestamp e) else ae_OrderID e)"

definition audit_envelope :: "'d kafka_env \<Rightarrow> string \<Rightarrow> 'd audit_event \<Rightarrow> kafka_envelope" where
  "audit_envelope K payload e =
     \<lparr>ke_schema_version = ''1'', ke_id = envelope_id K e, ke_ts = kv_format K (ae_Timestamp e),
      ke_source_service = ''exchange-connectors'', ke_actor_id = ''exchange-connectors'',
      ke_action = ae_Type e, ke_target_type = ''order'', ke_target_id = ae_OrderID e,
      ke_payload_hash = ''sha256:'' @ kv_sha256_hex K payload, ke_payload = payload\<rparr>"

text \<open>\<open>write_ok\<close> is whether \<open>WriteMessages\<close> returns nil.\<close>

definition KafkaSink_Emit ::
  "'d kafka_env \<Rightarrow> bool \<Rightarrow> gotime \<Rightarrow> 'd audit_event \<Rightarrow> kafka_sink \<Rightarrow> kafka_sink"
where
  "KafkaSink_Emit K write_ok now e0 s =
     (let e = stamp_event now e0 in
      case kv_marshal_event K e of
        None \<Rightarrow> s
      | Some payload \<Rightarrow>
          (case kv_marshal_envelope K (audit_envelope K payload e) of
             None \<Rightarrow> s
           | Some body \<Rightarrow>
               if write_ok then s\<lparr>ks_written := ks_written s @ [(envelope_id K e, body)]\<rparr>
               else s\<lparr>ks_dropped := add64 (ks_dropped s) 1\<rparr>))"

text \<open>The result of closing the writer, when there is one.\<close>

definition KafkaSink_Close :: "go_error option option \<Rightarrow> go_error option" where
  "KafkaSink_Close writer_close = (case writer_close of None \<Rightarrow> None | Some err \<Rightarrow> err)"

definition KafkaSink_Dropped :: "kafka_sink \<Rightarrow> int64" where
  "KafkaSink_Dropped s = ks_dropped s"

subsection \<open>Trace propagation, the gRPC stub and the log sink\<close>

text \<open>\<open>None\<close> is a nil propagator or a nil sink; \<open>Extract\<close> is the propagator applied to the context.\<close>

definition EmitWithTrace ::
  "('d audit_event \<Rightarrow> 's \<Rightarrow> 's) option \<Rightarrow> string option \<Rightarrow> 'd audit_event \<Rightarrow> 's \<Rightarrow> 's"
where
  "EmitWithTrace sink extracted e s =
     (let e' = (case extracted of None \<Rightarrow> e | Some tid \<Rightarrow> e\<lparr>ae_TraceID := tid\<rparr>)
      in case sink of None \<Rightarrow> s | Some emit \<Rightarrow> emit e' s)"

text \<open>The stub only increments \<open>audit_events_emitted_total\<close>: the result is the labels.\<close>

definition gRPCClient_Emit :: "string \<Rightarrow> 'd audit_event \<Rightarrow> (string \<times> string) list \<Rightarrow> (string \<times> string) list" where
  "gRPCClient_Emit venue e counts = counts @ [(venue, ae_Type e)]"

definition logSink_Emit :: "'d audit_event \<Rightarrow> string list \<Rightarrow> string list" where
  "logSink_Emit e lines =
     lines @ [''audit: type='' @ ae_Type e @ '' venue='' @ ae_Venue e @ '' order='' @ ae_OrderID e]"

subsection \<open>AsyncSink\<close>

text \<open>
  \<open>as_busy\<close> is the event the goroutine has received and not yet handed to the delegate;
  \<open>as_chan_closed\<close> is the state of the channel, which \<open>Close\<close> closes after it has released the
  mutex. \<open>as_delegate\<close> is whether the delegate is not nil, \<open>as_delivered\<close> what it was given, and
  \<open>as_counted\<close> the events counted by \<open>audit_events_emitted_total\<close>. The capacity is a \<open>nat\<close>:
  \<open>make(chan Event, n)\<close> panics for a negative \<open>n\<close>.
\<close>

record 'd async_sink =
  as_cap :: nat
  as_queue :: "'d audit_event list"
  as_busy :: "'d audit_event option"
  as_delegate :: bool
  as_delivered :: "'d audit_event list"
  as_counted :: "'d audit_event list"
  as_closed :: bool
  as_chan_closed :: bool
  as_venue :: string
  as_dropped :: int64

definition NewAsyncSink :: "bool \<Rightarrow> nat \<Rightarrow> string \<Rightarrow> 'd async_sink" where
  "NewAsyncSink delegate queueSize venue =
     \<lparr>as_cap = queueSize, as_queue = [], as_busy = None, as_delegate = delegate, as_delivered = [],
      as_counted = [], as_closed = False,
      as_chan_closed = False, as_venue = venue, as_dropped = 0\<rparr>"

text \<open>
  The \<open>select\<close> of \<open>Emit\<close>: sending on a closed channel panics (\<open>None\<close>); a send succeeds while the
  buffer has room, or, on an unbuffered channel, when the goroutine is parked at the receive
  (\<open>parked\<close>); otherwise the default branch counts a drop.
\<close>

definition AsyncSink_Emit ::
  "bool \<Rightarrow> gotime \<Rightarrow> 'd audit_event \<Rightarrow> 'd async_sink \<Rightarrow> 'd async_sink option"
where
  "AsyncSink_Emit parked now e0 s =
     (let e = stamp_event now e0 in
      if as_chan_closed s then None
      else if length (as_queue s) < as_cap s then Some (s\<lparr>as_queue := as_queue s @ [e]\<rparr>)
      else if as_cap s = 0 \<and> parked \<and> as_busy s = None then Some (s\<lparr>as_busy := Some e\<rparr>)
      else Some (s\<lparr>as_dropped := add64 (as_dropped s) 1\<rparr>))"

text \<open>One receive and one delivery of \<open>loop\<close>; \<open>None\<close> when the goroutine cannot take that step.\<close>

definition loop_receive :: "'d async_sink \<Rightarrow> 'd async_sink option" where
  "loop_receive s =
     (case (as_busy s, as_queue s) of
        (None, e # q) \<Rightarrow> Some (s\<lparr>as_busy := Some e, as_queue := q\<rparr>)
      | _ \<Rightarrow> None)"

definition loop_deliver :: "'d async_sink \<Rightarrow> 'd async_sink option" where
  "loop_deliver s =
     (case as_busy s of
        Some e \<Rightarrow>
          Some (s\<lparr>as_busy := None,
                   as_delivered := (if as_delegate s then as_delivered s @ [e] else as_delivered s),
                   as_counted := as_counted s @ [e]\<rparr>)
      | None \<Rightarrow> None)"

text \<open>The goroutine returns when the channel is closed and drained.\<close>

definition loop_done :: "'d async_sink \<Rightarrow> bool" where
  "loop_done s \<longleftrightarrow> as_chan_closed s \<and> as_queue s = [] \<and> as_busy s = None"

text \<open>The two parts of \<open>Close\<close>: the flag under the mutex, then the channel by the first caller only.\<close>

definition Close_flag :: "'d async_sink \<Rightarrow> 'd async_sink \<times> bool" where
  "Close_flag s = (if as_closed s then (s, False) else (s\<lparr>as_closed := True\<rparr>, True))"

definition Close_chan :: "'d async_sink \<Rightarrow> 'd async_sink" where
  "Close_chan s = s\<lparr>as_chan_closed := True\<rparr>"

definition AsyncSink_Close :: "'d async_sink \<Rightarrow> 'd async_sink" where
  "AsyncSink_Close s = (case Close_flag s of (s', first) \<Rightarrow> if first then Close_chan s' else s')"

definition AsyncSink_Dropped :: "'d async_sink \<Rightarrow> int64" where
  "AsyncSink_Dropped s = as_dropped s"

text \<open>
  The sink with its goroutine and any number of callers: the second component of the state is
  the list of all events emitted so far, stamped; the third says that the one caller that set
  the flag has still to close the channel.
\<close>

type_synonym 'd async_sys = "'d async_sink \<times> 'd audit_event list \<times> bool"

inductive async_step :: "'d async_sys \<Rightarrow> 'd async_sys \<Rightarrow> bool" where
  emit: "AsyncSink_Emit parked now e s = Some s' \<Longrightarrow>
    async_step (s, emitted, p) (s', emitted @ [stamp_event now e], p)"
| receive: "loop_receive s = Some s' \<Longrightarrow> async_step (s, emitted, p) (s', emitted, p)"
| deliver: "loop_deliver s = Some s' \<Longrightarrow> async_step (s, emitted, p) (s', emitted, p)"
| close_flag: "Close_flag s = (s', first) \<Longrightarrow> async_step (s, emitted, p) (s', emitted, p \<or> first)"
| close_chan: "async_step (s, emitted, True) (Close_chan s, emitted, False)"

inductive async_reachable :: "bool \<Rightarrow> nat \<Rightarrow> string \<Rightarrow> 'd async_sys \<Rightarrow> bool" for d n v where
  start: "async_reachable d n v (NewAsyncSink d n v, [], False)"
| step: "async_reachable d n v s \<Longrightarrow> async_step s t \<Longrightarrow> async_reachable d n v t"

inductive_cases async_stepE: "async_step (s, em, p) t"

text \<open>What is not lost, in the order it entered.\<close>

definition kept :: "'d async_sink \<Rightarrow> 'd audit_event list" where
  "kept s = as_counted s @ (case as_busy s of None \<Rightarrow> [] | Some e \<Rightarrow> [e]) @ as_queue s"

definition async_inv :: "bool \<Rightarrow> nat \<Rightarrow> 'd async_sys \<Rightarrow> bool" where
  "async_inv d n x \<longleftrightarrow> (case x of (s, emitted, p) \<Rightarrow>
     as_cap s = n \<and> as_delegate s = d \<and> as_delivered s = (if d then as_counted s else []) \<and> length (as_queue s) \<le> n \<and> subseq (kept s) emitted \<and>
     as_dropped s = wrap64 (int (length emitted) - int (length (kept s))) \<and>
     (p \<longrightarrow> as_closed s \<and> \<not> as_chan_closed s) \<and> (as_closed s \<longrightarrow> p \<or> as_chan_closed s) \<and>
     (as_chan_closed s \<longrightarrow> as_closed s))"

section \<open>The sink interface\<close>

text \<open>
  A call of \<open>Emit\<close> comes with an outcome of the medium behind the sink; the event, stamped, is
  taken, or counted as lost, or neither, and which of these depends on the outcome and the event.
\<close>

locale audit_sink =
  fixes emit :: "'o \<Rightarrow> gotime \<Rightarrow> 'd audit_event \<Rightarrow> 's \<Rightarrow> 's"
    and taken :: "'s \<Rightarrow> 'm list"
    and lost :: "'s \<Rightarrow> int64"
    and image :: "'d audit_event \<Rightarrow> 'm"
    and accepts :: "'o \<Rightarrow> 'd audit_event \<Rightarrow> bool"
    and refuses :: "'o \<Rightarrow> 'd audit_event \<Rightarrow> bool"
  assumes emit_taken: "accepts x (stamp_event t e) \<Longrightarrow>
      taken (emit x t e s) = taken s @ [image (stamp_event t e)] \<and> lost (emit x t e s) = lost s"
    and emit_lost: "refuses x (stamp_event t e) \<Longrightarrow>
      taken (emit x t e s) = taken s \<and> lost (emit x t e s) = add64 (lost s) 1"
    and emit_neither: "\<not> accepts x (stamp_event t e) \<Longrightarrow> \<not> refuses x (stamp_event t e) \<Longrightarrow>
      taken (emit x t e s) = taken s \<and> lost (emit x t e s) = lost s"
    and exclusive: "accepts x e \<Longrightarrow> \<not> refuses x e"
begin

lemma emits_accounted:
  "taken (fold (\<lambda>(x, t, e). emit x t e) es s) =
     taken s @ [image (stamp_event t e). (x, t, e) \<leftarrow> es, accepts x (stamp_event t e)] \<and>
   lost (fold (\<lambda>(x, t, e). emit x t e) es s) =
     (add64 1 ^^ length (filter (\<lambda>(x, t, e). refuses x (stamp_event t e)) es)) (lost s)"
proof (induction es arbitrary: s)
  case (Cons y es)
  obtain x t e where y: "y = (x, t, e)" by (cases y)
  consider "accepts x (stamp_event t e)" | "refuses x (stamp_event t e)"
    | "\<not> accepts x (stamp_event t e)" "\<not> refuses x (stamp_event t e)" by blast
  then show ?case
  proof cases
    case 1
    then show ?thesis using Cons.IH [of "emit x t e s"] emit_taken [OF 1] exclusive [OF 1] y by simp
  next
    case 2
    have c: "add64 (lost s) 1 = add64 1 (lost s)" by (simp add: add64_def add.commute)
    have "\<not> accepts x (stamp_event t e)" using exclusive 2 by blast
    then show ?thesis using Cons.IH [of "emit x t e s"] emit_lost [OF 2, of s] 2 y by (simp add: c funpow_swap1)
  next
    case 3
    then show ?thesis using Cons.IH [of "emit x t e s"] emit_neither [OF 3] y by simp
  qed
qed simp

end

interpretation mem_sink: audit_sink "\<lambda>x :: unit. MemorySink_Emit" "\<lambda>s. s" "\<lambda>s. 0" "\<lambda>e. e" "\<lambda>x e. True" "\<lambda>x e. False"
  by unfold_locales (simp_all add: MemorySink_Emit_def)

text \<open>The body of the message, when both \<open>json.Marshal\<close> calls succeed.\<close>

definition kafka_body :: "'d kafka_env \<Rightarrow> 'd audit_event \<Rightarrow> string option" where
  "kafka_body K e =
     (case kv_marshal_event K e of
        None \<Rightarrow> None
      | Some payload \<Rightarrow> kv_marshal_envelope K (audit_envelope K payload e))"

lemma KafkaSink_Emit_eq:
  "KafkaSink_Emit K ok t e s =
     (case kafka_body K (stamp_event t e) of
        None \<Rightarrow> s
      | Some body \<Rightarrow>
          if ok then s\<lparr>ks_written := ks_written s @ [(envelope_id K (stamp_event t e), body)]\<rparr>
          else s\<lparr>ks_dropped := add64 (ks_dropped s) 1\<rparr>)"
  by (simp add: KafkaSink_Emit_def kafka_body_def Let_def split: option.split)

interpretation kafka: audit_sink "KafkaSink_Emit K" ks_written ks_dropped
    "\<lambda>e. (envelope_id K e, the (kafka_body K e))" "\<lambda>ok e. kafka_body K e \<noteq> None \<and> ok" "\<lambda>ok e. kafka_body K e \<noteq> None \<and> \<not> ok"
  for K :: "'d kafka_env"
  by unfold_locales (auto simp: KafkaSink_Emit_eq split: option.splits)

section \<open>The asynchronous sink\<close>

lemma kept_simps [simp]:
  "kept (s\<lparr>as_queue := q\<rparr>) = as_counted s @ (case as_busy s of None \<Rightarrow> [] | Some e \<Rightarrow> [e]) @ q"
  "kept (s\<lparr>as_dropped := n\<rparr>) = kept s"
  "kept (s\<lparr>as_closed := b\<rparr>) = kept s"
  "kept (s\<lparr>as_chan_closed := b\<rparr>) = kept s"
  by (simp_all add: kept_def)

lemma loop_receive_kept: "loop_receive s = Some s' \<Longrightarrow> kept s' = kept s"
  by (auto simp: loop_receive_def kept_def split: option.splits list.splits)

lemma loop_deliver_kept: "loop_deliver s = Some s' \<Longrightarrow> kept s' = kept s"
  by (auto simp: loop_deliver_def kept_def split: option.splits)

lemma wrap64_add1: "add64 (wrap64 x) 1 = wrap64 (x + 1)"
  by (simp add: add64_def wrap64_def) (simp add: algebra_simps mod_simps)

text \<open>\<open>Emit\<close> keeps the event or counts one more drop.\<close>

lemma AsyncSink_Emit_cases:
  assumes "AsyncSink_Emit parked t e s = Some s'" "length (as_queue s) \<le> as_cap s"
  obtains (kept) "kept s' = kept s @ [stamp_event t e]" "as_dropped s' = as_dropped s"
      "length (as_queue s') \<le> as_cap s"
    | (dropped) "s' = s\<lparr>as_dropped := add64 (as_dropped s) 1\<rparr>"
  using assms
  by (auto simp: AsyncSink_Emit_def Let_def kept_def split: if_splits option.splits)

lemma AsyncSink_Emit_frame:
  assumes "AsyncSink_Emit parked t e s = Some s'"
  shows "as_cap s' = as_cap s \<and> as_delegate s' = as_delegate s \<and> as_delivered s' = as_delivered s \<and>
    as_counted s' = as_counted s \<and> as_closed s' = as_closed s \<and> as_chan_closed s' = as_chan_closed s"
  using assms by (auto simp: AsyncSink_Emit_def Let_def split: if_splits)

lemma subseq_snoc: "subseq xs ys \<Longrightarrow> subseq (xs @ [a]) (ys @ [a])"
  by (simp add: list_emb_append_mono)

lemma subseq_weaken: "subseq xs ys \<Longrightarrow> subseq xs (ys @ zs)"
  by (rule subseq_order.order_trans) auto

lemma async_inv_emit:
  assumes inv: "async_inv d n (s, em, p)" and e: "AsyncSink_Emit parked t e s = Some s'"
  shows "async_inv d n (s', em @ [stamp_event t e], p)"
proof -
  have q: "length (as_queue s) \<le> as_cap s" using inv by (simp add: async_inv_def)
  note fr = AsyncSink_Emit_frame [OF e]
  from e q show ?thesis
  proof (cases rule: AsyncSink_Emit_cases)
    case kept
    then show ?thesis using inv fr by (simp add: async_inv_def subseq_snoc)
  next
    case dropped
    then show ?thesis using inv by (auto simp: async_inv_def subseq_weaken wrap64_add1 algebra_simps)
  qed
qed

lemma async_inv_loop:
  assumes "async_inv d n (s, em, p)" "loop_receive s = Some s' \<or> loop_deliver s = Some s'"
  shows "async_inv d n (s', em, p)"
proof -
  have "kept s' = kept s" using assms(2) loop_receive_kept loop_deliver_kept by metis
  then show ?thesis using assms
    by (auto simp: async_inv_def loop_receive_def loop_deliver_def split: option.splits list.splits)
qed

lemma async_inv_step: "async_step x y \<Longrightarrow> async_inv d n x \<Longrightarrow> async_inv d n y"
proof (induction rule: async_step.induct)
  case (close_flag s s' first emitted p)
  then show ?case by (auto simp: async_inv_def Close_flag_def split: if_splits)
next
  case (close_chan s emitted)
  then show ?case by (simp add: async_inv_def Close_chan_def)
qed (auto intro: async_inv_emit async_inv_loop)

lemma async_inv_reachable: "async_reachable d n v x \<Longrightarrow> async_inv d n x"
proof (induction rule: async_reachable.induct)
  case start
  then show ?case by (simp add: async_inv_def NewAsyncSink_def kept_def in_int64_def)
qed (rule async_inv_step)

text \<open>Left alone, the goroutine empties the queue: the number of its steps that remain.\<close>

fun drain :: "nat \<Rightarrow> 'd async_sink \<Rightarrow> 'd async_sink" where
  "drain 0 s = s"
| "drain (Suc k) s =
     (case loop_deliver s of Some s' \<Rightarrow> drain k s'
      | None \<Rightarrow> (case loop_receive s of Some s' \<Rightarrow> drain k s' | None \<Rightarrow> s))"

lemma drain_kept: "kept (drain k s) = kept s"
  by (induction k arbitrary: s)
    (auto simp: loop_receive_kept loop_deliver_kept split: option.split)

lemma drain_steps: "async_step\<^sup>*\<^sup>* (s, em, p) (drain k s, em, p)"
proof (induction k arbitrary: s)
  case (Suc k)
  then show ?case
    by (auto split: option.split intro: converse_rtranclp_into_rtranclp async_step.intros)
qed simp

lemma drain_empties:
  "2 * length (as_queue s) + (if as_busy s = None then 0 else 1) \<le> k \<Longrightarrow>
   as_queue (drain k s) = [] \<and> as_busy (drain k s) = None"
proof (induction k arbitrary: s)
  case (Suc k)
  then show ?case
    by (cases "as_busy s"; cases "as_queue s")
      (auto simp: loop_deliver_def loop_receive_def split: option.split)
qed (auto split: if_splits)

lemma async_drains:
  assumes "async_inv d n (s, em, p)"
  obtains s' where "async_step\<^sup>*\<^sup>* (s, em, p) (s', em, p)" "async_inv d n (s', em, p)"
    "as_counted s' = kept s"
proof -
  define s' where "s' = drain (2 * length (as_queue s) + 1) s"
  have steps: "async_step\<^sup>*\<^sup>* (s, em, p) (s', em, p)" unfolding s'_def by (rule drain_steps)
  then have "async_inv d n (s', em, p)"
    using assms by (induction rule: rtranclp_induct) (auto intro: async_inv_step)
  moreover have "as_queue s' = [] \<and> as_busy s' = None" unfolding s'_def by (rule drain_empties) simp
  moreover have "kept s' = kept s" unfolding s'_def by (rule drain_kept)
  ultimately show ?thesis using steps by (intro that) (simp_all add: kept_def [of s'])
qed

section \<open>Properties\<close>

text \<open>
  C7: in every state the asynchronous sink can reach, with any number of callers and at any
  point of the goroutine and of \<open>Close\<close>, the events counted, in hand and queued are, in this
  order, a subsequence of the events emitted, all the others are counted in \<open>Dropped()\<close> (modulo
  \<open>2 ^ 64\<close>), the queue is within its capacity and the delegate has been given exactly the
  events counted; and from there the goroutine alone reaches a state in which everything kept
  has been counted and given to the delegate.
\<close>

theorem async_sink_conservation:
  assumes "async_reachable d n v (s, emitted, p)"
  shows "subseq (kept s) emitted \<and>
    AsyncSink_Dropped s = wrap64 (int (length emitted) - int (length (kept s))) \<and>
    length (as_queue s) \<le> n \<and> as_delivered s = (if d then as_counted s else []) \<and>
    (\<exists>s'. async_step\<^sup>*\<^sup>* (s, emitted, p) (s', emitted, p) \<and> as_counted s' = kept s \<and>
       as_delivered s' = (if d then kept s else []))"
proof -
  have inv: "async_inv d n (s, emitted, p)" using async_inv_reachable [OF assms] .
  then obtain s' where "async_step\<^sup>*\<^sup>* (s, emitted, p) (s', emitted, p)" "async_inv d n (s', emitted, p)"
    "as_counted s' = kept s" by (rule async_drains)
  then have "\<exists>s'. async_step\<^sup>*\<^sup>* (s, emitted, p) (s', emitted, p) \<and> as_counted s' = kept s \<and>
      as_delivered s' = (if d then kept s else [])"
    by (intro exI [of _ s']) (simp add: async_inv_def)
  then show ?thesis using inv by (simp add: async_inv_def AsyncSink_Dropped_def)
qed

definition sample_event :: "int audit_event" where
  "sample_event = (blank_event dec_int EventFill ''v'')\<lparr>ae_Timestamp := 7\<rparr>"

lemma sample_reachable:
  "async_reachable True 1 ''v''
     ((NewAsyncSink True 1 ''v'')\<lparr>as_queue := [sample_event], as_dropped := 1\<rparr>, [sample_event, sample_event], False)"
proof -
  let ?s = "NewAsyncSink True 1 ''v'' :: int async_sink"
  have st: "stamp_event 7 sample_event = sample_event" by (simp add: stamp_event_def sample_event_def)
  have "AsyncSink_Emit False 7 sample_event ?s = Some (?s\<lparr>as_queue := [sample_event]\<rparr>)"
    by (simp add: AsyncSink_Emit_def NewAsyncSink_def st)
  from async_reachable.step [OF async_reachable.start async_step.emit [OF this]]
  have one: "async_reachable True 1 ''v'' (?s\<lparr>as_queue := [sample_event]\<rparr>, [sample_event], False)"
    by (simp add: st)
  have "AsyncSink_Emit False 7 sample_event (?s\<lparr>as_queue := [sample_event]\<rparr>) =
      Some (?s\<lparr>as_queue := [sample_event], as_dropped := 1\<rparr>)"
    by (simp add: AsyncSink_Emit_def NewAsyncSink_def st add64_def wrap64_def)
  from async_reachable.step [OF one async_step.emit [OF this]] show ?thesis by (simp add: st)
qed

text \<open>A queue of one place with two events emitted: the second is counted as dropped.\<close>

theorem async_sink_conservation_witness:
  "\<exists>s. async_reachable True 1 ''v'' (s, [sample_event, sample_event], False) \<and>
     AsyncSink_Dropped s = 1 \<and> subseq (kept s) [sample_event, sample_event]"
  using async_sink_conservation [OF sample_reachable] sample_reachable
  by (intro exI [of _ "(NewAsyncSink True 1 ''v'')\<lparr>as_queue := [sample_event], as_dropped := 1\<rparr>"])
    (simp add: AsyncSink_Dropped_def)

text \<open>
  Once the channel is closed, \<open>Emit\<close> panics whatever the queue holds and whatever
  \<open>closed\<close> says, since \<open>Emit\<close> reads no flag; a second \<open>Close\<close> changes nothing.
\<close>

theorem emit_after_close_panics:
  "AsyncSink_Emit parked now e (AsyncSink_Close (NewAsyncSink d n v)) = None \<and>
   AsyncSink_Emit parked now e (Close_chan s) = None \<and>
   AsyncSink_Close (AsyncSink_Close s) = AsyncSink_Close s"
  by (simp add: AsyncSink_Emit_def AsyncSink_Close_def Close_flag_def Close_chan_def NewAsyncSink_def)

text \<open>
  C34: what becomes of every event given to the Kafka sink. Over any sequence of \<open>Emit\<close> calls with
  any outcomes of the writer, the messages it takes are, in order, the envelopes of exactly the
  events that marshal and whose write succeeds, each under the order id of the event or, when there
  is none, the venue and time; \<open>Dropped()\<close> grows by one for exactly the events that marshal and
  whose write fails. An event that does not marshal is neither written nor counted.
\<close>

theorem kafka_sink_accounts:
  "ks_written (fold (\<lambda>(ok, t, e). KafkaSink_Emit K ok t e) es s) =
     ks_written s @ [(envelope_id K (stamp_event t e), the (kafka_body K (stamp_event t e))).
       (ok, t, e) \<leftarrow> es, kafka_body K (stamp_event t e) \<noteq> None \<and> ok] \<and>
   KafkaSink_Dropped (fold (\<lambda>(ok, t, e). KafkaSink_Emit K ok t e) es s) =
     (add64 1 ^^ length (filter (\<lambda>(ok, t, e). kafka_body K (stamp_event t e) \<noteq> None \<and> \<not> ok) es)) (KafkaSink_Dropped s)"
  using kafka.emits_accounted [of K es s] by (simp add: KafkaSink_Dropped_def)

definition sample_kafka :: "int kafka_env" where
  "sample_kafka = \<lparr>kv_marshal_event = \<lambda>e. Some (ae_Type e), kv_marshal_envelope = \<lambda>v. Some (ke_payload v),
     kv_sha256_hex = \<lambda>s. s, kv_format = \<lambda>t. ''t''\<rparr>"

text \<open>Three events: written, dropped, and one that does not marshal.\<close>

theorem kafka_sink_accounts_witness:
  "let K = sample_kafka\<lparr>kv_marshal_event := \<lambda>e. if ae_Timestamp e = 9 then None else Some (ae_Type e)\<rparr>;
       s' = fold (\<lambda>(ok, t, e). KafkaSink_Emit K ok t e)
              [(True, 1, sample_event), (False, 1, sample_event), (True, 1, sample_event\<lparr>ae_Timestamp := 9\<rparr>)]
              \<lparr>ks_venue = ''v'', ks_dropped = 0, ks_written = []\<rparr>
   in ks_written s' = [(''v-t'', ''fill'')] \<and> KafkaSink_Dropped s' = 1"
proof -
  let ?K = "sample_kafka\<lparr>kv_marshal_event := \<lambda>e. if ae_Timestamp e = 9 then None else Some (ae_Type e)\<rparr>"
  let ?es = "[(True, 1, sample_event), (False, 1, sample_event), (True, 1, sample_event\<lparr>ae_Timestamp := 9\<rparr>)]"
  note k = kafka_sink_accounts [of ?K ?es "\<lparr>ks_venue = ''v'', ks_dropped = 0, ks_written = []\<rparr>"]
  show ?thesis unfolding Let_def k [THEN conjunct1] k [THEN conjunct2]
    by (simp add: sample_kafka_def kafka_body_def audit_envelope_def envelope_id_def sample_event_def
        stamp_event_def blank_event_def KafkaSink_Dropped_def in_int64_def)
qed

end
