(* ===== verification/Event_Bus.thy ===== *)
theory Event_Bus
  imports Venue_Model
begin

text \<open>
  The event bus of \<open>internal/events/events.go\<close>: fill and balance events, the Kafka publisher,
  and the publication with bounded retries and a dead-letter handler.

  \<open>Publisher\<close> is an interface. The locale \<open>publisher\<close> states what a caller relies on (a
  successful \<open>Publish\<close> adds one message to what the broker acknowledged, a failed one none) and
  is interpreted on the Kafka publisher. The broker, the context and the clock are the
  environment: \<open>pe_write n\<close> is what the \<open>n\<close>-th \<open>WriteMessages\<close> of the process returns,
  \<open>pe_done n\<close> what \<open>ctx.Err()\<close> is if the \<open>n\<close>-th \<open>select\<close> takes the branch of the
  context.
\<close>

section \<open>Definitions\<close>

record 'd fill_event =
  fe_VenueOrderID :: string
  fe_InternalID :: string
  fe_Venue :: string
  fe_Pair :: string
  fe_Price :: 'd
  fe_Size :: 'd
  fe_Fee :: 'd
  fe_FeeAsset :: string
  fe_TradeID :: string
  fe_Timestamp :: gotime
  fe_EmittedAt :: gotime

record 'd balance_event =
  be_Venue :: string
  be_Asset :: string
  be_Free :: 'd
  be_Locked :: 'd
  be_Timestamp :: gotime
  be_EmittedAt :: gotime

subsection \<open>KafkaPublisher\<close>

record kafka_publisher =
  kp_brokers :: "string list"
  kp_topic :: string

definition NewKafkaPublisher :: "string list \<Rightarrow> string \<Rightarrow> go_error + kafka_publisher" where
  "NewKafkaPublisher brokers topic =
     (if length brokers = 0 then Inl (ErrMsg ''events: no kafka brokers provided'')
      else Inr \<lparr>kp_brokers = brokers, kp_topic = (if topic = '''' then ''recon'' else topic)\<rparr>)"

text \<open>The loop over the query: the last \<open>topic=\<close> wins.\<close>

definition query_topic :: "string \<Rightarrow> string" where
  "query_topic q =
     fold (\<lambda>kv topic. if prefix ''topic='' kv then trim_prefix kv ''topic='' else topic)
       (split_at (CHR ''&'') q) ''''"

definition clean_brokers :: "string list \<Rightarrow> string list" where
  "clean_brokers brokers = filter (\<lambda>b. b \<noteq> '''') (map trim_space brokers)"

definition NewKafkaPublisherFromURL :: "string \<Rightarrow> go_error + kafka_publisher" where
  "NewKafkaPublisherFromURL url =
     (if \<not> prefix ''kafka://'' url then
        Inl (ErrMsg (''events: url must start with kafka://, got '' @ go_quote url))
      else
        (let rest = trim_prefix url ''kafka://'';
             (rest', topic) = (case index_of (CHR ''?'') rest of
                                 None \<Rightarrow> (rest, '''')
                               | Some i \<Rightarrow> (take i rest, query_topic (drop (i + 1) rest)))
         in NewKafkaPublisher (clean_brokers (split_at (CHR '','') rest')) topic))"

record pub_env =
  pe_write :: "nat \<Rightarrow> go_error option"
  pe_done :: "nat \<Rightarrow> go_error option"

record pub_world =
  pw_writes :: nat
  pw_acked :: "string list"
  pw_waits :: "duration list"

text \<open>A nil publisher, or one without a writer, is \<open>None\<close>. The subject is not used.\<close>

definition KafkaPublisher_Publish ::
  "pub_env \<Rightarrow> kafka_publisher option \<Rightarrow> string \<Rightarrow> string \<Rightarrow> pub_world \<Rightarrow> go_error option \<times> pub_world"
where
  "KafkaPublisher_Publish E p subject data w =
     (case p of
        None \<Rightarrow> (Some (ErrMsg ''events: kafka not connected''), w)
      | Some _ \<Rightarrow>
          (case pe_write E (pw_writes w) of
             None \<Rightarrow> (None, w\<lparr>pw_writes := pw_writes w + 1, pw_acked := pw_acked w @ [data]\<rparr>)
           | Some err \<Rightarrow> (Some err, w\<lparr>pw_writes := pw_writes w + 1\<rparr>)))"

definition KafkaPublisher_Close :: "go_error option \<Rightarrow> kafka_publisher option \<Rightarrow> go_error option" where
  "KafkaPublisher_Close writer_close p = (case p of None \<Rightarrow> None | Some _ \<Rightarrow> writer_close)"

subsection \<open>Bus\<close>

text \<open>
  What a publication does besides writing: the counter \<open>events_published_total\<close> with its
  labels, the latency observed, and the call of the dead-letter handler with its arguments.
\<close>

datatype 'd bus_effect =
    Published string string string
  | FillLatency string duration
  | BalanceLag string duration
  | DeadLetter "'d fill_event" "go_error option"

record bus =
  bus_subject :: string
  bus_maxRetries :: int64

definition NewBus :: "string \<Rightarrow> bus" where
  "NewBus subject = \<lparr>bus_subject = subject, bus_maxRetries = 3\<rparr>"

text \<open>The \<open>select\<close> between the end of the context and \<open>time.After(d)\<close>.\<close>

definition select_wait :: "pub_env \<Rightarrow> duration \<Rightarrow> pub_world \<Rightarrow> go_error option \<times> pub_world" where
  "select_wait E d w = (pe_done E (length (pw_waits w)), w\<lparr>pw_waits := pw_waits w @ [d]\<rparr>)"

datatype loop_result = Sent | Cancelled go_error | Exhausted "go_error option"

text \<open>The retry loop, which both publications contain, from \<open>attempt\<close> on.\<close>

function publish_loop ::
  "('w \<Rightarrow> go_error option \<times> 'w) \<Rightarrow> (duration \<Rightarrow> 'w \<Rightarrow> go_error option \<times> 'w) \<Rightarrow>
   int64 \<Rightarrow> int64 \<Rightarrow> go_error option \<Rightarrow> 'w \<Rightarrow> loop_result \<times> 'w"
where
  "publish_loop publish wait maxRetries attempt lastErr w =
     (if attempt \<le> maxRetries then
        (case publish w of
           (None, w1) \<Rightarrow> (Sent, w1)
         | (Some err, w1) \<Rightarrow>
             (case wait ((attempt + 1) * 100 * millisecond) w1 of
                (Some ctxErr, w2) \<Rightarrow> (Cancelled ctxErr, w2)
              | (None, w2) \<Rightarrow> publish_loop publish wait maxRetries (attempt + 1) (Some err) w2))
      else (Exhausted lastErr, w))"
  by pat_completeness auto
termination by (relation "measure (\<lambda>(_, _, m, a, _, _). nat (m + 1 - a))") auto

declare publish_loop.simps [simp del]

definition complete_fill :: "gotime \<Rightarrow> 'd fill_event \<Rightarrow> 'd fill_event" where
  "complete_fill now ev =
     (let ev1 = (if fe_InternalID ev = '''' then ev\<lparr>fe_InternalID := fe_VenueOrderID ev\<rparr> else ev)
      in if fe_EmittedAt ev1 = 0 then ev1\<lparr>fe_EmittedAt := now\<rparr> else ev1)"

text \<open>
  \<open>marshal\<close> is \<open>json.Marshal\<close>, \<open>publish\<close> the publisher of the bus, \<open>wait\<close> the \<open>select\<close>, \<open>now\<close>
  the clock at the entry and \<open>now'\<close> at the success.
\<close>

definition PublishFill ::
  "('d fill_event \<Rightarrow> go_error + string) \<Rightarrow> (string \<Rightarrow> string \<Rightarrow> 'w \<Rightarrow> go_error option \<times> 'w) \<Rightarrow>
   (duration \<Rightarrow> 'w \<Rightarrow> go_error option \<times> 'w) \<Rightarrow> gotime \<Rightarrow> gotime \<Rightarrow>
   bus \<Rightarrow> 'd fill_event \<Rightarrow> 'w \<Rightarrow> go_error option \<times> 'd bus_effect list \<times> 'w"
where
  "PublishFill marshal publish wait now now' b ev0 w =
     (if fe_VenueOrderID ev0 = '''' then (Some (ErrMsg ''events: venue_order_id required''), [], w)
      else
        (let ev = complete_fill now ev0 in
         case marshal ev of
           Inl err \<Rightarrow> (Some err, [], w)
         | Inr data \<Rightarrow>
             (case publish_loop (publish (bus_subject b @ ''.fills'') data) wait
                     (bus_maxRetries b) 0 None w of
                (Sent, w') \<Rightarrow>
                  (None, [Published (fe_Venue ev) ''fill'' ''ok'',
                          FillLatency (fe_Venue ev) (max 0 (time_sub now' (fe_Timestamp ev)))], w')
              | (Cancelled ctxErr, w') \<Rightarrow> (Some ctxErr, [], w')
              | (Exhausted lastErr, w') \<Rightarrow>
                  (lastErr, [Published (fe_Venue ev) ''fill'' ''failed'', DeadLetter ev lastErr], w'))))"

definition complete_balance :: "gotime \<Rightarrow> 'd balance_event \<Rightarrow> 'd balance_event" where
  "complete_balance now ev = (if be_EmittedAt ev = 0 then ev\<lparr>be_EmittedAt := now\<rparr> else ev)"

definition PublishBalance ::
  "('d balance_event \<Rightarrow> go_error + string) \<Rightarrow> (string \<Rightarrow> string \<Rightarrow> 'w \<Rightarrow> go_error option \<times> 'w) \<Rightarrow>
   (duration \<Rightarrow> 'w \<Rightarrow> go_error option \<times> 'w) \<Rightarrow> gotime \<Rightarrow> gotime \<Rightarrow>
   bus \<Rightarrow> 'd balance_event \<Rightarrow> 'w \<Rightarrow> go_error option \<times> 'd bus_effect list \<times> 'w"
where
  "PublishBalance marshal publish wait now now' b ev0 w =
     (if be_Venue ev0 = '''' \<or> be_Asset ev0 = '''' then
        (Some (ErrMsg ''events: venue and asset required''), [], w)
      else
        (let ev = complete_balance now ev0 in
         case marshal ev of
           Inl err \<Rightarrow> (Some err, [], w)
         | Inr data \<Rightarrow>
             (case publish_loop (publish (bus_subject b @ ''.balances'') data) wait
                     (bus_maxRetries b) 0 None w of
                (Sent, w') \<Rightarrow>
                  (None, [Published (be_Venue ev) ''balance'' ''ok'',
                          BalanceLag (be_Venue ev) (max 0 (time_sub now' (be_Timestamp ev)))], w')
              | (Cancelled ctxErr, w') \<Rightarrow> (Some ctxErr, [], w')
              | (Exhausted lastErr, w') \<Rightarrow>
                  (lastErr, [Published (be_Venue ev) ''balance'' ''failed''], w'))))"

definition FillFromVenue :: "string \<Rightarrow> string \<Rightarrow> string \<Rightarrow> 'd fill \<Rightarrow> 'd fill_event" where
  "FillFromVenue venueName internalID pair f =
     \<lparr>fe_VenueOrderID = fl_VenueOrderID f, fe_InternalID = internalID, fe_Venue = venueName,
      fe_Pair = pair, fe_Price = fl_Price f, fe_Size = fl_Quantity f, fe_Fee = fl_Fee f,
      fe_FeeAsset = fl_FeeAsset f, fe_TradeID = fl_TradeID f, fe_Timestamp = fl_Timestamp f,
      fe_EmittedAt = 0\<rparr>"

definition BalanceFromVenue :: "gotime \<Rightarrow> string \<Rightarrow> 'd balance \<Rightarrow> 'd balance_event" where
  "BalanceFromVenue now venueName b =
     \<lparr>be_Venue = venueName, be_Asset = bl_Asset b, be_Free = bl_Free b, be_Locked = bl_Locked b,
      be_Timestamp = now, be_EmittedAt = 0\<rparr>"

section \<open>The publisher interface\<close>

locale publisher =
  fixes publish :: "string \<Rightarrow> string \<Rightarrow> 'w \<Rightarrow> go_error option \<times> 'w"
    and wait :: "duration \<Rightarrow> 'w \<Rightarrow> go_error option \<times> 'w"
    and acked :: "'w \<Rightarrow> string list"
    and writes :: "'w \<Rightarrow> nat"
  assumes publish_ok: "publish subj d w = (None, w') \<Longrightarrow> acked w' = acked w @ [d]"
    and publish_fail: "publish subj d w = (Some e, w') \<Longrightarrow> acked w' = acked w"
    and publish_writes: "publish subj d w = (r, w') \<Longrightarrow> writes w' \<le> writes w + 1"
    and wait_frame: "wait t w = (r, w') \<Longrightarrow> acked w' = acked w \<and> writes w' = writes w"
begin

text \<open>The loop has at most \<open>maxRetries + 1\<close> writes and one acknowledged message, when it is \<open>Sent\<close>.\<close>

lemma loop_once:
  "publish_loop (publish subj d) wait m a l w = (r, w') \<Longrightarrow>
   acked w' = acked w @ (if r = Sent then [d] else []) \<and> writes w' \<le> writes w + nat (m + 1 - a) \<and>
   (\<forall>e. r = Exhausted e \<longrightarrow> a \<le> m \<or> l \<noteq> None \<longrightarrow> e \<noteq> None)"
proof (induction "nat (m + 1 - a)" arbitrary: a l w)
  case 0
  then show ?case by (auto simp: publish_loop.simps [of _ _ m a])
next
  case (Suc n)
  then have am: "a \<le> m" by simp
  obtain p w1 where p: "publish subj d w = (p, w1)" by (cases "publish subj d w")
  obtain c w2 where c: "wait ((a + 1) * 100 * millisecond) w1 = (c, w2)"
    by (cases "wait ((a + 1) * 100 * millisecond) w1")
  note loop = Suc.prems [unfolded publish_loop.simps [of _ _ m a] p prod.case]
  note fr = publish_writes [OF p] wait_frame [OF c]
  show ?case
  proof (cases p)
    case None
    then show ?thesis using loop am fr publish_ok p by auto
  next
    case (Some err)
    then have ack: "acked w1 = acked w" using publish_fail p by simp
    show ?thesis
    proof (cases c)
      case None
      then have rec: "publish_loop (publish subj d) wait m (a + 1) (Some err) w2 = (r, w')"
        using loop am c Some by simp
      have "n = nat (m + 1 - (a + 1))" "nat (m + 1 - a) = Suc (nat (m + 1 - (a + 1)))"
        using Suc.hyps(2) by simp_all
      with Suc.hyps(1) [OF _ rec] fr ack show ?thesis by auto
    next
      case (Some e)
      then show ?thesis using loop am c \<open>p = Some err\<close> fr ack by auto
    qed
  qed
qed

text \<open>A fill is acknowledged exactly when the call returns nil, and dead-lettered only with an error.\<close>

lemma fill_once:
  assumes "PublishFill marshal publish wait now now' b ev w = (res, eff, w')" "0 \<le> bus_maxRetries b"
  shows "(case res of
      None \<Rightarrow> (\<exists>data. marshal (complete_fill now ev) = Inr data \<and> acked w' = acked w @ [data]) \<and>
        (\<forall>e l. DeadLetter e l \<notin> set eff)
    | Some err \<Rightarrow> acked w' = acked w \<and>
        (\<forall>e l. DeadLetter e l \<in> set eff \<longrightarrow> e = complete_fill now ev \<and> l = res)) \<and>
    writes w' \<le> writes w + nat (bus_maxRetries b + 1)"
proof (cases "fe_VenueOrderID ev = '''' \<or> (\<exists>err. marshal (complete_fill now ev) = Inl err)")
  case True
  then show ?thesis using assms(1) by (auto simp: PublishFill_def Let_def split: if_splits)
next
  case False
  then obtain data where data: "marshal (complete_fill now ev) = Inr data"
    by (cases "marshal (complete_fill now ev)") auto
  obtain r w1 where l: "publish_loop (publish (bus_subject b @ ''.fills'') data) wait (bus_maxRetries b) 0 None w
      = (r, w1)" by (cases "publish_loop (publish (bus_subject b @ ''.fills'') data) wait (bus_maxRetries b) 0 None w")
  from loop_once [OF l] assms False data l show ?thesis
    by (auto simp: PublishFill_def Let_def split: loop_result.splits)
qed

end

interpretation kafka_pub: publisher "KafkaPublisher_Publish E p" "select_wait E" pw_acked pw_writes
  for E p
  by unfold_locales
    (auto simp: KafkaPublisher_Publish_def select_wait_def split: option.splits)

section \<open>The retry schedule\<close>

definition waits_from :: "int64 \<Rightarrow> nat \<Rightarrow> duration list" where
  "waits_from a k = map (\<lambda>i. (a + int i + 1) * 100 * millisecond) [0..<k]"

text \<open>\<open>k\<close> failed attempts in a row, the context still open.\<close>

definition failing :: "pub_env \<Rightarrow> pub_world \<Rightarrow> nat \<Rightarrow> bool" where
  "failing E w k \<longleftrightarrow> (\<forall>i < k. pe_write E (pw_writes w + i) \<noteq> None) \<and>
     (\<forall>i < k. pe_done E (length (pw_waits w) + i) = None)"

definition after_failing :: "int64 \<Rightarrow> nat \<Rightarrow> pub_world \<Rightarrow> pub_world" where
  "after_failing a k w = w\<lparr>pw_writes := pw_writes w + k, pw_waits := pw_waits w @ waits_from a k\<rparr>"

lemma after_failing_simps [simp]:
  "pw_writes (after_failing a k w) = pw_writes w + k"
  "pw_acked (after_failing a k w) = pw_acked w"
  "pw_waits (after_failing a k w) = pw_waits w @ waits_from a k"
  "length (waits_from a k) = k"
  by (simp_all add: after_failing_def waits_from_def)

lemma after_failing_0 [simp]: "after_failing a 0 w = w"
  by (simp add: after_failing_def waits_from_def)

lemma failing_Suc:
  "failing E w (Suc k) \<longleftrightarrow> failing E w k \<and> pe_write E (pw_writes w + k) \<noteq> None \<and>
     pe_done E (length (pw_waits w) + k) = None"
  by (auto simp: failing_def less_Suc_eq)

lemma after_failing_Suc:
  "after_failing a (Suc k) w =
     (after_failing a k w)\<lparr>pw_writes := pw_writes w + k + 1,
        pw_waits := pw_waits (after_failing a k w) @ [(a + int k + 1) * 100 * millisecond]\<rparr>"
  by (simp add: after_failing_def waits_from_def)

lemma publish_loop_fail1:
  assumes "pe_write E (pw_writes w) = Some err" "pe_done E (length (pw_waits w)) = None" "a \<le> m"
  shows "publish_loop (KafkaPublisher_Publish E (Some p) subj d) (select_wait E) m a l w =
    publish_loop (KafkaPublisher_Publish E (Some p) subj d) (select_wait E) m (a + 1) (Some err)
      (w\<lparr>pw_writes := pw_writes w + 1, pw_waits := pw_waits w @ [(a + 1) * 100 * millisecond]\<rparr>)"
  using assms
  by (subst publish_loop.simps) (simp add: KafkaPublisher_Publish_def select_wait_def)

lemma publish_loop_failing:
  assumes "failing E w k" "a + int k \<le> m + 1"
  shows "publish_loop (KafkaPublisher_Publish E (Some p) subj d) (select_wait E) m a l w =
     publish_loop (KafkaPublisher_Publish E (Some p) subj d) (select_wait E) m (a + int k)
       (if k = 0 then l else pe_write E (pw_writes w + k - 1)) (after_failing a k w)"
  using assms
proof (induction k)
  case (Suc k)
  from Suc.prems obtain err where *: "pe_write E (pw_writes w + k) = Some err"
    "pe_done E (length (pw_waits w) + k) = None" "failing E w k" by (auto simp: failing_Suc)
  then have "publish_loop (KafkaPublisher_Publish E (Some p) subj d) (select_wait E) m (a + int k) l'
      (after_failing a k w) =
    publish_loop (KafkaPublisher_Publish E (Some p) subj d) (select_wait E) m (a + int (Suc k)) (Some err)
      (after_failing a (Suc k) w)" for l'
    using Suc.prems(2) by (subst publish_loop_fail1) (simp_all add: after_failing_Suc algebra_simps)
  then show ?case using Suc.IH Suc.prems(2) * by simp
qed simp

section \<open>Properties\<close>

text \<open>
  C6: whatever the broker and the context do, \<open>PublishFill\<close> of a bus over the Kafka publisher
  attempts at most four writes; it returns nil exactly when one copy of the completed event has
  been acknowledged, and then nothing is dead-lettered; if it returns an error, nothing has been
  acknowledged, and a dead letter, if any, carries the completed event and the error returned.
\<close>

theorem fill_published_once:
  assumes "PublishFill marshal (KafkaPublisher_Publish E p) (select_wait E) now now' (NewBus subject) ev w
             = (res, eff, w')"
  shows "(case res of
      None \<Rightarrow> (\<exists>data. marshal (complete_fill now ev) = Inr data \<and> pw_acked w' = pw_acked w @ [data]) \<and>
        (\<forall>e l. DeadLetter e l \<notin> set eff)
    | Some err \<Rightarrow> pw_acked w' = pw_acked w \<and>
        (\<forall>e l. DeadLetter e l \<in> set eff \<longrightarrow> e = complete_fill now ev \<and> l = res)) \<and>
    pw_writes w' \<le> pw_writes w + 4"
proof -
  have m: "bus_maxRetries (NewBus subject) = 3" by (simp add: NewBus_def)
  have n: "nat (3 + 1) = 4" by simp
  show ?thesis using kafka_pub.fill_once [OF assms] by (simp only: m n)
qed

definition sample_fill_event :: "int fill_event" where
  "sample_fill_event = FillFromVenue ''kraken'' '''' ''BTC-USD''
     \<lparr>fl_VenueOrderID = ''o1'', fl_TradeID = ''t1'', fl_Price = 5, fl_Quantity = 2, fl_Fee = 0,
      fl_FeeAsset = ''USD'', fl_Timestamp = 10\<rparr>"

definition sample_pub_env :: "nat \<Rightarrow> pub_env" where
  "sample_pub_env k = \<lparr>pe_write = \<lambda>n. if n < k then Some (ErrMsg ''down'') else None, pe_done = \<lambda>n. None\<rparr>"

definition sample_publisher :: kafka_publisher where
  "sample_publisher = \<lparr>kp_brokers = [''b''], kp_topic = ''recon''\<rparr>"

definition no_writes :: pub_world where
  "no_writes = \<lparr>pw_writes = 0, pw_acked = [], pw_waits = []\<rparr>"

text \<open>The first write fails, the second succeeds.\<close>

theorem fill_published_once_witness:
  "\<exists>eff w'. PublishFill (\<lambda>e. Inr (fe_InternalID e))
       (KafkaPublisher_Publish (sample_pub_env 1) (Some sample_publisher))
       (select_wait (sample_pub_env 1)) 20 30 (NewBus ''events'') sample_fill_event no_writes = (None, eff, w') \<and>
     pw_acked w' = [''o1''] \<and> pw_writes w' \<le> 4"
proof -
  let ?call = "PublishFill (\<lambda>e. Inr (fe_InternalID e))
       (KafkaPublisher_Publish (sample_pub_env 1) (Some sample_publisher))
       (select_wait (sample_pub_env 1)) 20 30 (NewBus ''events'') sample_fill_event no_writes"
  have "fst ?call = None"
    by (simp add: PublishFill_def sample_fill_event_def FillFromVenue_def NewBus_def no_writes_def
        publish_loop.simps KafkaPublisher_Publish_def sample_pub_env_def select_wait_def Let_def)
  moreover have "fe_InternalID (complete_fill 20 sample_fill_event) = ''o1''"
    by (simp add: complete_fill_def sample_fill_event_def FillFromVenue_def Let_def)
  ultimately show ?thesis
    using fill_published_once [of "\<lambda>e. Inr (fe_InternalID e)" "sample_pub_env 1"
        "Some sample_publisher" 20 30 "''events''" sample_fill_event no_writes
        None "fst (snd ?call)" "snd (snd ?call)"]
    by (cases ?call) (auto simp: no_writes_def)
qed

text \<open>
  C32: the schedule of \<open>PublishFill\<close>. When the first \<open>k\<close> writes fail with the context open, the
  waits before the next attempt are 100, 200, \<dots> milliseconds; for \<open>k \<le> 3\<close> a success of the next
  write ends the call with nil, and the end of the context during the next wait ends it with
  \<open>ctx.Err()\<close> and no dead letter, the fourth wait included; for \<open>k = 4\<close> the event is
  dead-lettered once with the error of the fourth write, which is also the result.
\<close>

theorem fill_retry_schedule:
  assumes "failing E w k" "fe_VenueOrderID ev \<noteq> ''''" "marshal (complete_fill now ev) = Inr data"
  shows "(k \<le> 3 \<and> pe_write E (pw_writes w + k) = None \<longrightarrow>
      PublishFill marshal (KafkaPublisher_Publish E (Some p)) (select_wait E) now now' (NewBus subject) ev w =
        (None, [Published (fe_Venue ev) ''fill'' ''ok'',
                FillLatency (fe_Venue ev) (max 0 (time_sub now' (fe_Timestamp ev)))],
         (after_failing 0 k w)\<lparr>pw_writes := pw_writes w + k + 1, pw_acked := pw_acked w @ [data]\<rparr>)) \<and>
    (k \<le> 3 \<and> pe_write E (pw_writes w + k) \<noteq> None \<and> pe_done E (length (pw_waits w) + k) = Some c \<longrightarrow>
      PublishFill marshal (KafkaPublisher_Publish E (Some p)) (select_wait E) now now' (NewBus subject) ev w =
        (Some c, [], after_failing 0 (k + 1) w)) \<and>
    (k = 4 \<longrightarrow>
      PublishFill marshal (KafkaPublisher_Publish E (Some p)) (select_wait E) now now' (NewBus subject) ev w =
        (pe_write E (pw_writes w + 3),
         [Published (fe_Venue ev) ''fill'' ''failed'',
          DeadLetter (complete_fill now ev) (pe_write E (pw_writes w + 3))], after_failing 0 4 w))"
proof -
  let ?loop = "publish_loop (KafkaPublisher_Publish E (Some p) (subject @ ''.fills'') data) (select_wait E) 3"
  have v: "fe_Venue (complete_fill now ev) = fe_Venue ev \<and> fe_Timestamp (complete_fill now ev) = fe_Timestamp ev"
    by (simp add: complete_fill_def Let_def)
  have run: "?loop 0 None w = ?loop (int k) (if k = 0 then None else pe_write E (pw_writes w + k - 1)) (after_failing 0 k w)"
    if "k \<le> 4" using publish_loop_failing [OF assms(1), of 0 3] that by simp
  have ok: "?loop 0 None w = (Sent, (after_failing 0 k w)\<lparr>pw_writes := pw_writes w + k + 1, pw_acked := pw_acked w @ [data]\<rparr>)"
    if "k \<le> 3" "pe_write E (pw_writes w + k) = None"
    using run that by (simp add: publish_loop.simps [of _ _ 3 "int k"] KafkaPublisher_Publish_def)
  have cancel: "?loop 0 None w = (Cancelled c, after_failing 0 (k + 1) w)"
    if "k \<le> 3" "pe_write E (pw_writes w + k) \<noteq> None" "pe_done E (length (pw_waits w) + k) = Some c"
    using run that by (auto simp: publish_loop.simps [of _ _ 3 "int k"] KafkaPublisher_Publish_def
        select_wait_def after_failing_Suc)
  define last where "last = pe_write E (pw_writes w + 3)"
  have over: "?loop 0 None w = (Exhausted last, after_failing 0 4 w)" if "k = 4"
    using run that by (simp add: publish_loop.simps [of _ _ 3 4] last_def add.commute)
  show ?thesis unfolding last_def [symmetric]
    using assms(2,3) ok cancel over v by (auto simp: PublishFill_def NewBus_def Let_def)
qed

text \<open>Four failures: the waits add up to a second before the dead letter.\<close>

theorem fill_retry_schedule_witness:
  "\<exists>eff. PublishFill (\<lambda>e. Inr (fe_TradeID e)) (KafkaPublisher_Publish (sample_pub_env 4) (Some sample_publisher))
       (select_wait (sample_pub_env 4)) 20 30 (NewBus ''events'') sample_fill_event no_writes =
     (Some (ErrMsg ''down''), eff, after_failing 0 4 no_writes) \<and>
     DeadLetter (complete_fill 20 sample_fill_event) (Some (ErrMsg ''down'')) \<in> set eff \<and>
     sum_list (pw_waits (after_failing 0 4 no_writes)) = second"
proof -
  have "failing (sample_pub_env 4) no_writes 4"
    by (simp add: failing_def sample_pub_env_def no_writes_def)
  from fill_retry_schedule [OF this, of sample_fill_event "\<lambda>e. Inr (fe_TradeID e)" 20 "''t1''"
      sample_publisher 30 "''events''"]
  show ?thesis
    by (simp add: sample_fill_event_def FillFromVenue_def complete_fill_def sample_pub_env_def no_writes_def
        waits_from_def Let_def upt_rec)
qed

text \<open>
  A \<open>kafka://\<close> URL written from a non-empty list of brokers, in ASCII, and a topic is read back: the
  same brokers in the same order, and the topic, or \<open>recon\<close> when it is empty.
\<close>

theorem kafka_url_roundtrip:
  assumes "brokers \<noteq> []"
    and "\<forall>b \<in> set brokers. b \<noteq> '''' \<and> (\<forall>c \<in> set b. plain_byte c \<and> c \<noteq> CHR '','' \<and> c \<noteq> CHR ''?'')"
    and "CHR ''&'' \<notin> set topic"
  shows "NewKafkaPublisherFromURL (''kafka://'' @ join_with '','' brokers @ ''?topic='' @ topic) =
      Inr \<lparr>kp_brokers = brokers, kp_topic = (if topic = '''' then ''recon'' else topic)\<rparr> \<and>
    NewKafkaPublisherFromURL (''kafka://'' @ join_with '','' brokers) =
      Inr \<lparr>kp_brokers = brokers, kp_topic = ''recon''\<rparr>"
proof -
  let ?bs = "join_with '','' brokers"
  have noq: "CHR ''?'' \<notin> set ?bs" using assms(2) set_join_with [of "CHR ''?''" "'',''" brokers] by auto
  then have i: "index_of (CHR ''?'') (?bs @ CHR ''?'' # ''topic='' @ topic) = Some (length ?bs)"
    by (rule index_of_append)
  have sp: "split_at (CHR '','') ?bs = brokers" using assms by (intro split_join) auto
  have trim: "trim_space b = b \<and> b \<noteq> ''''" if "b \<in> set brokers" for b
    using assms(2) that by (simp add: trim_space_id)
  then have cl: "clean_brokers brokers = brokers"
    by (simp add: clean_brokers_def filter_map comp_def map_idI)
  have "split_at (CHR ''&'') (''topic='' @ topic) = [''topic='' @ topic]"
    using assms(3) by (intro split_at_no_sep) auto
  then have q: "query_topic (''topic='' @ topic) = topic" by (simp add: query_topic_def trim_prefix_def)
  show ?thesis using i noq sp cl q assms(1)
    by (simp add: NewKafkaPublisherFromURL_def NewKafkaPublisher_def trim_prefix_def Let_def case_index_of_None)
qed

theorem kafka_url_roundtrip_witness:
  "NewKafkaPublisherFromURL ''kafka://k1:9092,k2:9092?topic=fills'' =
     Inr \<lparr>kp_brokers = [''k1:9092'', ''k2:9092''], kp_topic = ''fills''\<rparr>"
  using kafka_url_roundtrip [of "[''k1:9092'', ''k2:9092'']" "''fills''"]
  by (simp add: is_space_def char_code_def)

end
