(* ===== verification/Go_Http.thy ===== *)
theory Go_Http
  imports Venue_Model
begin

text \<open>
  What the REST adapters use of Go's standard library: \<open>encoding/json\<close> decoding, \<open>url.Values\<close>,
  the HTTP client and the clock.

  \<^item> A JSON text is parsed by an argument (\<open>ne_json\<close>); what the sources depend on is how a value
    is stored into a Go variable. A decoder takes the value and the old content and returns the
    new content and whether an error is reported: as in Go, a mismatch is remembered and decoding
    goes on, \<open>null\<close> changes nothing, unknown keys are skipped, keys match exactly or else without
    regard to case (ASCII), and the last of several equal keys wins.
  \<^item> \<open>url.Values\<close> is only written by \<open>Set\<close>, so it is a map to single values; \<open>Encode\<close> sorts the
    keys and escapes keys and values.
  \<^item> The network and the clock are the environment: \<open>ne_resp n\<close> answers the \<open>n\<close>-th request of
    the process, \<open>ne_now n\<close> is the \<open>n\<close>-th reading of \<open>time.Now()\<close>; \<open>net_world\<close> logs the requests
    and counts the readings.
\<close>

section \<open>JSON\<close>

datatype json =
    JNull
  | JBool bool
  | JNum string                    \<comment> \<open>the literal\<close>
  | JStr string
  | JArr "json list"
  | JObj "(string \<times> json) list"

type_synonym 'a decoder = "json \<Rightarrow> 'a \<Rightarrow> 'a \<times> bool"

definition decode_string :: "string decoder" where
  "decode_string j v = (case j of JStr s \<Rightarrow> (s, False) | JNull \<Rightarrow> (v, False) | _ \<Rightarrow> (v, True))"

definition decode_int64 :: "int64 decoder" where
  "decode_int64 j v =
     (case j of
        JNum lit \<Rightarrow> (case parse_int64 lit of Some n \<Rightarrow> (n, False) | None \<Rightarrow> (v, True))
      | JNull \<Rightarrow> (v, False)
      | _ \<Rightarrow> (v, True))"

text \<open>A type with its own \<open>UnmarshalJSON\<close>, which gets \<open>null\<close> too: \<open>None\<close> is its error.\<close>

definition decode_custom :: "(json \<Rightarrow> 'a option) \<Rightarrow> 'a decoder" where
  "decode_custom unmarshal j v =
     (case j of JNull \<Rightarrow> (v, False)
      | _ \<Rightarrow> (case unmarshal j of Some x \<Rightarrow> (x, False) | None \<Rightarrow> (v, True)))"

text \<open>A slice, whose elements start from the zero value \<open>z\<close>.\<close>

definition decode_slice :: "'a decoder \<Rightarrow> 'a \<Rightarrow> 'a list decoder" where
  "decode_slice d z j v =
     (case j of
        JArr js \<Rightarrow> (let rs = map (\<lambda>j. d j z) js in (map fst rs, list_ex snd rs))
      | JNull \<Rightarrow> ([], False)
      | _ \<Rightarrow> (v, True))"

text \<open>\<open>[2]string\<close>: further elements are skipped, missing ones become empty.\<close>

definition decode_pair :: "(string \<times> string) decoder" where
  "decode_pair j v =
     (case j of
        JArr [] \<Rightarrow> (('''', ''''), False)
      | JArr [a] \<Rightarrow> (case decode_string a (fst v) of (x, e) \<Rightarrow> ((x, ''''), e))
      | JArr (a # b # _) \<Rightarrow>
          (case (decode_string a (fst v), decode_string b (snd v)) of ((x, e1), (y, e2)) \<Rightarrow> ((x, y), e1 \<or> e2))
      | JNull \<Rightarrow> (v, False)
      | _ \<Rightarrow> (v, True))"

text \<open>A map: entries are added to the old ones, each decoded from the zero value.\<close>

definition decode_map :: "'a decoder \<Rightarrow> 'a \<Rightarrow> (string, 'a) gomap decoder" where
  "decode_map d z j m =
     (case j of
        JObj kvs \<Rightarrow>
          fold (\<lambda>(k, j) (m, e). case d j z of (x, e') \<Rightarrow> (AList.update k x m, e \<or> e')) kvs (m, False)
      | JNull \<Rightarrow> ([], False)
      | _ \<Rightarrow> (m, True))"

text \<open>A field of a struct: its JSON name and how it is decoded inside the struct.\<close>

type_synonym 'r field = "string \<times> 'r decoder"

definition field :: "string \<Rightarrow> ('r \<Rightarrow> 'a) \<Rightarrow> (('a \<Rightarrow> 'a) \<Rightarrow> 'r \<Rightarrow> 'r) \<Rightarrow> 'a decoder \<Rightarrow> 'r field" where
  "field name get upd d = (name, \<lambda>j r. case d j (get r) of (x, e) \<Rightarrow> (upd (\<lambda>_. x) r, e))"

definition find_field :: "'r field list \<Rightarrow> string \<Rightarrow> 'r decoder option" where
  "find_field fs k =
     (case map_of fs k of
        Some d \<Rightarrow> Some d
      | None \<Rightarrow> map_option snd (find (\<lambda>(n, _). to_lower n = to_lower k) fs))"

definition decode_struct :: "'r field list \<Rightarrow> 'r decoder" where
  "decode_struct fs j r =
     (case j of
        JObj kvs \<Rightarrow>
          fold (\<lambda>(k, j) (r, e). case find_field fs k of
                   None \<Rightarrow> (r, e)
                 | Some d \<Rightarrow> (case d j r of (r', e') \<Rightarrow> (r', e \<or> e'))) kvs (r, False)
      | JNull \<Rightarrow> (r, False)
      | _ \<Rightarrow> (r, True))"

text \<open>
  \<open>json.Unmarshal(body, &v)\<close> with \<open>v\<close> zero: the content and the error. A text that is not JSON
  is rejected before anything is stored.
\<close>

definition unmarshal :: "(string \<Rightarrow> json option) \<Rightarrow> 'a decoder \<Rightarrow> 'a \<Rightarrow> string \<Rightarrow> 'a \<times> bool" where
  "unmarshal parse d z body = (case parse body of None \<Rightarrow> (z, True) | Some j \<Rightarrow> d j z)"

definition unmarshal_or :: "(string \<Rightarrow> json option) \<Rightarrow> 'a decoder \<Rightarrow> 'a \<Rightarrow> string \<Rightarrow> go_error + 'a" where
  "unmarshal_or parse d z body =
     (case unmarshal parse d z body of (v, True) \<Rightarrow> Inl ErrJson | (v, False) \<Rightarrow> Inr v)"

text \<open>
  The value of a JSON number that is stored in a \<open>float64\<close>, exactly: sign, digits, fraction and
  exponent.
\<close>

definition split_exp :: "string \<Rightarrow> string \<times> string" where
  "split_exp s =
     (case dropWhile (\<lambda>c. c \<noteq> CHR ''e'' \<and> c \<noteq> CHR ''E'') s of
        [] \<Rightarrow> (s, ''0'')
      | _ # ex \<Rightarrow> (takeWhile (\<lambda>c. c \<noteq> CHR ''e'' \<and> c \<noteq> CHR ''E'') s, ex))"

definition parse_float :: "string \<Rightarrow> rat option" where
  "parse_float s =
     (let (m, ex) = split_exp s;
          (neg, ds) = (case m of [] \<Rightarrow> (False, []) | c # cs \<Rightarrow> if c = CHR ''-'' then (True, cs) else (False, m));
          (ip, fp) = (case split_at (CHR ''.'') ds of [i] \<Rightarrow> (i, []) | [i, f] \<Rightarrow> (i, f) | _ \<Rightarrow> ([], []))
      in case (parse_nat (ip @ fp), parse_int64 ex) of
           (Some n, Some x) \<Rightarrow>
             (let q = of_nat n / 10 ^ length fp * (if 0 \<le> x then 10 ^ nat x else 1 / 10 ^ nat (- x))
              in Some (if neg then - q else q))
         | _ \<Rightarrow> None)"

text \<open>\<open>int64(f)\<close> of a float: towards zero.\<close>

definition int64_of_float :: "rat \<Rightarrow> int64" where
  "int64_of_float q = (if 0 \<le> q then \<lfloor>q\<rfloor> else \<lceil>q\<rceil>)"

definition decode_float :: "rat decoder" where
  "decode_float j v =
     (case j of
        JNum lit \<Rightarrow> (case parse_float lit of Some q \<Rightarrow> (q, False) | None \<Rightarrow> (v, True))
      | JNull \<Rightarrow> (v, False)
      | _ \<Rightarrow> (v, True))"

section \<open>URL values\<close>

type_synonym url_values = "(string, string) gomap"

definition vset :: "string \<Rightarrow> string \<Rightarrow> url_values \<Rightarrow> url_values" where
  "vset k v m = AList.update k v m"

definition unreserved :: "char \<Rightarrow> bool" where
  "unreserved c \<longleftrightarrow> (let n = char_code c in
     48 \<le> n \<and> n \<le> 57 \<or> 65 \<le> n \<and> n \<le> 90 \<or> 97 \<le> n \<and> n \<le> 122 \<or> n \<in> {45, 95, 46, 126})"

definition upper_hex :: "nat \<Rightarrow> char" where
  "upper_hex n = (if n < 10 then char_of (48 + n) else char_of (55 + n))"

definition escape_char :: "char \<Rightarrow> string" where
  "escape_char c =
     (if unreserved c then [c]
      else if char_code c = 32 then ''+''
      else [CHR ''%'', upper_hex (char_code c div 16), upper_hex (char_code c mod 16)])"

definition query_escape :: "string \<Rightarrow> string" where
  "query_escape s = concat (map escape_char s)"

definition encode_values :: "url_values \<Rightarrow> string" where
  "encode_values m =
     join_with ''&'' (map (\<lambda>(k, v). query_escape k @ ''='' @ query_escape v) (sort_key fst m))"

section \<open>The environment\<close>

record http_req =
  hq_method :: string
  hq_url :: string
  hq_headers :: "(string \<times> string) list"
  hq_body :: "string option"

text \<open>\<open>hr_header\<close> is \<open>resp.Header.Get\<close> (empty when absent), \<open>hr_body\<close> what \<open>io.ReadAll\<close> gives.\<close>

record http_resp =
  hr_status :: int64
  hr_header :: "string \<Rightarrow> string"
  hr_body :: "go_error + string"

text \<open>
  The parameters: the decimal library, the clock, the network, the error of
  \<open>NewRequestWithContext\<close> on a bad method or URL, the JSON parser and printer, the unmarshalers of
  \<open>decimal.Decimal\<close> and \<open>time.Time\<close>, and the hash functions.
\<close>

record 'd net_env =
  ne_dec :: "'d dec_ops"
  ne_now :: "nat \<Rightarrow> gotime"
  ne_resp :: "nat \<Rightarrow> http_req \<Rightarrow> go_error + http_resp"
  ne_bad_request :: "string \<Rightarrow> string \<Rightarrow> go_error option"
  ne_json :: "string \<Rightarrow> json option"
  ne_print :: "json \<Rightarrow> string"
  ne_dec_json :: "json \<Rightarrow> 'd option"
  ne_dec_print :: "'d \<Rightarrow> json"
  ne_time_json :: "json \<Rightarrow> gotime option"
  ne_hmac256_hex :: "string \<Rightarrow> string \<Rightarrow> string"
  ne_sha256 :: "string \<Rightarrow> string"
  ne_hmac512 :: "string \<Rightarrow> string \<Rightarrow> string"
  ne_b64_decode :: "string \<Rightarrow> string"
  ne_b64_encode :: "string \<Rightarrow> string"

record net_world =
  nw_sent :: "http_req list"
  nw_reads :: nat

definition time_now :: "'d net_env \<Rightarrow> net_world \<Rightarrow> gotime \<times> net_world" where
  "time_now E w = (ne_now E (nw_reads w), w\<lparr>nw_reads := nw_reads w + 1\<rparr>)"

definition http_do :: "'d net_env \<Rightarrow> http_req \<Rightarrow> net_world \<Rightarrow> (go_error + http_resp) \<times> net_world" where
  "http_do E req w = (ne_resp E (length (nw_sent w)) req, w\<lparr>nw_sent := nw_sent w @ [req]\<rparr>)"

text \<open>\<open>http.NewRequestWithContext\<close> with no headers set.\<close>

definition new_request :: "'d net_env \<Rightarrow> string \<Rightarrow> string \<Rightarrow> string option \<Rightarrow> go_error + http_req" where
  "new_request E method u body =
     (case ne_bad_request E method u of
        Some err \<Rightarrow> Inl err
      | None \<Rightarrow> Inr \<lparr>hq_method = method, hq_url = u, hq_headers = [], hq_body = body\<rparr>)"

definition set_header :: "string \<Rightarrow> string \<Rightarrow> http_req \<Rightarrow> http_req" where
  "set_header k v r = r\<lparr>hq_headers := AList.update k v (hq_headers r)\<rparr>"

text \<open>\<open>time.Time\<close> is counted from the zero time, the Unix epoch is this much later.\<close>

abbreviation unix_epoch :: gotime where
  "unix_epoch \<equiv> 62135596800 * second"

definition UnixMilli :: "gotime \<Rightarrow> int64" where
  "UnixMilli t = wrap64 ((t - unix_epoch) div millisecond)"

definition Unix :: "gotime \<Rightarrow> int64" where
  "Unix t = wrap64 ((t - unix_epoch) div second)"

definition UnixNano :: "gotime \<Rightarrow> int64" where
  "UnixNano t = wrap64 (t - unix_epoch)"

definition time_of_milli :: "int64 \<Rightarrow> gotime" where
  "time_of_milli ms = unix_epoch + ms * millisecond"

definition time_of_unix :: "int64 \<Rightarrow> gotime" where
  "time_of_unix s = unix_epoch + s * second"

section \<open>Reading a query back\<close>

text \<open>The inverse of \<open>Encode\<close>, as a server decodes a query.\<close>

definition hex_val :: "char \<Rightarrow> nat" where
  "hex_val c = (let n = char_code c in if n < 58 then n - 48 else n - 55)"

fun query_unescape :: "string \<Rightarrow> string" where
  "query_unescape [] = []"
| "query_unescape (c # cs) =
     (if c = CHR ''+'' then CHR '' '' # query_unescape cs
      else if c = CHR ''%'' then
        (case cs of a # b # cs' \<Rightarrow> char_of (16 * hex_val a + hex_val b) # query_unescape cs' | _ \<Rightarrow> [])
      else c # query_unescape cs)"

definition split_pair :: "string \<Rightarrow> string \<times> string" where
  "split_pair s =
     (case index_of (CHR ''='') s of
        None \<Rightarrow> (query_unescape s, '''')
      | Some i \<Rightarrow> (query_unescape (take i s), query_unescape (drop (i + 1) s)))"

definition decode_query :: "string \<Rightarrow> (string \<times> string) list" where
  "decode_query s = map split_pair (split_at (CHR ''&'') s)"

lemma hex_val_upper [simp]: "n < 16 \<Longrightarrow> hex_val (upper_hex n) = n"
  by (auto simp: hex_val_def upper_hex_def)

lemma unreserved_neq:
  "unreserved c \<Longrightarrow> c \<noteq> CHR ''+'' \<and> c \<noteq> CHR ''%'' \<and> c \<noteq> CHR ''&'' \<and> c \<noteq> CHR ''=''"
  by (auto simp: unreserved_def char_code_def)

lemma unreserved_upper_hex: "n < 16 \<Longrightarrow> unreserved (upper_hex n)"
  by (auto simp: unreserved_def upper_hex_def)

lemma char_of_char_code [simp]: "char_of (char_code c) = c"
  by (simp add: char_code_def)

lemma unescape_char: "query_unescape (escape_char c @ rest) = c # query_unescape rest"
proof (cases "unreserved c")
  case True
  then show ?thesis using unreserved_neq [of c] by (simp add: escape_char_def)
next
  case False
  have h: "char_code c div 16 < 16" using char_code_less [of c] by linarith
  show ?thesis
  proof (cases "char_code c = 32")
    case True
    have "char_code c = char_code (CHR '' '')" using True by (simp add: char_code_def)
    then have "c = CHR '' ''" by (metis char_of_char_code)
    then show ?thesis using False True by (simp add: escape_char_def)
  next
    case F: False
    then have "escape_char c = [CHR ''%'', upper_hex (char_code c div 16), upper_hex (char_code c mod 16)]"
      using False by (simp add: escape_char_def)
    then show ?thesis using h by simp
  qed
qed

lemma unescape_escape [simp]: "query_unescape (query_escape s) = s"
  by (induction s) (simp_all add: query_escape_def unescape_char)

lemma escape_clean: "c \<in> set (query_escape s) \<Longrightarrow> c \<noteq> CHR ''&'' \<and> c \<noteq> CHR ''=''"
proof -
  have "c \<in> set (escape_char x) \<Longrightarrow> c \<noteq> CHR ''&'' \<and> c \<noteq> CHR ''=''" for x
  proof -
    have "char_code x div 16 < 16" using char_code_less [of x] by linarith
    then show "c \<in> set (escape_char x) \<Longrightarrow> c \<noteq> CHR ''&'' \<and> c \<noteq> CHR ''=''"
      using unreserved_neq [OF unreserved_upper_hex] unreserved_neq [of x]
      by (auto simp: escape_char_def split: if_splits)
  qed
  then show "c \<in> set (query_escape s) \<Longrightarrow> c \<noteq> CHR ''&'' \<and> c \<noteq> CHR ''=''"
    by (auto simp: query_escape_def)
qed

lemma split_pair_encoded: "split_pair (query_escape k @ CHR ''='' # query_escape v) = (k, v)"
proof -
  have "CHR ''='' \<notin> set (query_escape k)" using escape_clean by blast
  then show ?thesis by (simp add: split_pair_def index_of_append)
qed

lemma join_with_Cons: "ws \<noteq> [] \<Longrightarrow> join_with sep (w # ws) = w @ sep @ join_with sep ws"
  by (cases ws) simp_all

text \<open>A server reads exactly the pairs that were set, in key order, whatever they contain.\<close>

lemma decode_encode: "m \<noteq> [] \<Longrightarrow> decode_query (encode_values m) = sort_key fst m"
proof -
  assume m: "m \<noteq> []"
  have "length (sort_key fst m) = length m" by simp
  then have ne: "sort_key fst m \<noteq> []" using m by fastforce
  let ?p = "\<lambda>(k, v). query_escape k @ ''='' @ query_escape v"
  have "CHR ''&'' \<notin> set (?p kv)" for kv
    using escape_clean by (cases kv) auto
  then have "split_at (CHR ''&'') (encode_values m) = map ?p (sort_key fst m)"
    unfolding encode_values_def using m ne by (intro split_join) simp_all
  moreover have "split_pair (?p kv) = kv" for kv by (cases kv) (simp add: split_pair_encoded)
  ultimately show ?thesis by (simp add: decode_query_def comp_def)
qed

lemma encode_no_query_chars: "c \<in> set (encode_values m) \<Longrightarrow> c = CHR ''&'' \<or> c = CHR ''='' \<or> c = CHR ''+'' \<or> c = CHR ''%'' \<or> unreserved c"
proof -
  have e: "c \<in> set (query_escape s) \<Longrightarrow> c = CHR ''+'' \<or> c = CHR ''%'' \<or> unreserved c" for s
  proof -
    have "char_code x div 16 < 16" for x using char_code_less [of x] by linarith
    then show "c \<in> set (query_escape s) \<Longrightarrow> c = CHR ''+'' \<or> c = CHR ''%'' \<or> unreserved c"
      by (auto simp: query_escape_def escape_char_def unreserved_upper_hex split: if_splits)
  qed
  assume "c \<in> set (encode_values m)"
  then show ?thesis unfolding encode_values_def using e by (auto dest!: set_join_with)
qed

text \<open>The pairs of an encoded map with one more pair appended by hand.\<close>

lemma decode_query_append:
  assumes "m \<noteq> []" "CHR ''&'' \<notin> set p"
  shows "decode_query (encode_values m @ CHR ''&'' # p) = sort_key fst m @ [split_pair p]"
proof -
  have sp: "split_at c (a @ c # b) = split_at c a @ split_at c b" for c a and b :: string
    by (induction a) (auto split: list.split)
  show ?thesis
    using decode_encode [OF assms(1)] assms(2) by (simp add: decode_query_def sp split_at_no_sep)
qed

lemma map_of_sort_key: "wf_map m \<Longrightarrow> map_of (sort_key fst m) = map_of m"
  by (rule map_of_perm(2)) simp_all

subsection \<open>The world\<close>

lemma time_now_sent [simp]: "nw_sent (snd (time_now E w)) = nw_sent w"
  by (simp add: time_now_def)

lemma http_do_sent [simp]: "nw_sent (snd (http_do E r w)) = nw_sent w @ [r]"
  by (simp add: http_do_def)

lemma vset_wf [simp]: "wf_map m \<Longrightarrow> wf_map (vset k v m)"
  by (simp add: vset_def)

lemma map_of_vset [simp]: "map_of (vset k v m) = (map_of m)(k \<mapsto> v)"
  by (simp add: vset_def)

lemma vset_nonempty [simp]: "vset k v m \<noteq> []"
  by (cases m) (auto simp: vset_def)

section \<open>An environment for evaluation\<close>

definition sample_env :: "(nat \<Rightarrow> http_req \<Rightarrow> go_error + http_resp) \<Rightarrow> (string \<Rightarrow> json option) \<Rightarrow> int net_env" where
  "sample_env resp parse =
     \<lparr>ne_dec = dec_int, ne_now = \<lambda>n. 1000 * second, ne_resp = resp, ne_bad_request = \<lambda>m u. None,
      ne_json = parse, ne_print = \<lambda>j. '''', ne_dec_json = \<lambda>j. None, ne_dec_print = \<lambda>d. JNull,
      ne_time_json = \<lambda>j. None, ne_hmac256_hex = \<lambda>k m. ''00'', ne_sha256 = \<lambda>s. '''',
      ne_hmac512 = \<lambda>k m. '''', ne_b64_decode = \<lambda>s. s, ne_b64_encode = \<lambda>s. s\<rparr>"

lemma sample_env_simps [simp]:
  "ne_now (sample_env resp parse) n = 1000 * second" "ne_bad_request (sample_env resp parse) method u = None"
  "ne_resp (sample_env resp parse) = resp" "ne_json (sample_env resp parse) = parse"
  "ne_hmac256_hex (sample_env resp parse) k msg = ''00''" "ne_dec (sample_env resp parse) = dec_int"
  by (simp_all add: sample_env_def)

definition world0 :: net_world where
  "world0 = \<lparr>nw_sent = [], nw_reads = 0\<rparr>"

end
