(* ===== verification/Rest_Adapter.thy ===== *)
theory Rest_Adapter
  imports Go_Http Rate_Limit
begin

text \<open>
  What the three REST adapters have in common. Their \<open>do\<close> functions ask the limiter first, send
  at most one request, and report a 429 answer back to the limiter; the locale
  \<open>gated_transport\<close> states this contract and proves what follows from it over any sequence of
  calls. The theories of the adapters interpret it on their \<open>do\<close>.
\<close>

section \<open>A transport behind a limiter\<close>

text \<open>A sequence of calls, with their results.\<close>

fun send_all ::
  "('r \<Rightarrow> 's \<Rightarrow> net_world \<Rightarrow> (go_error + 'b) \<times> 's \<times> net_world) \<Rightarrow> 'r list \<Rightarrow> 's \<Rightarrow> net_world \<Rightarrow>
   (go_error + 'b) list \<times> 's \<times> net_world"
where
  "send_all send [] s w = ([], s, w)"
| "send_all send (r # rs) s w =
     (case send r s w of (res, s1, w1) \<Rightarrow>
        (case send_all send rs s1 w1 of (ress, s2, w2) \<Rightarrow> (res # ress, s2, w2)))"

text \<open>The part of a URL after the first question mark.\<close>

definition url_query :: "string \<Rightarrow> string" where
  "url_query u = (case index_of (CHR ''?'') u of None \<Rightarrow> '''' | Some i \<Rightarrow> drop (Suc i) u)"

lemma time_now_eq: "time_now E w = (ne_now E (nw_reads w), w\<lparr>nw_reads := nw_reads w + 1\<rparr>)"
  by (simp add: time_now_def)

lemma url_query_append [simp]: "CHR ''?'' \<notin> set b \<Longrightarrow> url_query (b @ CHR ''?'' # q) = q"
  by (simp add: url_query_def index_of_append)

text \<open>\<open>until\<close> is the end of the penalty in the adapter's limiter.\<close>

locale gated_transport =
  fixes send :: "'r \<Rightarrow> 's \<Rightarrow> net_world \<Rightarrow> (go_error + 'b) \<times> 's \<times> net_world"
    and clock :: "nat \<Rightarrow> gotime"
    and until :: "'s \<Rightarrow> gotime"
  assumes sent_cases: "send r s w = (res, s', w') \<Longrightarrow>
      nw_sent w' = nw_sent w \<or> (\<exists>q. nw_sent w' = nw_sent w @ [q])"
    and reads_mono: "send r s w = (res, s', w') \<Longrightarrow> nw_reads w \<le> nw_reads w'"
    and blocked: "send r s w = (res, s', w') \<Longrightarrow> until s \<noteq> 0 \<Longrightarrow>
      (\<forall>i. nw_reads w \<le> i \<longrightarrow> i < nw_reads w' \<longrightarrow> clock i < until s) \<Longrightarrow>
      (\<exists>e. res = Inl e) \<and> nw_sent w' = nw_sent w \<and> until s' = until s"
begin

lemma send_all_reads: "send_all send rs s w = (ress, s', w') \<Longrightarrow> nw_reads w \<le> nw_reads w'"
  by (induction rs arbitrary: s w ress) (auto split: prod.splits dest!: reads_mono intro: order_trans)

text \<open>No call puts more than one request on the wire.\<close>

lemma send_all_count: "send_all send rs s w = (ress, s', w') \<Longrightarrow> length (nw_sent w') \<le> length (nw_sent w) + length rs"
proof (induction rs arbitrary: s w ress)
  case (Cons r rs)
  obtain res s1 w1 where 1: "send r s w = (res, s1, w1)" by (cases "send r s w")
  obtain ress2 s2 w2 where 2: "send_all send rs s1 w1 = (ress2, s2, w2)" by (cases "send_all send rs s1 w1")
  have "length (nw_sent w1) \<le> length (nw_sent w) + 1" using sent_cases [OF 1] by auto
  moreover have "s2 = s'" "w2 = w'" using Cons.prems 1 2 by auto
  ultimately show ?case using Cons.IH [OF 2 [unfolded \<open>s2 = s'\<close> \<open>w2 = w'\<close>]] by simp
qed simp

text \<open>During a penalty every call fails and nothing reaches the wire.\<close>

lemma send_all_blocked:
  assumes "send_all send rs s w = (ress, s', w')" "until s \<noteq> 0"
    and "\<forall>i. nw_reads w \<le> i \<longrightarrow> i < nw_reads w' \<longrightarrow> clock i < until s"
  shows "nw_sent w' = nw_sent w \<and> (\<forall>res \<in> set ress. \<exists>e. res = Inl e)"
  using assms
proof (induction rs arbitrary: s w ress)
  case (Cons r rs)
  obtain res s1 w1 where 1: "send r s w = (res, s1, w1)" by (cases "send r s w")
  obtain ress2 s2 w2 where 2: "send_all send rs s1 w1 = (ress2, s2, w2)" by (cases "send_all send rs s1 w1")
  have w2: "s2 = s'" "w2 = w'" and ress: "ress = res # ress2" using Cons.prems(1) 1 2 by auto
  have le: "nw_reads w \<le> nw_reads w1" "nw_reads w1 \<le> nw_reads w'"
    using reads_mono [OF 1] send_all_reads [OF 2] w2 by auto
  have b: "(\<exists>e. res = Inl e) \<and> nw_sent w1 = nw_sent w \<and> until s1 = until s"
    using blocked [OF 1 Cons.prems(2)] Cons.prems(3) le by auto
  then show ?case using Cons.IH [OF 2 [unfolded w2]] Cons.prems(2,3) le ress by auto
qed simp

end

section \<open>A transport that is metered exactly\<close>

text \<open>
  The limiter sees one request per call, at two clock readings of that call, and perhaps a
  penalty; the wire sees a request only when the limiter admitted it.
\<close>

lemma serve_append:
  "serve wait penal (evs @ evs') l =
     (case serve wait penal evs l of (l1, adm) \<Rightarrow>
        (case serve wait penal evs' l1 of (l2, adm') \<Rightarrow> (l2, adm @ adm')))"
proof (induction evs arbitrary: l)
  case (Cons ev evs)
  then show ?case by (cases ev) (auto split: prod.split)
qed (simp split: prod.split)

fun event_read :: "(nat \<Rightarrow> gotime) \<Rightarrow> nat \<Rightarrow> nat \<Rightarrow> limiter_event \<Rightarrow> bool" where
  "event_read clock m n (Request t1 t2 k) \<longleftrightarrow> (\<exists>i j. m \<le> i \<and> i < n \<and> m \<le> j \<and> j < n \<and> t1 = clock i \<and> t2 = clock j)"
| "event_read clock m n (Penalty t v d) \<longleftrightarrow> True"

fun event_cost :: "limiter_event \<Rightarrow> int64 list" where
  "event_cost (Request t1 t2 k) = [k]"
| "event_cost (Penalty t v d) = []"

lemma serve_admits_subseq: "serve wait penal evs l = (l', adm) \<Longrightarrow> subseq adm (concat (map event_cost evs))"
proof (induction evs arbitrary: l adm)
  case (Cons ev evs)
  then show ?case
    by (cases ev) (auto split: prod.splits if_splits intro: list_emb_Cons)
qed simp

lemma event_read_between:
  assumes "event_read clock m n ev" "\<forall>i. m \<le> i \<longrightarrow> i < n \<longrightarrow> a \<le> clock i \<and> clock i < T"
  shows "requests_between a T ev"
  using assms by (cases ev) auto

lemma event_cost_sane: "\<forall>k \<in> set (event_cost ev). 0 \<le> k \<and> k < 2 ^ 62 \<Longrightarrow> sane_event ev"
  by (cases ev) auto

lemma event_readI:
  "m \<le> i \<Longrightarrow> i < n \<Longrightarrow> m \<le> j \<Longrightarrow> j < n \<Longrightarrow> event_read clock m n (Request (clock i) (clock j) k)"
  by (subst event_read.simps) blast

lemma event_read_mono: "event_read clock m n ev \<Longrightarrow> m' \<le> m \<Longrightarrow> n \<le> n' \<Longrightarrow> event_read clock m' n' ev"
proof (cases ev)
  case (Request t1 t2 k)
  assume "event_read clock m n ev" "m' \<le> m" "n \<le> n'"
  then obtain i j where "m \<le> i" "i < n" "m \<le> j" "j < n" "t1 = clock i" "t2 = clock j" using Request by auto
  with \<open>m' \<le> m\<close> \<open>n \<le> n'\<close> Request show ?thesis by (simp add: event_readI del: event_read.simps)
qed simp

locale metered_transport = gated_transport send clock until
  for send :: "'r \<Rightarrow> 's \<Rightarrow> net_world \<Rightarrow> (go_error + 'b) \<times> 's \<times> net_world" and clock until +
  fixes limiter :: "'s \<Rightarrow> 'l"
    and wait :: "gotime \<Rightarrow> gotime \<Rightarrow> int64 \<Rightarrow> 'l \<Rightarrow> 'l \<times> go_error option \<times> gauge_sets"
    and penal :: "gotime \<Rightarrow> string \<Rightarrow> duration \<Rightarrow> 'l \<Rightarrow> 'l"
    and cost :: "'r \<Rightarrow> int64"
  assumes metered: "send r s w = (res, s', w') \<Longrightarrow>
      \<exists>evs adm new. serve wait penal evs (limiter s) = (limiter s', adm) \<and> nw_sent w' = nw_sent w @ new \<and>
        length new \<le> length adm \<and> (\<forall>ev \<in> set evs. event_read clock (nw_reads w) (nw_reads w') ev) \<and>
        subseq (concat (map event_cost evs)) [cost r]"
begin

lemma send_all_metered:
  "send_all send rs s w = (ress, s', w') \<Longrightarrow>
   \<exists>evs adm new. serve wait penal evs (limiter s) = (limiter s', adm) \<and> nw_sent w' = nw_sent w @ new \<and>
     length new \<le> length adm \<and> (\<forall>ev \<in> set evs. event_read clock (nw_reads w) (nw_reads w') ev) \<and>
     subseq (concat (map event_cost evs)) (map cost rs)"
proof (induction rs arbitrary: s w ress)
  case Nil
  then show ?case by (intro exI [of _ "[]"]) simp
next
  case (Cons r rs)
  obtain res s1 w1 where 1: "send r s w = (res, s1, w1)" by (cases "send r s w")
  obtain ress2 where 2: "send_all send rs s1 w1 = (ress2, s', w')"
    using Cons.prems 1 by (auto split: prod.splits)
  obtain evs1 adm1 new1 where a: "serve wait penal evs1 (limiter s) = (limiter s1, adm1)"
    "nw_sent w1 = nw_sent w @ new1" "length new1 \<le> length adm1"
    "\<forall>ev \<in> set evs1. event_read clock (nw_reads w) (nw_reads w1) ev" "subseq (concat (map event_cost evs1)) [cost r]"
    using metered [OF 1] by blast
  obtain evs2 adm2 new2 where b: "serve wait penal evs2 (limiter s1) = (limiter s', adm2)"
    "nw_sent w' = nw_sent w1 @ new2" "length new2 \<le> length adm2"
    "\<forall>ev \<in> set evs2. event_read clock (nw_reads w1) (nw_reads w') ev"
    "subseq (concat (map event_cost evs2)) (map cost rs)"
    using Cons.IH [OF 2] by blast
  have le: "nw_reads w \<le> nw_reads w1" "nw_reads w1 \<le> nw_reads w'"
    using reads_mono [OF 1] send_all_reads [OF 2] by auto
  have "subseq (concat (map event_cost evs1) @ concat (map event_cost evs2)) ([cost r] @ map cost rs)"
    using a(5) b(5) by (rule list_emb_append_mono)
  then show ?case using a b le
    by (intro exI [of _ "evs1 @ evs2"] exI [of _ "adm1 @ adm2"] exI [of _ "new1 @ new2"])
      (auto simp: serve_append intro: event_read_mono [OF _ order_refl] event_read_mono [OF _ _ order_refl])
qed

end

end
