(* ===== verification/Binance_Rest.thy ===== *)
theory Binance_Rest
  imports Rest_Adapter
begin

text \<open>
  The REST adapter of \<open>internal/adapters/binance/binance.go\<close>: signed requests under the weighted
  limiter, and the six operations of a venue connector (the book subscription is the theory
  \<open>Binance_Book\<close>). Each operation threads the connector (its nonce and its limiter) and the
  world. The response header that \<open>do\<close> returns beside the body is dropped by every caller and
  is not a result here.
\<close>

section \<open>Definitions\<close>

record binance_conn =
  bn_cfg :: venue_config
  bn_apiKey :: string
  bn_apiSecret :: string
  bn_limiter :: weighted_limiter
  bn_nonce :: int64

definition readBudget :: "string \<Rightarrow> int64" where
  "readBudget b = (if b = '''' then 1200 else case parse_int64 b of None \<Rightarrow> 1200 | Some n \<Rightarrow> n)"

text \<open>The environment variables and the readings of the clock are arguments.\<close>

definition Binance_NewConnector ::
  "string \<Rightarrow> string \<Rightarrow> string \<Rightarrow> gotime \<Rightarrow> gotime \<Rightarrow> string \<Rightarrow> string \<Rightarrow> weighted_limiter option \<Rightarrow> binance_conn"
where
  "Binance_NewConnector env_REST env_WS env_BUDGET now1 now2 apiKey apiSecret limiter =
     \<lparr>bn_cfg = \<lparr>vc_Name = ''binance'',
                vc_RESTBase = (if env_REST = '''' then ''https://api.binance.com'' else env_REST),
                vc_WSBase = (if env_WS = '''' then ''wss://stream.binance.com:9443/ws'' else env_WS),
                vc_Knobs = []\<rparr>,
      bn_apiKey = apiKey, bn_apiSecret = apiSecret,
      bn_limiter = (case limiter of
                      None \<Rightarrow> NewWeightedLimiter now1 ''binance'' (readBudget env_BUDGET)
                    | Some l \<Rightarrow> l),
      bn_nonce = UnixMilli now2\<rparr>"

record rest_error =
  re_Code :: int64
  re_Msg :: string

definition rest_error_fields :: "rest_error field list" where
  "rest_error_fields =
     [field ''code'' re_Code re_Code_update decode_int64, field ''msg'' re_Msg re_Msg_update decode_string]"

definition Binance_sign :: "'d net_env \<Rightarrow> binance_conn \<Rightarrow> string \<Rightarrow> string" where
  "Binance_sign E c query = ne_hmac256_hex E (bn_apiSecret c) query"

text \<open>The header \<open>X-MBX-USED-WEIGHT-1M\<close>.\<close>

definition report_used :: "string \<Rightarrow> weighted_limiter \<Rightarrow> weighted_limiter" where
  "report_used h l =
     (if h = '''' then l
      else case parse_int64 h of None \<Rightarrow> l | Some used \<Rightarrow> fst (WeightedLimiter_UpdateUsed ''binance'' used l))"

definition Binance_do ::
  "'d net_env \<Rightarrow> http_req \<Rightarrow> int64 \<Rightarrow> binance_conn \<Rightarrow> net_world \<Rightarrow>
   (go_error + string) \<times> binance_conn \<times> net_world"
where
  "Binance_do E req weight c w0 =
     (case time_now E w0 of (now1, w1) \<Rightarrow>
      case time_now E w1 of (now2, w2) \<Rightarrow>
      case WeightedLimiter_Wait now1 now2 weight (bn_limiter c) of (l, err, _) \<Rightarrow>
      let c1 = c\<lparr>bn_limiter := l\<rparr> in
      case err of
        Some e \<Rightarrow> (Inl e, c1, w2)
      | None \<Rightarrow>
          (case http_do E req w2 of
             (Inl e, w3) \<Rightarrow> (Inl e, c1, w3)
           | (Inr resp, w3) \<Rightarrow>
               (case hr_body resp of
                  Inl e \<Rightarrow> (Inl e, c1, w3)
                | Inr body \<Rightarrow>
                    (let c2 = c1\<lparr>bn_limiter := report_used (hr_header resp ''X-MBX-USED-WEIGHT-1M'') l\<rparr> in
                     if hr_status resp = 429 \<or> hr_status resp = 418 then
                       (case time_now E w3 of (now3, w4) \<Rightarrow>
                          (Inl (ErrMsg (''binance: rate limited (status '' @ format_int (hr_status resp) @ '')'')),
                           c2\<lparr>bn_limiter := WeightedLimiter_Backoff now3 ''binance'' (30 * second) (bn_limiter c2)\<rparr>,
                           w4))
                     else if hr_status resp \<ge> 400 then
                       (let re = fst (unmarshal (ne_json E) (decode_struct rest_error_fields)
                                        \<lparr>re_Code = 0, re_Msg = ''''\<rparr> body)
                        in (Inl (ErrMsg (''binance: status '' @ format_int (hr_status resp) @ '' code '' @
                              format_int (re_Code re) @ '' msg '' @ re_Msg re)), c2, w3))
                     else (Inr body, c2, w3)))))"

definition Binance_doSigned ::
  "'d net_env \<Rightarrow> string \<Rightarrow> string \<Rightarrow> url_values \<Rightarrow> int64 \<Rightarrow> binance_conn \<Rightarrow> net_world \<Rightarrow>
   (go_error + string) \<times> binance_conn \<times> net_world"
where
  "Binance_doSigned E meth path params weight c w =
     (let ts = add64 (bn_nonce c) 1;
          c1 = c\<lparr>bn_nonce := ts\<rparr>;
          params1 = vset ''recvWindow'' ''5000'' (vset ''timestamp'' (format_int ts) params);
          query = encode_values params1;
          sig = Binance_sign E c1 query;
          full = query @ ''&signature='' @ sig;
          u = vc_RESTBase (bn_cfg c1) @ path @ ''?'' @ full
      in case new_request E meth u None of
           Inl err \<Rightarrow> (Inl err, c1, w)
         | Inr req \<Rightarrow> Binance_do E (set_header ''X-MBX-APIKEY'' (bn_apiKey c1) req) weight c1 w)"

subsection \<open>Orders\<close>

record binance_fill =
  bf_Price :: string
  bf_Qty :: string
  bf_Commission :: string
  bf_CommissionAsset :: string
  bf_TradeID :: int64

definition binance_fill_zero :: binance_fill where
  "binance_fill_zero =
     \<lparr>bf_Price = '''', bf_Qty = '''', bf_Commission = '''', bf_CommissionAsset = '''', bf_TradeID = 0\<rparr>"

definition binance_fill_fields :: "binance_fill field list" where
  "binance_fill_fields =
     [field ''price'' bf_Price bf_Price_update decode_string,
      field ''qty'' bf_Qty bf_Qty_update decode_string,
      field ''commission'' bf_Commission bf_Commission_update decode_string,
      field ''commissionAsset'' bf_CommissionAsset bf_CommissionAsset_update decode_string,
      field ''tradeId'' bf_TradeID bf_TradeID_update decode_int64]"

record place_order_resp =
  po_OrderID :: int64
  po_ClientOrderID :: string
  po_Status :: string
  po_ExecutedQty :: string
  po_CummulativeQuoteQty :: string
  po_Fills :: "binance_fill list"
  po_Symbol :: string

definition place_order_zero :: place_order_resp where
  "place_order_zero =
     \<lparr>po_OrderID = 0, po_ClientOrderID = '''', po_Status = '''', po_ExecutedQty = '''',
      po_CummulativeQuoteQty = '''', po_Fills = [], po_Symbol = ''''\<rparr>"

definition place_order_fields :: "place_order_resp field list" where
  "place_order_fields =
     [field ''orderId'' po_OrderID po_OrderID_update decode_int64,
      field ''clientOrderId'' po_ClientOrderID po_ClientOrderID_update decode_string,
      field ''status'' po_Status po_Status_update decode_string,
      field ''executedQty'' po_ExecutedQty po_ExecutedQty_update decode_string,
      field ''cummulativeQuoteQty'' po_CummulativeQuoteQty po_CummulativeQuoteQty_update decode_string,
      field ''fills'' po_Fills po_Fills_update (decode_slice (decode_struct binance_fill_fields) binance_fill_zero),
      field ''symbol'' po_Symbol po_Symbol_update decode_string]"

definition normalizeSymbol :: "string \<Rightarrow> string" where
  "normalizeSymbol s = to_upper s"

definition Binance_mapStatus :: "string \<Rightarrow> string" where
  "Binance_mapStatus s =
     (let u = to_upper s in
      if u = ''NEW'' then OrderStatusNew
      else if u = ''PARTIALLY_FILLED'' \<or> u = ''PARTIALLYFILLED'' then OrderStatusPartial
      else if u = ''FILLED'' then OrderStatusFilled
      else if u = ''CANCELED'' \<or> u = ''CANCELLED'' then OrderStatusCanceled
      else s)"

text \<open>The loop over the fills, each of which takes a reading of the clock.\<close>

fun map_order_fills ::
  "'d net_env \<Rightarrow> int64 \<Rightarrow> binance_fill list \<Rightarrow> net_world \<Rightarrow> 'd fill list \<times> net_world"
where
  "map_order_fills E oid [] w = ([], w)"
| "map_order_fills E oid (f # fs) w =
     (case time_now E w of (now, w1) \<Rightarrow>
      case map_order_fills E oid fs w1 of (rest, w2) \<Rightarrow>
        (\<lparr>fl_VenueOrderID = format_int oid, fl_TradeID = format_int (bf_TradeID f),
          fl_Price = dec_parse (ne_dec E) (bf_Price f), fl_Quantity = dec_parse (ne_dec E) (bf_Qty f),
          fl_Fee = dec_parse (ne_dec E) (bf_Commission f), fl_FeeAsset = bf_CommissionAsset f,
          fl_Timestamp = now\<rparr> # rest, w2))"

definition Binance_mapOrder ::
  "'d net_env \<Rightarrow> place_order_resp \<Rightarrow> net_world \<Rightarrow> 'd order_response \<times> net_world"
where
  "Binance_mapOrder E r w =
     (let D = ne_dec E;
          exec = dec_parse D (po_ExecutedQty r);
          avg = (if po_CummulativeQuoteQty r \<noteq> '''' \<and> \<not> dec_is_zero D exec
                 then dec_div D (dec_parse D (po_CummulativeQuoteQty r)) exec else dec_zero D);
          (fills, w') = map_order_fills E (po_OrderID r) (po_Fills r) w;
          avg' = (if dec_is_zero D avg \<and> length fills > 0 then fl_Price (fills ! 0) else avg)
      in (\<lparr>or_VenueOrderID = format_int (po_OrderID r), or_ClientOrderID = po_ClientOrderID r,
           or_Status = Binance_mapStatus (po_Status r), or_FilledQty = exec, or_AvgPrice = avg',
           or_Fills = fills\<rparr>, w'))"

definition place_order_params :: "'d dec_ops \<Rightarrow> 'd order_request \<Rightarrow> url_values" where
  "place_order_params D req =
     (let p = vset ''newClientOrderId'' (rq_ClientOrderID req)
                (vset ''quantity'' (dec_string D (rq_Quantity req))
                  (vset ''type'' (rq_Type req)
                    (vset ''side'' (rq_Side req)
                      (vset ''symbol'' (normalizeSymbol (rq_Symbol req)) []))))
      in if rq_Type req = OrderTypeLimit
         then vset ''timeInForce'' ''GTC'' (vset ''price'' (dec_string D (rq_Price req)) p) else p)"

definition Binance_PlaceOrder ::
  "'d net_env \<Rightarrow> 'd order_request \<Rightarrow> binance_conn \<Rightarrow> net_world \<Rightarrow>
   (go_error + 'd order_response) \<times> binance_conn \<times> net_world"
where
  "Binance_PlaceOrder E req c w =
     (if rq_ClientOrderID req = '''' then (Inl (ErrMsg ''binance: client_order_id required''), c, w)
      else
        (case Binance_doSigned E ''POST'' ''/api/v3/order'' (place_order_params (ne_dec E) req) 1 c w of
           (Inl err, c1, w1) \<Rightarrow> (Inl err, c1, w1)
         | (Inr body, c1, w1) \<Rightarrow>
             (case unmarshal_or (ne_json E) (decode_struct place_order_fields) place_order_zero body of
                Inl err \<Rightarrow> (Inl err, c1, w1)
              | Inr r \<Rightarrow> (case Binance_mapOrder E r w1 of (o', w2) \<Rightarrow> (Inr o', c1, w2)))))"

record order_resp =
  os_OrderID :: int64
  os_ClientOrderID :: string
  os_Status :: string
  os_ExecutedQty :: string
  os_CummulativeQuoteQty :: string
  os_Symbol :: string

definition order_resp_zero :: order_resp where
  "order_resp_zero =
     \<lparr>os_OrderID = 0, os_ClientOrderID = '''', os_Status = '''', os_ExecutedQty = '''',
      os_CummulativeQuoteQty = '''', os_Symbol = ''''\<rparr>"

definition order_resp_fields :: "order_resp field list" where
  "order_resp_fields =
     [field ''orderId'' os_OrderID os_OrderID_update decode_int64,
      field ''clientOrderId'' os_ClientOrderID os_ClientOrderID_update decode_string,
      field ''status'' os_Status os_Status_update decode_string,
      field ''executedQty'' os_ExecutedQty os_ExecutedQty_update decode_string,
      field ''cummulativeQuoteQty'' os_CummulativeQuoteQty os_CummulativeQuoteQty_update decode_string,
      field ''symbol'' os_Symbol os_Symbol_update decode_string]"

definition mapOrderSimple :: "'d dec_ops \<Rightarrow> order_resp \<Rightarrow> 'd order_response" where
  "mapOrderSimple D r =
     (let exec = dec_parse D (os_ExecutedQty r);
          quote = dec_parse D (os_CummulativeQuoteQty r);
          avg = (if \<not> dec_is_zero D exec then dec_div D quote exec else dec_zero D)
      in \<lparr>or_VenueOrderID = format_int (os_OrderID r), or_ClientOrderID = os_ClientOrderID r,
          or_Status = Binance_mapStatus (os_Status r), or_FilledQty = exec, or_AvgPrice = avg,
          or_Fills = []\<rparr>)"

definition Binance_GetOrder ::
  "'d net_env \<Rightarrow> string \<Rightarrow> binance_conn \<Rightarrow> net_world \<Rightarrow>
   (go_error + 'd order_response) \<times> binance_conn \<times> net_world"
where
  "Binance_GetOrder E venueOrderID c w =
     (case Binance_doSigned E ''GET'' ''/api/v3/order'' (vset ''orderId'' venueOrderID []) 1 c w of
        (Inl err, c1, w1) \<Rightarrow> (Inl err, c1, w1)
      | (Inr body, c1, w1) \<Rightarrow>
          (case unmarshal_or (ne_json E) (decode_struct order_resp_fields) order_resp_zero body of
             Inl err \<Rightarrow> (Inl err, c1, w1)
           | Inr r \<Rightarrow> (Inr (mapOrderSimple (ne_dec E) r), c1, w1)))"

definition Binance_CancelOrder ::
  "'d net_env \<Rightarrow> cancel_request \<Rightarrow> binance_conn \<Rightarrow> net_world \<Rightarrow> go_error option \<times> binance_conn \<times> net_world"
where
  "Binance_CancelOrder E req c w =
     (if cr_VenueOrderID req = '''' \<and> cr_ClientOrderID req = '''' then
        (Some (ErrMsg ''binance: cancel requires venue or client order id''), c, w)
      else
        (let params = (if cr_VenueOrderID req \<noteq> '''' then vset ''orderId'' (cr_VenueOrderID req) []
                       else vset ''origClientOrderId'' (cr_ClientOrderID req) [])
         in case Binance_doSigned E ''DELETE'' ''/api/v3/order'' params 1 c w of
              (Inl err, c1, w1) \<Rightarrow> (Some err, c1, w1)
            | (Inr _, c1, w1) \<Rightarrow> (None, c1, w1)))"

subsection \<open>Fills and balances\<close>

record binance_trade =
  bt_TradeID :: int64
  bt_Price :: string
  bt_Qty :: string
  bt_Commission :: string
  bt_CommissionAsset :: string
  bt_Time :: int64

definition binance_trade_zero :: binance_trade where
  "binance_trade_zero =
     \<lparr>bt_TradeID = 0, bt_Price = '''', bt_Qty = '''', bt_Commission = '''', bt_CommissionAsset = '''', bt_Time = 0\<rparr>"

definition binance_trade_fields :: "binance_trade field list" where
  "binance_trade_fields =
     [field ''id'' bt_TradeID bt_TradeID_update decode_int64,
      field ''price'' bt_Price bt_Price_update decode_string,
      field ''qty'' bt_Qty bt_Qty_update decode_string,
      field ''commission'' bt_Commission bt_Commission_update decode_string,
      field ''commissionAsset'' bt_CommissionAsset bt_CommissionAsset_update decode_string,
      field ''time'' bt_Time bt_Time_update decode_int64]"

record binance_fills_resp =
  fr_Fills :: "binance_trade list"

definition binance_fills_fields :: "binance_fills_resp field list" where
  "binance_fills_fields =
     [field ''fills'' fr_Fills fr_Fills_update (decode_slice (decode_struct binance_trade_fields) binance_trade_zero)]"

definition fills_params :: "fill_query \<Rightarrow> url_values" where
  "fills_params q =
     (let p1 = (if fq_VenueOrderID q \<noteq> '''' then vset ''orderId'' (fq_VenueOrderID q) [] else []);
          p2 = (if fq_Start q \<noteq> 0 then vset ''startTime'' (format_int (UnixMilli (fq_Start q))) p1 else p1);
          p3 = (if fq_End q \<noteq> 0 then vset ''endTime'' (format_int (UnixMilli (fq_End q))) p2 else p2)
      in vset ''limit'' (if fq_Limit q > 0 then format_int (fq_Limit q) else ''500'') p3)"

definition binance_trade_fill :: "'d dec_ops \<Rightarrow> fill_query \<Rightarrow> binance_trade \<Rightarrow> 'd fill" where
  "binance_trade_fill D q f =
     \<lparr>fl_VenueOrderID = fq_VenueOrderID q, fl_TradeID = format_int (bt_TradeID f),
      fl_Price = dec_parse D (bt_Price f), fl_Quantity = dec_parse D (bt_Qty f),
      fl_Fee = dec_parse D (bt_Commission f), fl_FeeAsset = bt_CommissionAsset f,
      fl_Timestamp = time_of_milli (bt_Time f)\<rparr>"

definition Binance_GetFills ::
  "'d net_env \<Rightarrow> fill_query \<Rightarrow> binance_conn \<Rightarrow> net_world \<Rightarrow>
   (go_error + 'd fill list) \<times> binance_conn \<times> net_world"
where
  "Binance_GetFills E q c w =
     (case Binance_doSigned E ''GET'' ''/api/v3/myTrades'' (fills_params q) 10 c w of
        (Inl err, c1, w1) \<Rightarrow> (Inl err, c1, w1)
      | (Inr body, c1, w1) \<Rightarrow>
          (case unmarshal_or (ne_json E) (decode_struct binance_fills_fields) \<lparr>fr_Fills = []\<rparr> body of
             Inl err \<Rightarrow> (Inl err, c1, w1)
           | Inr r \<Rightarrow> (Inr (map (binance_trade_fill (ne_dec E) q) (fr_Fills r)), c1, w1)))"

record binance_balance =
  bb_Asset :: string
  bb_Free :: string
  bb_Locked :: string

definition binance_balance_fields :: "binance_balance field list" where
  "binance_balance_fields =
     [field ''asset'' bb_Asset bb_Asset_update decode_string,
      field ''free'' bb_Free bb_Free_update decode_string,
      field ''locked'' bb_Locked bb_Locked_update decode_string]"

record account_resp =
  ar_Balances :: "binance_balance list"

definition account_fields :: "account_resp field list" where
  "account_fields =
     [field ''balances'' ar_Balances ar_Balances_update
        (decode_slice (decode_struct binance_balance_fields) \<lparr>bb_Asset = '''', bb_Free = '''', bb_Locked = ''''\<rparr>)]"

definition Binance_GetBalances ::
  "'d net_env \<Rightarrow> binance_conn \<Rightarrow> net_world \<Rightarrow> (go_error + 'd balances) \<times> binance_conn \<times> net_world"
where
  "Binance_GetBalances E c w =
     (case Binance_doSigned E ''GET'' ''/api/v3/account'' [] 5 c w of
        (Inl err, c1, w1) \<Rightarrow> (Inl err, c1, w1)
      | (Inr body, c1, w1) \<Rightarrow>
          (case unmarshal_or (ne_json E) (decode_struct account_fields) \<lparr>ar_Balances = []\<rparr> body of
             Inl err \<Rightarrow> (Inl err, c1, w1)
           | Inr r \<Rightarrow>
               (Inr (fold (\<lambda>b. AList.update (bb_Asset b)
                            \<lparr>bl_Asset = bb_Asset b, bl_Free = dec_parse (ne_dec E) (bb_Free b),
                             bl_Locked = dec_parse (ne_dec E) (bb_Locked b)\<rparr>) (ar_Balances r) []), c1, w1)))"

section \<open>The transport\<close>

text \<open>How \<open>do\<close> ends, with the request on the wire or not.\<close>

lemma Binance_do_rejected:
  assumes "WeightedLimiter_Wait (ne_now E (nw_reads w)) (ne_now E (Suc (nw_reads w))) k (bn_limiter c) = (l, Some e, m)"
  shows "Binance_do E r k c w = (Inl e, c\<lparr>bn_limiter := l\<rparr>, w\<lparr>nw_reads := nw_reads w + 2\<rparr>)"
  using assms by (simp add: Binance_do_def time_now_eq Let_def)

lemma Binance_do_sent:
  assumes "WeightedLimiter_Wait (ne_now E (nw_reads w)) (ne_now E (Suc (nw_reads w))) k (bn_limiter c) = (l, None, m)"
    and "Binance_do E r k c w = (res, c', w')"
  shows "nw_sent w' = nw_sent w @ [r] \<and> nw_reads w \<le> nw_reads w' \<and> bn_nonce c' = bn_nonce c \<and>
    bn_cfg c' = bn_cfg c \<and> bn_apiKey c' = bn_apiKey c \<and> bn_apiSecret c' = bn_apiSecret c"
  using assms
  by (auto simp: Binance_do_def time_now_eq http_do_def Let_def split: sum.splits if_splits)

lemma Binance_do_frame:
  assumes "Binance_do E r k c w = (res, c', w')"
  shows "(nw_sent w' = nw_sent w \<or> nw_sent w' = nw_sent w @ [r]) \<and> nw_reads w \<le> nw_reads w' \<and>
    bn_nonce c' = bn_nonce c \<and> bn_cfg c' = bn_cfg c \<and> bn_apiKey c' = bn_apiKey c \<and> bn_apiSecret c' = bn_apiSecret c"
proof -
  obtain l e m where l: "WeightedLimiter_Wait (ne_now E (nw_reads w)) (ne_now E (Suc (nw_reads w))) k (bn_limiter c) = (l, e, m)"
    by (cases "WeightedLimiter_Wait (ne_now E (nw_reads w)) (ne_now E (Suc (nw_reads w))) k (bn_limiter c)")
  show ?thesis
  proof (cases e)
    case None
    then show ?thesis using Binance_do_sent [OF l [unfolded None] assms] by simp
  next
    case (Some x)
    then show ?thesis using Binance_do_rejected [OF l [unfolded Some], of r] assms by auto
  qed
qed



text \<open>The query that \<open>doSigned\<close> signs, and the request it makes.\<close>

definition signed_params :: "int64 \<Rightarrow> url_values \<Rightarrow> url_values" where
  "signed_params ts params = vset ''recvWindow'' ''5000'' (vset ''timestamp'' (format_int ts) params)"

definition signed_query :: "'d net_env \<Rightarrow> binance_conn \<Rightarrow> url_values \<Rightarrow> string" where
  "signed_query E c params =
     (let query = encode_values (signed_params (add64 (bn_nonce c) 1) params)
      in query @ ''&signature='' @ ne_hmac256_hex E (bn_apiSecret c) query)"

definition signed_request :: "'d net_env \<Rightarrow> binance_conn \<Rightarrow> string \<Rightarrow> string \<Rightarrow> url_values \<Rightarrow> http_req" where
  "signed_request E c meth path params =
     \<lparr>hq_method = meth, hq_url = vc_RESTBase (bn_cfg c) @ path @ ''?'' @ signed_query E c params,
      hq_headers = [(''X-MBX-APIKEY'', bn_apiKey c)], hq_body = None\<rparr>"

lemma Binance_doSigned_eq:
  "Binance_doSigned E meth path params weight c w =
     (case ne_bad_request E meth (hq_url (signed_request E c meth path params)) of
        Some err \<Rightarrow> (Inl err, c\<lparr>bn_nonce := add64 (bn_nonce c) 1\<rparr>, w)
      | None \<Rightarrow> Binance_do E (signed_request E c meth path params) weight
                  (c\<lparr>bn_nonce := add64 (bn_nonce c) 1\<rparr>) w)"
  by (simp add: Binance_doSigned_def signed_request_def signed_query_def signed_params_def new_request_def
      set_header_def Binance_sign_def Let_def split: option.split)

lemma Binance_doSigned_frame:
  assumes "Binance_doSigned E meth path params k c w = (res, c', w')"
  shows "(nw_sent w' = nw_sent w \<or> nw_sent w' = nw_sent w @ [signed_request E c meth path params]) \<and>
    nw_reads w \<le> nw_reads w' \<and> bn_nonce c' = add64 (bn_nonce c) 1 \<and> bn_cfg c' = bn_cfg c \<and>
    bn_apiKey c' = bn_apiKey c \<and> bn_apiSecret c' = bn_apiSecret c"
  using assms unfolding Binance_doSigned_eq
  by (auto split: option.splits dest!: Binance_do_frame)

text \<open>An answer comes from a request that was sent.\<close>

lemma Binance_doSigned_answered:
  assumes "Binance_doSigned E meth path params k c w = (Inr body, c', w')"
  shows "nw_sent w' = nw_sent w @ [signed_request E c meth path params]"
proof -
  let ?c = "c\<lparr>bn_nonce := add64 (bn_nonce c) 1\<rparr>" and ?r = "signed_request E c meth path params"
  have d: "Binance_do E ?r k ?c w = (Inr body, c', w')"
    using assms by (auto simp: Binance_doSigned_eq split: option.splits)
  obtain l e m where l: "WeightedLimiter_Wait (ne_now E (nw_reads w)) (ne_now E (Suc (nw_reads w))) k (bn_limiter ?c) = (l, e, m)"
    by (metis surj_pair)
  have "e = None" using Binance_do_rejected [of E w k ?c l _ m ?r] d l by (cases e) auto
  then show ?thesis using Binance_do_sent [OF l [unfolded \<open>e = None\<close>] d] by simp
qed


text \<open>A call of \<open>doSigned\<close>: method, path, parameters and weight.\<close>

type_synonym signed_call = "string \<times> string \<times> url_values \<times> int64"

definition binance_call ::
  "'d net_env \<Rightarrow> signed_call \<Rightarrow> binance_conn \<Rightarrow> net_world \<Rightarrow> (go_error + string) \<times> binance_conn \<times> net_world"
where
  "binance_call E = (\<lambda>(meth, path, params, weight). Binance_doSigned E meth path params weight)"


subsection \<open>What the venue reads\<close>

lemma signed_query_decoded:
  assumes "CHR ''&'' \<notin> set (ne_hmac256_hex E (bn_apiSecret c) (encode_values (signed_params (add64 (bn_nonce c) 1) params)))"
  shows "butlast (decode_query (signed_query E c params)) = sort_key fst (signed_params (add64 (bn_nonce c) 1) params)"
proof -
  let ?p = "signed_params (add64 (bn_nonce c) 1) params"
  have "signed_query E c params = encode_values ?p @ CHR ''&'' # ''signature='' @ ne_hmac256_hex E (bn_apiSecret c) (encode_values ?p)"
    by (simp add: signed_query_def Let_def)
  moreover have "?p \<noteq> []" by (simp add: signed_params_def)
  ultimately show ?thesis
    using assms decode_query_append [of ?p "''signature='' @ ne_hmac256_hex E (bn_apiSecret c) (encode_values ?p)"]
    by simp
qed

lemma map_order_fills_sent: "map_order_fills E oid fs w = (fills, w') \<Longrightarrow> nw_sent w' = nw_sent w"
  by (induction fs arbitrary: w fills) (auto simp: time_now_eq split: prod.splits)

lemma Binance_mapOrder_sent: "Binance_mapOrder E p w = (x, w') \<Longrightarrow> nw_sent w' = nw_sent w"
  by (auto simp: Binance_mapOrder_def Let_def map_order_fills_sent split: prod.splits)

lemma Binance_PlaceOrder_frame:
  assumes "Binance_PlaceOrder E req c w = (res, c', w')" "rq_ClientOrderID req \<noteq> ''''"
    and "Binance_doSigned E ''POST'' ''/api/v3/order'' (place_order_params (ne_dec E) req) 1 c w = (res1, c1, w1)"
  shows "c' = c1 \<and> nw_sent w' = nw_sent w1"
proof (cases res1)
  case (Inl err)
  then show ?thesis using assms by (simp add: Binance_PlaceOrder_def)
next
  case (Inr body)
  show ?thesis
  proof (cases "unmarshal_or (ne_json E) (decode_struct place_order_fields) place_order_zero body")
    case (Inl err)
    then show ?thesis using assms \<open>res1 = Inr body\<close> by (simp add: Binance_PlaceOrder_def)
  next
    case (Inr p)
    then show ?thesis using assms \<open>res1 = Inr body\<close>
      by (simp add: Binance_PlaceOrder_def Binance_mapOrder_sent split: prod.splits)
  qed
qed

definition request_params :: "http_req \<Rightarrow> string \<rightharpoonup> string" where
  "request_params r = map_of (butlast (decode_query (url_query (hq_url r))))"

lemma request_params_signed:
  assumes "\<forall>k m. CHR ''&'' \<notin> set (ne_hmac256_hex E k m)" "CHR ''?'' \<notin> set (vc_RESTBase (bn_cfg c) @ path)" "wf_map params"
  shows "request_params (signed_request E c meth path params) =
    (map_of params)(''timestamp'' \<mapsto> format_int (add64 (bn_nonce c) 1), ''recvWindow'' \<mapsto> ''5000'')"
proof -
  have "hq_url (signed_request E c meth path params) = (vc_RESTBase (bn_cfg c) @ path) @ CHR ''?'' # signed_query E c params"
    by (simp add: signed_request_def)
  then have "url_query (hq_url (signed_request E c meth path params)) = signed_query E c params"
    using url_query_append [OF assms(2)] by simp
  then show ?thesis
    using signed_query_decoded [of E c params] assms(1,3)
    by (simp add: request_params_def map_of_sort_key signed_params_def)
qed

lemma send_all_binance_nonces:
  assumes "send_all (binance_call E) calls c w = (ress, c', w')"
    and "in_int64 (bn_nonce c)" "bn_nonce c + int (length calls) \<le> max_int64"
    and "\<forall>k m. CHR ''&'' \<notin> set (ne_hmac256_hex E k m)" "CHR ''?'' \<notin> set (vc_RESTBase (bn_cfg c))"
    and "\<forall>(meth, path, params, weight) \<in> set calls. CHR ''?'' \<notin> set path \<and> wf_map params"
  shows "\<exists>new. nw_sent w' = nw_sent w @ new \<and> bn_nonce c' = bn_nonce c + int (length calls) \<and>
    subseq (map (\<lambda>r. request_params r ''timestamp'') new)
      (map (\<lambda>j. Some (format_int (bn_nonce c + 1 + int j))) [0..<length calls])"
  using assms
proof (induction calls arbitrary: c w ress)
  case (Cons call calls)
  obtain meth path params weight where call: "call = (meth, path, params, weight)" by (cases call)
  obtain res c1 w1 where 1: "Binance_doSigned E meth path params weight c w = (res, c1, w1)"
    by (cases "Binance_doSigned E meth path params weight c w")
  obtain ress2 where 2: "send_all (binance_call E) calls c1 w1 = (ress2, c', w')"
    using Cons.prems(1) call 1 by (auto simp: binance_call_def split: prod.splits)
  note fr = Binance_doSigned_frame [OF 1]
  have n1: "bn_nonce c1 = bn_nonce c + 1" using fr Cons.prems(2,3) by (simp add: in_int64_def)
  obtain new where new: "nw_sent w' = nw_sent w1 @ new" "bn_nonce c' = bn_nonce c1 + int (length calls)"
    "subseq (map (\<lambda>r. request_params r ''timestamp'') new)
      (map (\<lambda>j. Some (format_int (bn_nonce c1 + 1 + int j))) [0..<length calls])"
    using Cons.IH [OF 2] Cons.prems(2-6) fr n1 by (auto simp: in_int64_def)
  let ?r = "signed_request E c meth path params"
  have ts: "request_params ?r ''timestamp'' = Some (format_int (bn_nonce c + 1))"
    using request_params_signed [of E c path params meth] Cons.prems(2-6) call by (simp add: in_int64_def)
  have up: "map (\<lambda>j. Some (format_int (bn_nonce c + 1 + int j))) [0..<length (call # calls)] =
      Some (format_int (bn_nonce c + 1)) # map (\<lambda>j. Some (format_int (bn_nonce c1 + 1 + int j))) [0..<length calls]"
    by (simp add: n1 upt_conv_Cons map_Suc_upt [symmetric] algebra_simps del: upt_Suc)
  consider "nw_sent w1 = nw_sent w" | "nw_sent w1 = nw_sent w @ [?r]" using fr by auto
  then show ?case
  proof cases
    case 1
    then show ?thesis unfolding up using new n1 by (intro exI [of _ new]) auto
  next
    case 2
    then show ?thesis unfolding up using new n1 ts by (intro exI [of _ "?r # new"]) auto
  qed
qed auto

section \<open>Properties\<close>


definition sample_binance :: binance_conn where
  "sample_binance = Binance_NewConnector '''' '''' '''' (1000 * second) (unix_epoch + 5 * millisecond) ''key'' ''sec'' None"

definition limited_resp :: "http_req \<Rightarrow> go_error + http_resp" where
  "limited_resp r = Inr \<lparr>hr_status = 429, hr_header = \<lambda>k. '''', hr_body = Inr ''''\<rparr>"

lemma sample_admits:
  assumes "0 \<le> k" "k \<le> 1200"
  obtains l m where "WeightedLimiter_Wait (1000 * second) (1000 * second) k (bn_limiter sample_binance) = (l, None, m)"
proof -
  let ?l = "bn_limiter sample_binance"
  have l: "?l = NewWeightedLimiter (1000 * second) ''binance'' 1200"
    by (simp add: sample_binance_def Binance_NewConnector_def readBudget_def)
  then have "wl_ok ?l" "wl_backoff ?l = 0" "replenishLocked (1000 * second) ?l = ?l" "wl_used ?l = 0" "wl_budget ?l = 1200"
    by (simp_all add: wl_ok_def NewWeightedLimiter_def replenishLocked_def time_sub_def)
  with wl.wait_admit [of ?l k "1000 * second" "1000 * second"] assms that show ?thesis by auto
qed

lemma sample_sends:
  assumes "0 \<le> k" "k \<le> 1200"
    "Binance_doSigned (sample_env resp parse) meth path params k sample_binance world0 = (res, c1, w1)"
  shows "nw_sent w1 = [signed_request (sample_env resp parse) sample_binance meth path params]"
proof -
  obtain l m where "WeightedLimiter_Wait (1000 * second) (1000 * second) k (bn_limiter sample_binance) = (l, None, m)"
    using sample_admits assms(1,2) by blast
  then have w: "WeightedLimiter_Wait (ne_now (sample_env resp parse) (nw_reads world0))
      (ne_now (sample_env resp parse) (Suc (nw_reads world0))) k
      (bn_limiter (sample_binance\<lparr>bn_nonce := add64 (bn_nonce sample_binance) 1\<rparr>)) = (l, None, m)" by simp
  have "nw_sent w1 = nw_sent world0 @ [signed_request (sample_env resp parse) sample_binance meth path params]"
    using Binance_do_sent [OF w assms(3) [unfolded Binance_doSigned_eq sample_env_simps option.case]] by blast
  then show ?thesis by (simp add: world0_def)
qed


text \<open>
  C16: the order the venue reads is the order of the caller, once. \<open>PlaceOrder\<close> either fails
  without sending anything, or it sends exactly one request; then the client order id was not
  empty, the request is a POST with the API key, and the parameters a server decodes from its
  query are exactly the ones set, whatever characters the fields contain, the client order id
  among them as the idempotency key; the query ends with the signature of everything before it.
\<close>

theorem binance_order_on_the_wire:
  assumes "\<forall>k m. CHR ''&'' \<notin> set (ne_hmac256_hex E k m)" "CHR ''?'' \<notin> set (vc_RESTBase (bn_cfg c))"
    and "Binance_PlaceOrder E req c w = (res, c', w')"
  shows "nw_sent w' = nw_sent w \<and> (\<exists>e. res = Inl e) \<or>
   (\<exists>r. nw_sent w' = nw_sent w @ [r] \<and>
    rq_ClientOrderID req \<noteq> '''' \<and> hq_method r = ''POST'' \<and> hq_headers r = [(''X-MBX-APIKEY'', bn_apiKey c)] \<and>
    (\<exists>q. url_query (hq_url r) = q @ ''&signature='' @ ne_hmac256_hex E (bn_apiSecret c) q) \<and>
    request_params r =
      [''symbol'' \<mapsto> to_upper (rq_Symbol req), ''side'' \<mapsto> rq_Side req, ''type'' \<mapsto> rq_Type req,
       ''quantity'' \<mapsto> dec_string (ne_dec E) (rq_Quantity req), ''newClientOrderId'' \<mapsto> rq_ClientOrderID req,
       ''timestamp'' \<mapsto> format_int (add64 (bn_nonce c) 1), ''recvWindow'' \<mapsto> ''5000''] ++
      (if rq_Type req = OrderTypeLimit
       then [''price'' \<mapsto> dec_string (ne_dec E) (rq_Price req), ''timeInForce'' \<mapsto> ''GTC''] else Map.empty))"
proof (cases "rq_ClientOrderID req = ''''")
  case True
  then show ?thesis using assms(3) by (auto simp: Binance_PlaceOrder_def)
next
  case cid: False
  let ?p = "place_order_params (ne_dec E) req" and ?path = "''/api/v3/order''"
  let ?r = "signed_request E c ''POST'' ?path ?p"
  obtain res1 c1 w1 where 1: "Binance_doSigned E ''POST'' ?path ?p 1 c w = (res1, c1, w1)"
    by (cases "Binance_doSigned E ''POST'' ?path ?p 1 c w")
  have sent: "nw_sent w' = nw_sent w \<and> (\<exists>e. res = Inl e) \<or> nw_sent w' = nw_sent w @ [?r]"
  proof (cases res1)
    case (Inl e)
    then show ?thesis
      using Binance_PlaceOrder_frame [OF assms(3) cid 1] Binance_doSigned_frame [OF 1] assms(3) cid 1
      by (auto simp: Binance_PlaceOrder_def)
  next
    case (Inr body)
    then show ?thesis using Binance_PlaceOrder_frame [OF assms(3) cid 1] Binance_doSigned_answered 1 by metis
  qed
  have wf: "wf_map ?p" by (simp add: place_order_params_def Let_def)
  have "url_query (hq_url ?r) = signed_query E c ?p"
    using url_query_append [of "vc_RESTBase (bn_cfg c) @ ?path" "signed_query E c ?p"] assms(2) by (simp add: signed_request_def)
  then have "\<exists>q. url_query (hq_url ?r) = q @ ''&signature='' @ ne_hmac256_hex E (bn_apiSecret c) q"
    by (auto simp: signed_query_def Let_def)
  moreover have "request_params ?r = (map_of ?p)(''timestamp'' \<mapsto> format_int (add64 (bn_nonce c) 1), ''recvWindow'' \<mapsto> ''5000'')"
    using request_params_signed [OF assms(1), of c ?path ?p] assms(2) wf by simp
  moreover have "hq_method ?r = ''POST''" "hq_headers ?r = [(''X-MBX-APIKEY'', bn_apiKey c)]" by (simp_all add: signed_request_def)
  ultimately show ?thesis using cid sent
    by (elim disjE) (simp, intro disjI2 exI [of _ ?r],
      simp add: place_order_params_def normalizeSymbol_def Let_def fun_eq_iff map_add_def)
qed

definition sample_order :: "int order_request" where
  "sample_order = \<lparr>rq_ClientOrderID = ''a&side=sell'', rq_Symbol = ''btcusdt'', rq_Side = SideBuy, rq_Type = OrderTypeLimit,
     rq_Quantity = 2, rq_Price = 7\<rparr>"

lemma sample_base: "CHR ''?'' \<notin> set (vc_RESTBase (bn_cfg sample_binance))"
  by (simp add: sample_binance_def Binance_NewConnector_def)

text \<open>A client order id that looks like a parameter arrives as a client order id.\<close>

theorem binance_order_on_the_wire_witness:
  "\<exists>res c' w' r. Binance_PlaceOrder (sample_env (\<lambda>n. limited_resp) (\<lambda>s. None)) sample_order sample_binance world0
       = (res, c', w') \<and> nw_sent w' = [r] \<and> request_params r ''newClientOrderId'' = Some ''a&side=sell'' \<and>
     request_params r ''side'' = Some ''buy'' \<and> request_params r ''timeInForce'' = Some ''GTC''"
proof -
  let ?E = "sample_env (\<lambda>n. limited_resp) (\<lambda>s. None)"
  obtain res c' w' where p: "Binance_PlaceOrder ?E sample_order sample_binance world0 = (res, c', w')"
    by (cases "Binance_PlaceOrder ?E sample_order sample_binance world0")
  obtain res1 c1 w1 where d: "Binance_doSigned ?E ''POST'' ''/api/v3/order'' (place_order_params (ne_dec ?E) sample_order) 1
      sample_binance world0 = (res1, c1, w1)"
    by (cases "Binance_doSigned ?E ''POST'' ''/api/v3/order'' (place_order_params (ne_dec ?E) sample_order) 1 sample_binance world0")
  have "rq_ClientOrderID sample_order \<noteq> ''''" by (simp add: sample_order_def)
  from Binance_PlaceOrder_frame [OF p this d] sample_sends [OF _ _ d]
  obtain r where r: "nw_sent w' = nw_sent world0 @ [r]" by (auto simp: world0_def)
  have hex: "\<forall>k m. CHR ''&'' \<notin> set (ne_hmac256_hex ?E k m)" by simp
  from binance_order_on_the_wire [OF hex sample_base p] p r show ?thesis
    by (auto simp: sample_order_def world0_def)
qed

text \<open>
  The timestamps of a connector count its calls and have nothing to do with the clock. In
  any sequence of signed calls, whatever the network, the limiter and the clock do, the
  timestamps on the wire form, in order, a subsequence of \<open>n + 1, n + 2, \<dots>\<close> where \<open>n\<close> is the
  nonce before (the Unix milliseconds at which the connector was made, for a new one), at most
  one per call. They are strictly increasing; but a connector made \<open>d\<close> milliseconds ago after \<open>k\<close>
  calls sends a timestamp \<open>d - k\<close> milliseconds in the past.
\<close>

theorem binance_timestamps_count_calls:
  assumes "send_all (binance_call E) calls c w = (ress, c', w')"
    and "in_int64 (bn_nonce c)" "bn_nonce c + int (length calls) \<le> max_int64"
    and "\<forall>k m. CHR ''&'' \<notin> set (ne_hmac256_hex E k m)" "CHR ''?'' \<notin> set (vc_RESTBase (bn_cfg c))"
    and "\<forall>(meth, path, params, weight) \<in> set calls. CHR ''?'' \<notin> set path \<and> wf_map params"
  shows "\<exists>new. nw_sent w' = nw_sent w @ new \<and> bn_nonce c' = bn_nonce c + int (length calls) \<and>
    subseq (map (\<lambda>r. request_params r ''timestamp'') new)
      (map (\<lambda>j. Some (format_int (bn_nonce c + 1 + int j))) [0..<length calls])"
  using send_all_binance_nonces [OF assms] .

text \<open>A connector made 5 milliseconds after the epoch; the clock of the calls reads 1000 seconds.\<close>

theorem binance_timestamps_count_calls_witness:
  "\<exists>ress c' w'. send_all (binance_call (sample_env (\<lambda>n. limited_resp) (\<lambda>s. None)))
       [(''GET'', ''/api/v3/account'', [], 5), (''GET'', ''/api/v3/account'', [], 5)] sample_binance world0 = (ress, c', w') \<and>
     bn_nonce c' = 7 \<and>
     subseq (map (\<lambda>r. request_params r ''timestamp'') (nw_sent w')) [Some (format_int 6), Some (format_int 7)]"
proof -
  let ?E = "sample_env (\<lambda>n. limited_resp) (\<lambda>s. None)"
  let ?calls = "[(''GET'', ''/api/v3/account'', [], 5), (''GET'', ''/api/v3/account'', [], 5)] :: signed_call list"
  obtain ress c' w' where 1: "send_all (binance_call ?E) ?calls sample_binance world0 = (ress, c', w')"
    by (cases "send_all (binance_call ?E) ?calls sample_binance world0")
  have n: "bn_nonce sample_binance = 5"
    by (simp add: sample_binance_def Binance_NewConnector_def UnixMilli_def wrap64_def)
  have "in_int64 (bn_nonce sample_binance)" "bn_nonce sample_binance + int (length ?calls) \<le> max_int64"
    "\<forall>k m. CHR ''&'' \<notin> set (ne_hmac256_hex ?E k m)"
    "\<forall>(meth, path, params, weight) \<in> set ?calls. CHR ''?'' \<notin> set path \<and> wf_map params"
    by (simp_all add: n in_int64_def)
  from binance_timestamps_count_calls [OF 1 this(1-3) sample_base this(4)] 1 show ?thesis
    by (auto simp: n world0_def)
qed

end
