(* ===== verification/Kraken_Rest.thy ===== *)
theory Kraken_Rest
  imports Rest_Adapter
begin

text \<open>
  The REST adapter of \<open>internal/adapters/kraken/kraken.go\<close>: private POST requests with a nonce
  and an API signature under the counter limiter, the response envelope, and the operations of a
  venue connector. The nonce is a \<open>uint64\<close>, kept as a 64-bit word.
\<close>

section \<open>Definitions\<close>

record kraken_conn =
  kn_cfg :: venue_config
  kn_apiKey :: string
  kn_apiSecret :: string
  kn_limiter :: counter_limiter
  kn_nonce :: "64 word"

definition Kraken_NewConnector ::
  "string \<Rightarrow> string \<Rightarrow> gotime \<Rightarrow> gotime \<Rightarrow> string \<Rightarrow> string \<Rightarrow> counter_limiter option \<Rightarrow> kraken_conn"
where
  "Kraken_NewConnector env_REST env_WS now1 now2 apiKey apiSecret limiter =
     \<lparr>kn_cfg = \<lparr>vc_Name = ''kraken'',
                vc_RESTBase = (if env_REST = '''' then ''https://api.kraken.com'' else env_REST),
                vc_WSBase = (if env_WS = '''' then ''wss://ws.kraken.com'' else env_WS), vc_Knobs = []\<rparr>,
      kn_apiKey = apiKey, kn_apiSecret = apiSecret,
      kn_limiter = (case limiter of None \<Rightarrow> NewCounterLimiter now1 ''kraken'' 20 | Some l \<Rightarrow> l),
      kn_nonce = word_of_int (UnixNano now2) div 1000000\<rparr>"

definition nextNonce :: "kraken_conn \<Rightarrow> string \<times> kraken_conn" where
  "nextNonce c = (let n = kn_nonce c + 1 in (format_nat (unat n), c\<lparr>kn_nonce := n\<rparr>))"

definition Kraken_sign :: "'d net_env \<Rightarrow> kraken_conn \<Rightarrow> string \<Rightarrow> string \<Rightarrow> string \<Rightarrow> string" where
  "Kraken_sign E c path nonce postData =
     ne_b64_encode E (ne_hmac512 E (ne_b64_decode E (kn_apiSecret c)) (path @ ne_sha256 E (nonce @ postData)))"

text \<open>The copy of the signing that the tests compare with, on a bare secret.\<close>

definition signExample :: "'d net_env \<Rightarrow> string \<Rightarrow> string \<Rightarrow> string \<Rightarrow> string \<Rightarrow> string" where
  "signExample E secret path nonce postData =
     ne_b64_encode E (ne_hmac512 E (ne_b64_decode E secret) (path @ ne_sha256 E (nonce @ postData)))"

lemma sign_as_example: "Kraken_sign E c path nonce postData = signExample E (kn_apiSecret c) path nonce postData"
  by (simp add: Kraken_sign_def signExample_def)

text \<open>The envelope: \<open>Result\<close> is a \<open>json.RawMessage\<close>, absent (\<open>None\<close>) or the text of a value.\<close>

record envelope =
  ev_Error :: "string list"
  ev_Result :: "json option"

definition envelope_fields :: "envelope field list" where
  "envelope_fields =
     [field ''error'' ev_Error ev_Error_update (decode_slice decode_string ''''),
      (''result'', \<lambda>j r. (r\<lparr>ev_Result := Some j\<rparr>, False))]"

definition Kraken_do ::
  "'d net_env \<Rightarrow> http_req \<Rightarrow> int64 \<Rightarrow> kraken_conn \<Rightarrow> net_world \<Rightarrow>
   (go_error + json option) \<times> kraken_conn \<times> net_world"
where
  "Kraken_do E req cost c w0 =
     (case time_now E w0 of (now1, w1) \<Rightarrow>
      case time_now E w1 of (now2, w2) \<Rightarrow>
      case CounterLimiter_Wait now1 now2 cost (kn_limiter c) of (l, err, _) \<Rightarrow>
      let c1 = c\<lparr>kn_limiter := l\<rparr> in
      case err of
        Some e \<Rightarrow> (Inl e, c1, w2)
      | None \<Rightarrow>
          (case http_do E req w2 of
             (Inl e, w3) \<Rightarrow> (Inl e, c1, w3)
           | (Inr resp, w3) \<Rightarrow>
               (case hr_body resp of
                  Inl e \<Rightarrow> (Inl e, c1, w3)
                | Inr body \<Rightarrow>
                    if hr_status resp = 429 \<or> hr_status resp = 418 then
                      (case time_now E w3 of (now3, w4) \<Rightarrow>
                         (Inl (ErrMsg (''kraken: rate limited (status '' @ format_int (hr_status resp) @ '')'')),
                          c1\<lparr>kn_limiter := CounterLimiter_Backoff now3 ''kraken'' (30 * second) l\<rparr>, w4))
                    else if hr_status resp \<ge> 400 then
                      (Inl (ErrMsg (''kraken: status '' @ format_int (hr_status resp) @ '' body '' @ body)), c1, w3)
                    else
                      (case unmarshal_or (ne_json E) (decode_struct envelope_fields)
                              \<lparr>ev_Error = [], ev_Result = None\<rparr> body of
                         Inl err \<Rightarrow> (Inl (ErrWrap ''kraken: bad json: '' err), c1, w3)
                       | Inr env \<Rightarrow>
                           if length (ev_Error env) > 0
                           then (Inl (ErrMsg (''kraken: '' @ join_with ''; '' (ev_Error env))), c1, w3)
                           else (Inr (ev_Result env), c1, w3)))))"

definition Kraken_doPrivate ::
  "'d net_env \<Rightarrow> string \<Rightarrow> url_values \<Rightarrow> int64 \<Rightarrow> kraken_conn \<Rightarrow> net_world \<Rightarrow>
   (go_error + json option) \<times> kraken_conn \<times> net_world"
where
  "Kraken_doPrivate E path params cost c w =
     (case nextNonce c of (nonce, c1) \<Rightarrow>
      let params1 = vset ''nonce'' nonce params;
          postData = encode_values params1;
          sig = Kraken_sign E c1 path nonce postData;
          u = vc_RESTBase (kn_cfg c1) @ path
      in case new_request E ''POST'' u (Some postData) of
           Inl err \<Rightarrow> (Inl err, c1, w)
         | Inr req \<Rightarrow>
             Kraken_do E
               (set_header ''Content-Type'' ''application/x-www-form-urlencoded''
                 (set_header ''API-Sign'' sig (set_header ''API-Key'' (kn_apiKey c1) req))) cost c1 w)"

text \<open>\<open>json.Unmarshal\<close> of the raw result; an absent one is the empty text, which is an error.\<close>

definition unmarshal_result :: "'a decoder \<Rightarrow> 'a \<Rightarrow> json option \<Rightarrow> go_error + 'a" where
  "unmarshal_result d z raw =
     (case raw of
        None \<Rightarrow> Inl ErrJson
      | Some j \<Rightarrow> (case d j z of (v, True) \<Rightarrow> Inl ErrJson | (v, False) \<Rightarrow> Inr v))"

subsection \<open>Orders\<close>

definition normalizePair :: "string \<Rightarrow> string" where
  "normalizePair s = s"

record add_order_resp =
  ao_TxIDs :: "string list"

definition add_order_fields :: "add_order_resp field list" where
  "add_order_fields = [field ''txid'' ao_TxIDs ao_TxIDs_update (decode_slice decode_string '''')]"

definition kraken_order_params :: "'d dec_ops \<Rightarrow> 'd order_request \<Rightarrow> url_values" where
  "kraken_order_params D req =
     (let p1 = vset ''type'' (rq_Side req) (vset ''pair'' (normalizePair (rq_Symbol req)) []);
          p2 = (if rq_Type req = OrderTypeMarket then vset ''ordertype'' ''market'' p1
                else vset ''price'' (dec_string D (rq_Price req)) (vset ''ordertype'' ''limit'' p1))
      in vset ''userref'' (rq_ClientOrderID req) (vset ''volume'' (dec_string D (rq_Quantity req)) p2))"

definition Kraken_PlaceOrder ::
  "'d net_env \<Rightarrow> 'd order_request \<Rightarrow> kraken_conn \<Rightarrow> net_world \<Rightarrow>
   (go_error + 'd order_response) \<times> kraken_conn \<times> net_world"
where
  "Kraken_PlaceOrder E req c w =
     (if rq_ClientOrderID req = '''' then (Inl (ErrMsg ''kraken: client_order_id required''), c, w)
      else
        (case Kraken_doPrivate E ''/0/private/AddOrder'' (kraken_order_params (ne_dec E) req) 6 c w of
           (Inl err, c1, w1) \<Rightarrow> (Inl err, c1, w1)
         | (Inr raw, c1, w1) \<Rightarrow>
             (case unmarshal_result (decode_struct add_order_fields) \<lparr>ao_TxIDs = []\<rparr> raw of
                Inl err \<Rightarrow> (Inl err, c1, w1)
              | Inr r \<Rightarrow>
                  if length (ao_TxIDs r) = 0 then (Inl (ErrMsg ''kraken: no txid''), c1, w1)
                  else (Inr \<lparr>or_VenueOrderID = ao_TxIDs r ! 0, or_ClientOrderID = rq_ClientOrderID req,
                             or_Status = OrderStatusNew, or_FilledQty = dec_zero (ne_dec E),
                             or_AvgPrice = dec_zero (ne_dec E), or_Fills = []\<rparr>, c1, w1))))"

record kraken_order =
  ko_Status :: string
  ko_Vol :: string
  ko_VolExec :: string
  ko_Price :: string
  ko_UserRef :: string

definition kraken_order_zero :: kraken_order where
  "kraken_order_zero = \<lparr>ko_Status = '''', ko_Vol = '''', ko_VolExec = '''', ko_Price = '''', ko_UserRef = ''''\<rparr>"

definition kraken_order_fields :: "kraken_order field list" where
  "kraken_order_fields =
     [field ''status'' ko_Status ko_Status_update decode_string,
      field ''vol'' ko_Vol ko_Vol_update decode_string,
      field ''vol_exec'' ko_VolExec ko_VolExec_update decode_string,
      field ''price'' ko_Price ko_Price_update decode_string,
      field ''userref'' ko_UserRef ko_UserRef_update decode_string]"

text \<open>The \<open>switch\<close> on the lower-cased status.\<close>

definition kraken_status :: "'d dec_ops \<Rightarrow> string \<Rightarrow> 'd \<Rightarrow> 'd \<Rightarrow> string" where
  "kraken_status D st exec vol =
     (let s = to_lower st in
      if s = ''pending'' \<or> s = ''open'' then OrderStatusNew
      else if s = ''closed'' then
        (if dec_eq D exec vol then OrderStatusFilled
         else if dec_lt D (dec_zero D) exec then OrderStatusPartial
         else OrderStatusCanceled)
      else if s = ''canceled'' \<or> s = ''cancelled'' then OrderStatusCanceled
      else OrderStatusNew)"

definition Kraken_mapOrder :: "'d dec_ops \<Rightarrow> string \<Rightarrow> kraken_order \<Rightarrow> 'd order_response" where
  "Kraken_mapOrder D oid k =
     (let exec = dec_parse D (ko_VolExec k);
          vol = dec_parse D (ko_Vol k);
          price = dec_parse D (ko_Price k);
          avg = (if \<not> dec_is_zero D exec then price else dec_zero D)
      in \<lparr>or_VenueOrderID = oid, or_ClientOrderID = ko_UserRef k, or_Status = kraken_status D (ko_Status k) exec vol,
          or_FilledQty = exec, or_AvgPrice = avg, or_Fills = []\<rparr>)"

definition Kraken_GetOrder ::
  "'d net_env \<Rightarrow> string \<Rightarrow> kraken_conn \<Rightarrow> net_world \<Rightarrow>
   (go_error + 'd order_response) \<times> kraken_conn \<times> net_world"
where
  "Kraken_GetOrder E venueOrderID c w =
     (case Kraken_doPrivate E ''/0/private/QueryOrders'' (vset ''txid'' venueOrderID []) 2 c w of
        (Inl err, c1, w1) \<Rightarrow> (Inl err, c1, w1)
      | (Inr raw, c1, w1) \<Rightarrow>
          (case unmarshal_result (decode_map (decode_struct kraken_order_fields) kraken_order_zero) [] raw of
             Inl err \<Rightarrow> (Inl err, c1, w1)
           | Inr m \<Rightarrow>
               (case map_of m venueOrderID of
                  None \<Rightarrow> (Inl (ErrMsg ''kraken: order not found''), c1, w1)
                | Some k \<Rightarrow> (Inr (Kraken_mapOrder (ne_dec E) venueOrderID k), c1, w1))))"

definition Kraken_CancelOrder ::
  "'d net_env \<Rightarrow> cancel_request \<Rightarrow> kraken_conn \<Rightarrow> net_world \<Rightarrow> go_error option \<times> kraken_conn \<times> net_world"
where
  "Kraken_CancelOrder E req c w =
     (if cr_VenueOrderID req = '''' \<and> cr_ClientOrderID req = '''' then
        (Some (ErrMsg ''kraken: cancel requires venue or client order id''), c, w)
      else
        (let params = (if cr_VenueOrderID req \<noteq> '''' then vset ''txid'' (cr_VenueOrderID req) []
                       else vset ''userref'' (cr_ClientOrderID req) [])
         in case Kraken_doPrivate E ''/0/private/CancelOrder'' params 6 c w of
              (Inl err, c1, w1) \<Rightarrow> (Some err, c1, w1)
            | (Inr _, c1, w1) \<Rightarrow> (None, c1, w1)))"

subsection \<open>Fills and balances\<close>

record trade_entry =
  te_OrderTxID :: string
  te_Pair :: string
  te_Time :: rat
  te_Type :: string
  te_Price :: string
  te_Vol :: string
  te_Fee :: string
  te_FeeAsset :: string

definition trade_zero :: trade_entry where
  "trade_zero = \<lparr>te_OrderTxID = '''', te_Pair = '''', te_Time = 0, te_Type = '''', te_Price = '''', te_Vol = '''',
     te_Fee = '''', te_FeeAsset = ''''\<rparr>"

definition trade_fields :: "trade_entry field list" where
  "trade_fields =
     [field ''ordertxid'' te_OrderTxID te_OrderTxID_update decode_string,
      field ''pair'' te_Pair te_Pair_update decode_string,
      field ''time'' te_Time te_Time_update decode_float,
      field ''type'' te_Type te_Type_update decode_string,
      field ''price'' te_Price te_Price_update decode_string,
      field ''vol'' te_Vol te_Vol_update decode_string,
      field ''fee'' te_Fee te_Fee_update decode_string,
      field ''fee_currency'' te_FeeAsset te_FeeAsset_update decode_string]"

definition kraken_fills_params :: "fill_query \<Rightarrow> url_values" where
  "kraken_fills_params q =
     (let p1 = (if fq_VenueOrderID q \<noteq> '''' then vset ''txid'' (fq_VenueOrderID q) [] else []);
          p2 = (if fq_Start q \<noteq> 0 then vset ''start'' (format_int (Unix (fq_Start q))) p1 else p1)
      in if fq_End q \<noteq> 0 then vset ''end'' (format_int (Unix (fq_End q))) p2 else p2)"

definition trade_fill :: "'d dec_ops \<Rightarrow> string \<times> trade_entry \<Rightarrow> 'd fill" where
  "trade_fill D = (\<lambda>(tid, tr).
     \<lparr>fl_VenueOrderID = te_OrderTxID tr, fl_TradeID = tid, fl_Price = dec_parse D (te_Price tr),
      fl_Quantity = dec_parse D (te_Vol tr), fl_Fee = dec_parse D (te_Fee tr), fl_FeeAsset = te_FeeAsset tr,
      fl_Timestamp = time_of_unix (int64_of_float (te_Time tr))\<rparr>)"

text \<open>\<open>ord\<close> is the order in which \<open>range\<close> visits the trades.\<close>

definition Kraken_GetFills ::
  "'d net_env \<Rightarrow> ((string \<times> trade_entry) list \<Rightarrow> (string \<times> trade_entry) list) \<Rightarrow> fill_query \<Rightarrow>
   kraken_conn \<Rightarrow> net_world \<Rightarrow> (go_error + 'd fill list) \<times> kraken_conn \<times> net_world"
where
  "Kraken_GetFills E ord q c w =
     (case Kraken_doPrivate E ''/0/private/QueryTrades'' (kraken_fills_params q) 2 c w of
        (Inl err, c1, w1) \<Rightarrow> (Inl err, c1, w1)
      | (Inr raw, c1, w1) \<Rightarrow>
          (case unmarshal_result (decode_map (decode_struct trade_fields) trade_zero) [] raw of
             Inl err \<Rightarrow> (Inl err, c1, w1)
           | Inr m \<Rightarrow> (Inr (limit_fills (fq_Limit q) (map (trade_fill (ne_dec E)) (ord m))), c1, w1)))"

record kraken_balance =
  kb_Available :: string
  kb_Balance :: string

definition kraken_balance_fields :: "kraken_balance field list" where
  "kraken_balance_fields =
     [field ''available'' kb_Available kb_Available_update decode_string,
      field ''balance'' kb_Balance kb_Balance_update decode_string]"

definition kraken_balance_of :: "'d dec_ops \<Rightarrow> string \<Rightarrow> kraken_balance \<Rightarrow> 'd balance" where
  "kraken_balance_of D asset b =
     (let free = dec_parse D (kb_Available b);
          total = dec_parse D (kb_Balance b);
          locked = dec_sub D total free;
          locked' = (if dec_lt D locked (dec_zero D) then dec_zero D else locked)
      in \<lparr>bl_Asset = asset, bl_Free = free, bl_Locked = locked'\<rparr>)"

definition Kraken_GetBalances ::
  "'d net_env \<Rightarrow> kraken_conn \<Rightarrow> net_world \<Rightarrow> (go_error + 'd balances) \<times> kraken_conn \<times> net_world"
where
  "Kraken_GetBalances E c w =
     (case Kraken_doPrivate E ''/0/private/Balance'' [] 2 c w of
        (Inl err, c1, w1) \<Rightarrow> (Inl err, c1, w1)
      | (Inr raw, c1, w1) \<Rightarrow>
          (case unmarshal_result (decode_map (decode_struct kraken_balance_fields) \<lparr>kb_Available = '''', kb_Balance = ''''\<rparr>)
                  [] raw of
             Inl err \<Rightarrow> (Inl err, c1, w1)
           | Inr m \<Rightarrow> (Inr (map (\<lambda>(asset, b). (asset, kraken_balance_of (ne_dec E) asset b)) m), c1, w1)))"

section \<open>The transport\<close>

text \<open>The reading of the limiter that a call of \<open>do\<close> makes.\<close>

abbreviation kraken_wait where
  "kraken_wait E k c w \<equiv>
     CounterLimiter_Wait (ne_now E (nw_reads w)) (ne_now E (Suc (nw_reads w))) k (kn_limiter c)"

lemma Kraken_do_rejected:
  assumes "kraken_wait E k c w = (l, Some e, m)"
  shows "Kraken_do E r k c w = (Inl e, c\<lparr>kn_limiter := l\<rparr>, w\<lparr>nw_reads := nw_reads w + 2\<rparr>)"
  using assms by (simp add: Kraken_do_def time_now_eq Let_def)

lemma Kraken_do_sent:
  assumes "kraken_wait E k c w = (l, None, m)" "Kraken_do E r k c w = (res, c', w')"
  shows "nw_sent w' = nw_sent w @ [r] \<and> nw_reads w + 2 \<le> nw_reads w' \<and>
    c' = c\<lparr>kn_limiter := kn_limiter c'\<rparr> \<and>
    (kn_limiter c' = l \<or> (\<exists>t. kn_limiter c' = CounterLimiter_Backoff t ''kraken'' (30 * second) l))"
  using assms
  by (auto simp: Kraken_do_def time_now_eq http_do_def Let_def split: sum.splits if_splits)

lemma Kraken_do_frame:
  assumes "Kraken_do E r k c w = (res, c', w')"
  shows "(nw_sent w' = nw_sent w \<or> nw_sent w' = nw_sent w @ [r]) \<and> nw_reads w + 2 \<le> nw_reads w' \<and>
    c' = c\<lparr>kn_limiter := kn_limiter c'\<rparr>"
proof -
  obtain l e m where l: "kraken_wait E k c w = (l, e, m)" by (cases "kraken_wait E k c w")
  show ?thesis
  proof (cases e)
    case None
    then show ?thesis using Kraken_do_sent [OF l [unfolded None] assms] by simp
  next
    case (Some x)
    then show ?thesis using Kraken_do_rejected [OF l [unfolded Some], of r] assms by auto
  qed
qed

lemma Kraken_do_blocked:
  assumes "Kraken_do E r k c w = (res, c', w')" "cl_backoff (kn_limiter c) \<noteq> 0"
    "\<forall>i. nw_reads w \<le> i \<longrightarrow> i < nw_reads w' \<longrightarrow> ne_now E i < cl_backoff (kn_limiter c)"
  shows "(\<exists>e. res = Inl e) \<and> nw_sent w' = nw_sent w \<and> cl_backoff (kn_limiter c') = cl_backoff (kn_limiter c)"
proof -
  obtain l e m where l: "kraken_wait E k c w = (l, e, m)" by (cases "kraken_wait E k c w")
  have "ne_now E (Suc (nw_reads w)) < cl_backoff (kn_limiter c)"
    using assms(3) Kraken_do_frame [OF assms(1)] by simp
  from cl.wait_blocked [OF assms(2) this, of "ne_now E (nw_reads w)" k] l
  have "e = Some ErrBudgetExhausted" "cl_backoff l = cl_backoff (kn_limiter c)"
    using cl.tick_until by auto
  then show ?thesis using Kraken_do_rejected [OF l [unfolded \<open>e = _\<close>], of r] assms(1) by auto
qed

lemma Kraken_do_metered:
  assumes "Kraken_do E r k c w = (res, c', w')"
  shows "\<exists>evs adm new. serve CounterLimiter_Wait CounterLimiter_Backoff evs (kn_limiter c) = (kn_limiter c', adm) \<and>
    nw_sent w' = nw_sent w @ new \<and> length new \<le> length adm \<and>
    (\<forall>ev \<in> set evs. event_read (ne_now E) (nw_reads w) (nw_reads w') ev) \<and> subseq (concat (map event_cost evs)) [k]"
proof -
  let ?rq = "Request (ne_now E (nw_reads w)) (ne_now E (Suc (nw_reads w))) k"
  have rd: "event_read (ne_now E) (nw_reads w) (nw_reads w') ?rq"
    using Kraken_do_frame [OF assms] by (intro event_readI) auto
  obtain l e m where l: "kraken_wait E k c w = (l, e, m)" by (cases "kraken_wait E k c w")
  show ?thesis
  proof (cases e)
    case (Some x)
    then show ?thesis using Kraken_do_rejected [OF l [unfolded Some], of r] assms l rd
      by (intro exI [of _ "[?rq]"] exI [of _ "[]"]) (auto simp del: event_read.simps)
  next
    case None
    note s = Kraken_do_sent [OF l [unfolded None] assms]
    then consider "kn_limiter c' = l" | t where "kn_limiter c' = CounterLimiter_Backoff t ''kraken'' (30 * second) l"
      by blast
    then show ?thesis
    proof cases
      case 1
      then show ?thesis using s l None rd by (intro exI [of _ "[?rq]"] exI [of _ "[k]"] exI [of _ "[r]"]) (simp del: event_read.simps(1))
    next
      case 2
      then show ?thesis using s l None rd
        by (intro exI [of _ "[?rq, Penalty t ''kraken'' (30 * second)]"] exI [of _ "[k]"] exI [of _ "[r]"]) (simp del: event_read.simps(1))
    qed
  qed
qed

text \<open>The request \<open>doPrivate\<close> makes.\<close>

definition nonce_text :: "kraken_conn \<Rightarrow> string" where
  "nonce_text c = format_nat (unat (kn_nonce c + 1))"

definition private_request :: "'d net_env \<Rightarrow> kraken_conn \<Rightarrow> string \<Rightarrow> url_values \<Rightarrow> http_req" where
  "private_request E c path params =
     (let postData = encode_values (vset ''nonce'' (nonce_text c) params)
      in \<lparr>hq_method = ''POST'', hq_url = vc_RESTBase (kn_cfg c) @ path,
          hq_headers = [(''API-Key'', kn_apiKey c), (''API-Sign'', Kraken_sign E c path (nonce_text c) postData),
                        (''Content-Type'', ''application/x-www-form-urlencoded'')],
          hq_body = Some postData\<rparr>)"

lemma Kraken_doPrivate_eq:
  "Kraken_doPrivate E path params cost c w =
     (case ne_bad_request E ''POST'' (vc_RESTBase (kn_cfg c) @ path) of
        Some err \<Rightarrow> (Inl err, c\<lparr>kn_nonce := kn_nonce c + 1\<rparr>, w)
      | None \<Rightarrow> Kraken_do E (private_request E c path params) cost (c\<lparr>kn_nonce := kn_nonce c + 1\<rparr>) w)"
  by (simp add: Kraken_doPrivate_def private_request_def nonce_text_def nextNonce_def new_request_def set_header_def
      Kraken_sign_def Let_def split: option.split)

lemma Kraken_doPrivate_frame:
  assumes "Kraken_doPrivate E path params k c w = (res, c', w')"
  shows "(nw_sent w' = nw_sent w \<or> nw_sent w' = nw_sent w @ [private_request E c path params]) \<and>
    nw_reads w \<le> nw_reads w' \<and> kn_nonce c' = kn_nonce c + 1"
  using assms unfolding Kraken_doPrivate_eq
  by (auto split: option.splits dest!: Kraken_do_frame) (metis kraken_conn.select_convs(5) kraken_conn.surjective kraken_conn.update_convs(4,5))+

lemma Kraken_doPrivate_answered:
  assumes "Kraken_doPrivate E path params k c w = (Inr body, c', w')"
  shows "nw_sent w' = nw_sent w @ [private_request E c path params]"
proof -
  let ?c = "c\<lparr>kn_nonce := kn_nonce c + 1\<rparr>" and ?r = "private_request E c path params"
  have d: "Kraken_do E ?r k ?c w = (Inr body, c', w')"
    using assms by (auto simp: Kraken_doPrivate_eq split: option.splits)
  obtain l e m where l: "kraken_wait E k ?c w = (l, e, m)" by (metis surj_pair)
  have "e = None"
  proof (cases e)
    case (Some x)
    from Kraken_do_rejected [OF l [unfolded Some], of ?r] d show ?thesis by simp
  qed
  then show ?thesis using Kraken_do_sent [OF l [unfolded \<open>e = None\<close>] d] by simp
qed

type_synonym private_call = "string \<times> url_values \<times> int64"

definition kraken_call ::
  "'d net_env \<Rightarrow> private_call \<Rightarrow> kraken_conn \<Rightarrow> net_world \<Rightarrow> (go_error + json option) \<times> kraken_conn \<times> net_world"
where
  "kraken_call E = (\<lambda>(path, params, cost). Kraken_doPrivate E path params cost)"

lemma Kraken_doPrivate_blocked:
  assumes "Kraken_doPrivate E path params k c w = (res, c', w')" "cl_backoff (kn_limiter c) \<noteq> 0"
    "\<forall>i. nw_reads w \<le> i \<longrightarrow> i < nw_reads w' \<longrightarrow> ne_now E i < cl_backoff (kn_limiter c)"
  shows "(\<exists>e. res = Inl e) \<and> nw_sent w' = nw_sent w \<and> cl_backoff (kn_limiter c') = cl_backoff (kn_limiter c)"
proof (cases "ne_bad_request E ''POST'' (vc_RESTBase (kn_cfg c) @ path)")
  case None
  then show ?thesis
    using assms Kraken_do_blocked [of E "private_request E c path params" k "c\<lparr>kn_nonce := kn_nonce c + 1\<rparr>" w res c' w']
    by (simp add: Kraken_doPrivate_eq)
next
  case (Some err)
  then show ?thesis using assms(1) by (auto simp: Kraken_doPrivate_eq)
qed

lemma Kraken_doPrivate_metered:
  assumes "Kraken_doPrivate E path params k c w = (res, c', w')"
  shows "\<exists>evs adm new. serve CounterLimiter_Wait CounterLimiter_Backoff evs (kn_limiter c) = (kn_limiter c', adm) \<and>
    nw_sent w' = nw_sent w @ new \<and> length new \<le> length adm \<and>
    (\<forall>ev \<in> set evs. event_read (ne_now E) (nw_reads w) (nw_reads w') ev) \<and> subseq (concat (map event_cost evs)) [k]"
proof (cases "ne_bad_request E ''POST'' (vc_RESTBase (kn_cfg c) @ path)")
  case None
  then show ?thesis
    using assms Kraken_do_metered [of E "private_request E c path params" k "c\<lparr>kn_nonce := kn_nonce c + 1\<rparr>" w res c' w']
    by (simp add: Kraken_doPrivate_eq)
next
  case (Some err)
  then show ?thesis using assms(1) by (intro exI [of _ "[]"]) (auto simp: Kraken_doPrivate_eq)
qed

interpretation kn: metered_transport "kraken_call E" "ne_now E" "\<lambda>c. cl_backoff (kn_limiter c)" kn_limiter
    CounterLimiter_Wait CounterLimiter_Backoff "\<lambda>(path, params, cost). cost"
  for E :: "'d net_env"
proof unfold_locales
  show "\<exists>evs adm new. serve CounterLimiter_Wait CounterLimiter_Backoff evs (kn_limiter s) = (kn_limiter s', adm) \<and>
      nw_sent w' = nw_sent w @ new \<and> length new \<le> length adm \<and>
      (\<forall>ev \<in> set evs. event_read (ne_now E) (nw_reads w) (nw_reads w') ev) \<and>
      subseq (concat (map event_cost evs)) [case r of (path, params, cost) \<Rightarrow> cost]"
    if "kraken_call E r s w = (res, s', w')" for r s w res s' w'
    using that Kraken_doPrivate_metered by (cases r) (simp add: kraken_call_def)
qed (auto simp: kraken_call_def dest: Kraken_doPrivate_frame Kraken_doPrivate_blocked)

section \<open>Properties\<close>

text \<open>
  C14: what the Kraken adapter puts on the wire stays within the call budget. For any sequence of
  private calls whose clock readings lie before \<open>T\<close>, whatever the venue answers, the requests
  sent are no more than the calls admitted, and the costs of these, a subsequence of the costs of
  all calls, add up to at most the free budget plus one unit per whole decay period up to \<open>T\<close>.
\<close>

theorem kraken_wire_within_budget:
  assumes "send_all (kraken_call E) calls c w = (ress, c', w')"
    and "cl_ok (kn_limiter c)" "cl_current (kn_limiter c) \<le> cl_budget (kn_limiter c)" "cl_last (kn_limiter c) \<le> T"
    and "\<forall>(path, params, k) \<in> set calls. 0 \<le> k \<and> k < 2 ^ 62"
    and "\<forall>i. nw_reads w \<le> i \<longrightarrow> i < nw_reads w' \<longrightarrow> 0 \<le> ne_now E i \<and> ne_now E i < T"
  shows "\<exists>new costs. nw_sent w' = nw_sent w @ new \<and> length new \<le> length costs \<and>
    subseq costs (map (\<lambda>(path, params, k). k) calls) \<and>
    sum_list costs \<le> cl_budget (kn_limiter c) - cl_current (kn_limiter c) +
      (T - cl_last (kn_limiter c)) div cl_decay (kn_limiter c)"
proof -
  obtain evs adm new where m: "serve CounterLimiter_Wait CounterLimiter_Backoff evs (kn_limiter c) = (kn_limiter c', adm)"
    "nw_sent w' = nw_sent w @ new" "length new \<le> length adm"
    "\<forall>ev \<in> set evs. event_read (ne_now E) (nw_reads w) (nw_reads w') ev"
    "subseq (concat (map event_cost evs)) (map (\<lambda>(path, params, k). k) calls)"
    using kn.send_all_metered [OF assms(1)] by blast
  have cost: "0 \<le> k \<and> k < 2 ^ 62" if "ev \<in> set evs" "k \<in> set (event_cost ev)" for ev k
  proof -
    have "k \<in> set (map (\<lambda>(path, params, k). k) calls)" using that list_emb_set [OF m(5), of k] by auto
    then show ?thesis using assms(5) by auto
  qed
  have ok: "\<forall>ev \<in> set evs. sane_event ev \<and> requests_between 0 T ev"
    using m(4) assms(6) by (auto intro: event_cost_sane event_read_between dest: cost simp del: event_read.simps)
  have "subseq adm (map (\<lambda>(path, params, k). k) calls)"
    using serve_admits_subseq [OF m(1)] m(5) by (rule subseq_order.order_trans)
  moreover have "sum_list adm \<le> cl_budget (kn_limiter c) - cl_current (kn_limiter c) +
      (T - cl_last (kn_limiter c)) div cl_decay (kn_limiter c)"
  proof -
    obtain n where n: "n \<ge> 0" "cl_last (kn_limiter c) + n * cl_decay (kn_limiter c) \<le> T"
      "cl_current (kn_limiter c) + sum_list adm \<le> cl_current (kn_limiter c') + n"
      using counter_serve_ticks [OF assms(2,4) ok m(1)] by blast
    moreover have "cl_current (kn_limiter c') \<le> cl_budget (kn_limiter c)"
      using cl.serve_within_cap [OF assms(2,3) _ m(1)] ok by auto
    moreover have "n \<le> (T - cl_last (kn_limiter c)) div cl_decay (kn_limiter c)"
      using n(2) assms(2) zdiv_mono1 [of "n * cl_decay (kn_limiter c)" "T - cl_last (kn_limiter c)" "cl_decay (kn_limiter c)"]
      by (simp add: cl_ok_def)
    ultimately show ?thesis by linarith
  qed
  ultimately show ?thesis using m(2,3) by blast
qed

definition sample_kraken :: kraken_conn where
  "sample_kraken = Kraken_NewConnector '''' '''' (1000 * second) (unix_epoch + 5 * millisecond) ''key'' ''sec'' None"

text \<open>Five orders of cost 6 against a budget of 20: at most three are sent.\<close>

theorem kraken_wire_within_budget_witness:
  "\<exists>ress c' w'. send_all (kraken_call (sample_env (\<lambda>n r. Inl ErrJson) (\<lambda>s. None)))
       (replicate 5 (''/0/private/AddOrder'', [], 6)) sample_kraken world0 = (ress, c', w') \<and>
     length (nw_sent w') \<le> 3"
proof -
  let ?E = "sample_env (\<lambda>n r. Inl ErrJson) (\<lambda>s. None)"
  let ?calls = "replicate 5 (''/0/private/AddOrder'', [], 6) :: private_call list"
  obtain ress c' w' where 1: "send_all (kraken_call ?E) ?calls sample_kraken world0 = (ress, c', w')"
    by (cases "send_all (kraken_call ?E) ?calls sample_kraken world0")
  have l: "kn_limiter sample_kraken = NewCounterLimiter (1000 * second) ''kraken'' 20"
    by (simp add: sample_kraken_def Kraken_NewConnector_def)
  have "cl_ok (kn_limiter sample_kraken)" "cl_current (kn_limiter sample_kraken) \<le> cl_budget (kn_limiter sample_kraken)"
    "cl_last (kn_limiter sample_kraken) \<le> 1000 * second + 1"
    "\<forall>(path, params, k) \<in> set ?calls. 0 \<le> k \<and> k < 2 ^ 62"
    "\<forall>i. nw_reads world0 \<le> i \<longrightarrow> i < nw_reads w' \<longrightarrow> 0 \<le> ne_now ?E i \<and> ne_now ?E i < 1000 * second + 1"
    by (auto simp: l cl_ok_def NewCounterLimiter_def)
  from kraken_wire_within_budget [OF 1 this] obtain costs :: "int64 list" where c: "length (nw_sent w') \<le> length costs"
    "subseq costs (replicate 5 6)" "sum_list costs \<le> 20"
    by (auto simp: world0_def l NewCounterLimiter_def)
  have "\<forall>k \<in> set costs. k = 6" using list_emb_set [OF c(2)] by (auto simp: in_set_replicate)
  then have "costs = replicate (length costs) 6" by (metis replicate_eqI)
  then have "sum_list costs = 6 * int (length costs)" by (metis mult.commute sum_list_replicate)
  then show ?thesis using 1 c by auto
qed

subsection \<open>Orders on the wire\<close>

lemma Kraken_PlaceOrder_frame:
  assumes "Kraken_PlaceOrder E req c w = (res, c', w')" "rq_ClientOrderID req \<noteq> ''''"
    and "Kraken_doPrivate E ''/0/private/AddOrder'' (kraken_order_params (ne_dec E) req) 6 c w = (res1, c1, w1)"
  shows "c' = c1 \<and> w' = w1"
  using assms by (auto simp: Kraken_PlaceOrder_def split: sum.splits if_splits)

text \<open>
  C17: the order Kraken reads is the order of the caller, once. \<open>PlaceOrder\<close> either fails without
  sending anything, or it sends exactly one request; then the client order id was not empty and
  the form a server decodes from the body is exactly the one set, with the client order id as
  \<open>userref\<close> and the nonce; the signature in the header is the one of this path, this nonce and
  this body.
\<close>

theorem kraken_order_on_the_wire:
  assumes "Kraken_PlaceOrder E req c w = (res, c', w')"
  shows "nw_sent w' = nw_sent w \<and> (\<exists>e. res = Inl e) \<or>
   (\<exists>r. nw_sent w' = nw_sent w @ [r] \<and>
    rq_ClientOrderID req \<noteq> '''' \<and> hq_method r = ''POST'' \<and> hq_url r = vc_RESTBase (kn_cfg c) @ ''/0/private/AddOrder'' \<and>
    (\<exists>body. hq_body r = Some body \<and>
       map_of (hq_headers r) ''API-Sign'' = Some (Kraken_sign E c ''/0/private/AddOrder'' (format_nat (unat (kn_nonce c + 1))) body) \<and>
       map_of (decode_query body) =
         [''pair'' \<mapsto> rq_Symbol req, ''type'' \<mapsto> rq_Side req, ''volume'' \<mapsto> dec_string (ne_dec E) (rq_Quantity req),
          ''userref'' \<mapsto> rq_ClientOrderID req, ''nonce'' \<mapsto> format_nat (unat (kn_nonce c + 1))] ++
         (if rq_Type req = OrderTypeMarket then [''ordertype'' \<mapsto> ''market'']
          else [''ordertype'' \<mapsto> ''limit'', ''price'' \<mapsto> dec_string (ne_dec E) (rq_Price req)])))"
proof (cases "rq_ClientOrderID req = ''''")
  case True
  then show ?thesis using assms by (auto simp: Kraken_PlaceOrder_def)
next
  case cid: False
  let ?p = "kraken_order_params (ne_dec E) req" and ?path = "''/0/private/AddOrder''"
  let ?q = "vset ''nonce'' (nonce_text c) ?p" and ?r = "private_request E c ?path ?p"
  obtain res1 c1 w1 where 1: "Kraken_doPrivate E ?path ?p 6 c w = (res1, c1, w1)"
    by (cases "Kraken_doPrivate E ?path ?p 6 c w")
  have sent: "nw_sent w' = nw_sent w \<and> (\<exists>e. res = Inl e) \<or> nw_sent w' = nw_sent w @ [?r]"
  proof (cases res1)
    case (Inl e)
    then show ?thesis
      using Kraken_PlaceOrder_frame [OF assms cid 1] Kraken_doPrivate_frame [OF 1] assms cid 1
      by (auto simp: Kraken_PlaceOrder_def)
  next
    case (Inr body)
    then show ?thesis using Kraken_PlaceOrder_frame [OF assms cid 1] Kraken_doPrivate_answered 1 by metis
  qed
  have wf: "wf_map ?q" by (simp add: kraken_order_params_def Let_def)
  have "map_of (decode_query (encode_values ?q)) = map_of ?q"
    using decode_encode [of ?q] map_of_sort_key [OF wf] by simp
  with sent cid show ?thesis
    by (elim disjE) (simp, intro disjI2 exI [of _ ?r],
      simp add: private_request_def nonce_text_def kraken_order_params_def normalizePair_def Let_def fun_eq_iff map_add_def)
qed

theorem kraken_order_on_the_wire_witness:
  "\<exists>res c' w' r body. Kraken_PlaceOrder (sample_env (\<lambda>n r. Inl ErrJson) (\<lambda>s. None))
       \<lparr>rq_ClientOrderID = ''a&type=sell'', rq_Symbol = ''XBT/USD'', rq_Side = SideBuy, rq_Type = OrderTypeMarket,
        rq_Quantity = 2, rq_Price = 0\<rparr> sample_kraken world0 = (res, c', w') \<and>
     nw_sent w' = [r] \<and> hq_body r = Some body \<and> map_of (decode_query body) ''type'' = Some ''buy'' \<and>
     map_of (decode_query body) ''userref'' = Some ''a&type=sell''"
proof -
  let ?E = "sample_env (\<lambda>n r. Inl ErrJson) (\<lambda>s. None)"
  let ?req = "\<lparr>rq_ClientOrderID = ''a&type=sell'', rq_Symbol = ''XBT/USD'', rq_Side = SideBuy, rq_Type = OrderTypeMarket,
    rq_Quantity = 2, rq_Price = 0\<rparr> :: int order_request"
  let ?c = "sample_kraken\<lparr>kn_nonce := kn_nonce sample_kraken + 1\<rparr>"
  let ?p = "kraken_order_params (ne_dec ?E) ?req"
  obtain res c' w' where p: "Kraken_PlaceOrder ?E ?req sample_kraken world0 = (res, c', w')"
    by (cases "Kraken_PlaceOrder ?E ?req sample_kraken world0")
  obtain res1 c1 w1 where d: "Kraken_doPrivate ?E ''/0/private/AddOrder'' ?p 6 sample_kraken world0 = (res1, c1, w1)"
    by (cases "Kraken_doPrivate ?E ''/0/private/AddOrder'' ?p 6 sample_kraken world0")
  have l: "kn_limiter ?c = NewCounterLimiter (1000 * second) ''kraken'' 20"
    by (simp add: sample_kraken_def Kraken_NewConnector_def)
  have "cl_ok (kn_limiter ?c)" "decayLocked (1000 * second) (kn_limiter ?c) = kn_limiter ?c" "cl_backoff (kn_limiter ?c) = 0"
    by (simp_all add: l cl_ok_def NewCounterLimiter_def decayLocked_def time_sub_def trunc_div_def Let_def)
  then obtain lim m where "kraken_wait ?E 6 ?c world0 = (lim, None, m)"
    using cl.wait_admit [of "kn_limiter ?c" 6 "1000 * second" "1000 * second"] l by (auto simp: NewCounterLimiter_def)
  from Kraken_do_sent [OF this d [unfolded Kraken_doPrivate_eq sample_env_simps option.case]]
  have "nw_sent w1 = [private_request ?E sample_kraken ''/0/private/AddOrder'' ?p]" by (simp add: world0_def)
  then obtain r where r: "nw_sent w' = nw_sent world0 @ [r]"
    using Kraken_PlaceOrder_frame [OF p _ d] by (auto simp: world0_def)
  from kraken_order_on_the_wire [OF p] r obtain body where "hq_body r = Some body"
    "map_of (decode_query body) ''type'' = Some ''buy''" "map_of (decode_query body) ''userref'' = Some ''a&type=sell''"
    by auto
  then show ?thesis using p r by (auto simp: world0_def)
qed

text \<open>
  Nonces grow. Over any sequence of private calls the connector's nonce grows by one per
  call, whatever happens to the calls, so as long as the 64-bit counter does not wrap the nonces
  of two calls never coincide and later ones are larger.
\<close>

theorem kraken_nonce_grows:
  assumes "send_all (kraken_call E) calls c w = (ress, c', w')" "unat (kn_nonce c) + length calls < 2 ^ 64"
  shows "unat (kn_nonce c') = unat (kn_nonce c) + length calls"
proof -
  have n: "kn_nonce c' = kn_nonce c + of_nat (length calls)"
    using assms(1)
  proof (induction calls arbitrary: c w ress)
    case (Cons call calls)
    obtain res1 c1 w1 where 1: "kraken_call E call c w = (res1, c1, w1)" by (cases "kraken_call E call c w")
    have "kn_nonce c1 = kn_nonce c + 1"
      using 1 by (cases call) (auto simp: kraken_call_def dest!: Kraken_doPrivate_frame)
    then show ?case using Cons.IH [of c1 w1] Cons.prems 1 by (auto split: prod.splits)
  qed simp
  have "unat (of_nat (length calls) :: 64 word) = length calls" using assms(2) by (simp add: unat_of_nat)
  then show ?thesis using assms(2) unfolding n by (simp add: unat_word_ariths)
qed

theorem kraken_nonce_grows_witness:
  "\<exists>ress c' w'. send_all (kraken_call (sample_env (\<lambda>n r. Inl ErrJson) (\<lambda>s. None)))
       (replicate 2 (''/0/private/Balance'', [], 2)) sample_kraken world0 = (ress, c', w') \<and> unat (kn_nonce c') = 7"
proof -
  let ?E = "sample_env (\<lambda>n r. Inl ErrJson) (\<lambda>s. None)"
  let ?calls = "replicate 2 (''/0/private/Balance'', [], 2) :: private_call list"
  obtain ress c' w' where 1: "send_all (kraken_call ?E) ?calls sample_kraken world0 = (ress, c', w')"
    by (cases "send_all (kraken_call ?E) ?calls sample_kraken world0")
  have n: "kn_nonce sample_kraken = 5"
    by (simp add: sample_kraken_def Kraken_NewConnector_def UnixNano_def in_int64_def)
  from kraken_nonce_grows [OF 1] 1 show ?thesis by (simp add: n)
qed

end
