(* ===== verification/Otc_Rest.thy ===== *)
theory Otc_Rest
  imports Rest_Adapter
begin

text \<open>
  The OTC desk adapter of \<open>internal/adapters/otc/otc.go\<close> and \<open>sftp.go\<close>: requests under the
  per-second limiter, the two-step order (request for quote, then acceptance), the other
  operations of a venue connector, and the file confirmations. The connector stores the
  responses and fills of its orders and never reads them back.
\<close>

section \<open>Definitions\<close>

record 'd otc_conn =
  ot_cfg :: venue_config
  ot_apiKey :: string
  ot_limiter :: rps_limiter
  ot_orders :: "(string, 'd order_response) gomap"
  ot_fills :: "'d fill list"
  ot_sftpPath :: string

definition Otc_NewConnector ::
  "string \<Rightarrow> string \<Rightarrow> string \<Rightarrow> gotime \<Rightarrow> string \<Rightarrow> rps_limiter option \<Rightarrow> 'd otc_conn"
where
  "Otc_NewConnector env_DESK env_BUDGET env_SFTP now apiKey limiter =
     (let rps = (if env_BUDGET \<noteq> '''' then (case parse_int64 env_BUDGET of Some n \<Rightarrow> n | None \<Rightarrow> 10) else 10)
      in \<lparr>ot_cfg = \<lparr>vc_Name = ''otc'', vc_RESTBase = (if env_DESK = '''' then ''http://localhost:9000'' else env_DESK),
                    vc_WSBase = '''', vc_Knobs = []\<rparr>,
          ot_apiKey = apiKey,
          ot_limiter = (case limiter of None \<Rightarrow> NewRPSLimiter now ''otc'' rps | Some l \<Rightarrow> l),
          ot_orders = [], ot_fills = [], ot_sftpPath = env_SFTP\<rparr>)"

text \<open>\<open>payload\<close> is \<open>None\<close> for nil; the payloads the code passes always marshal.\<close>

definition Otc_do ::
  "'d net_env \<Rightarrow> string \<Rightarrow> string \<Rightarrow> json option \<Rightarrow> 'd otc_conn \<Rightarrow> net_world \<Rightarrow>
   (go_error + string) \<times> 'd otc_conn \<times> net_world"
where
  "Otc_do E meth path payload c w0 =
     (case time_now E w0 of (now, w1) \<Rightarrow>
      case RPSLimiter_Wait now 1 (ot_limiter c) of (l, err, _) \<Rightarrow>
      let c1 = c\<lparr>ot_limiter := l\<rparr> in
      case err of
        Some e \<Rightarrow> (Inl e, c1, w1)
      | None \<Rightarrow>
          (case new_request E meth (vc_RESTBase (ot_cfg c1) @ path) (map_option (ne_print E) payload) of
             Inl e \<Rightarrow> (Inl e, c1, w1)
           | Inr req0 \<Rightarrow>
               (let req1 = (if ot_apiKey c1 \<noteq> '''' then set_header ''Authorization'' (''Bearer '' @ ot_apiKey c1) req0 else req0);
                    req = set_header ''Content-Type'' ''application/json'' req1
                in case http_do E req w1 of
                     (Inl e, w2) \<Rightarrow> (Inl e, c1, w2)
                   | (Inr resp, w2) \<Rightarrow>
                       (case hr_body resp of
                          Inl e \<Rightarrow> (Inl e, c1, w2)
                        | Inr body \<Rightarrow>
                            if hr_status resp = 429 then
                              (case time_now E w2 of (now2, w3) \<Rightarrow>
                                 (Inl (ErrMsg ''otc: rate limited''),
                                  c1\<lparr>ot_limiter := RPSLimiter_Backoff now2 ''otc'' (5 * second) l\<rparr>, w3))
                            else if hr_status resp \<ge> 400 then
                              (Inl (ErrMsg (''otc: status '' @ format_int (hr_status resp) @ '' body '' @ body)), c1, w2)
                            else (Inr body, c1, w2)))))"

definition Otc_mapStatus :: "string \<Rightarrow> string" where
  "Otc_mapStatus s =
     (let l = to_lower s in
      if l = ''new'' \<or> l = ''pending'' \<or> l = ''open'' then OrderStatusNew
      else if l = ''partial'' \<or> l = ''partially_filled'' then OrderStatusPartial
      else if l = ''filled'' \<or> l = ''settled'' \<or> l = ''completed'' then OrderStatusFilled
      else if l = ''canceled'' \<or> l = ''cancelled'' \<or> l = ''rejected'' then OrderStatusCanceled
      else s)"

subsection \<open>Orders\<close>

definition rfq_payload :: "'d net_env \<Rightarrow> 'd order_request \<Rightarrow> json" where
  "rfq_payload E req =
     JObj [(''client_order_id'', JStr (rq_ClientOrderID req)), (''symbol'', JStr (rq_Symbol req)),
           (''side'', JStr (rq_Side req)), (''quantity'', ne_dec_print E (rq_Quantity req))]"

record 'd quote_resp =
  qr_QuoteID :: string
  qr_Price :: 'd
  qr_ExpiresAt :: gotime
  qr_Status :: string

definition quote_fields :: "'d net_env \<Rightarrow> 'd quote_resp field list" where
  "quote_fields E =
     [field ''quote_id'' qr_QuoteID qr_QuoteID_update decode_string,
      field ''price'' qr_Price qr_Price_update (decode_custom (ne_dec_json E)),
      field ''expires_at'' qr_ExpiresAt qr_ExpiresAt_update (decode_custom (ne_time_json E)),
      field ''status'' qr_Status qr_Status_update decode_string]"

record 'd accept_resp =
  ac_OrderID :: string
  ac_Status :: string
  ac_FilledQty :: 'd
  ac_Price :: 'd
  ac_Fee :: 'd
  ac_FeeAsset :: string
  ac_TradeID :: string

definition accept_fields :: "'d net_env \<Rightarrow> 'd accept_resp field list" where
  "accept_fields E =
     [field ''order_id'' ac_OrderID ac_OrderID_update decode_string,
      field ''status'' ac_Status ac_Status_update decode_string,
      field ''filled_qty'' ac_FilledQty ac_FilledQty_update (decode_custom (ne_dec_json E)),
      field ''price'' ac_Price ac_Price_update (decode_custom (ne_dec_json E)),
      field ''fee'' ac_Fee ac_Fee_update (decode_custom (ne_dec_json E)),
      field ''fee_asset'' ac_FeeAsset ac_FeeAsset_update decode_string,
      field ''trade_id'' ac_TradeID ac_TradeID_update decode_string]"

definition accept_zero :: "'d dec_ops \<Rightarrow> 'd accept_resp" where
  "accept_zero D = \<lparr>ac_OrderID = '''', ac_Status = '''', ac_FilledQty = dec_nil D, ac_Price = dec_nil D, ac_Fee = dec_nil D,
     ac_FeeAsset = '''', ac_TradeID = ''''\<rparr>"

definition accept_fill :: "gotime \<Rightarrow> 'd accept_resp \<Rightarrow> 'd fill" where
  "accept_fill now a =
     \<lparr>fl_VenueOrderID = ac_OrderID a, fl_TradeID = ac_TradeID a, fl_Price = ac_Price a, fl_Quantity = ac_FilledQty a,
      fl_Fee = ac_Fee a, fl_FeeAsset = ac_FeeAsset a, fl_Timestamp = now\<rparr>"

definition accept_response :: "string \<Rightarrow> 'd fill \<Rightarrow> 'd accept_resp \<Rightarrow> 'd order_response" where
  "accept_response cid f a =
     \<lparr>or_VenueOrderID = ac_OrderID a, or_ClientOrderID = cid, or_Status = Otc_mapStatus (ac_Status a),
      or_FilledQty = ac_FilledQty a, or_AvgPrice = ac_Price a, or_Fills = [f]\<rparr>"

text \<open>The second step: the acceptance of a quote.\<close>

definition otc_accept ::
  "'d net_env \<Rightarrow> 'd order_request \<Rightarrow> string \<Rightarrow> 'd otc_conn \<Rightarrow> net_world \<Rightarrow>
   (go_error + 'd order_response) \<times> 'd otc_conn \<times> net_world"
where
  "otc_accept E req quoteID c w =
     (case Otc_do E ''POST'' (''/v1/quotes/'' @ quoteID @ ''/accept'')
             (Some (JObj [(''client_order_id'', JStr (rq_ClientOrderID req))])) c w of
        (Inl err, c1, w1) \<Rightarrow> (Inl err, c1, w1)
      | (Inr acceptBody, c1, w1) \<Rightarrow>
          (case unmarshal_or (ne_json E) (decode_struct (accept_fields E)) (accept_zero (ne_dec E)) acceptBody of
             Inl err \<Rightarrow> (Inl err, c1, w1)
           | Inr a \<Rightarrow>
               (case time_now E w1 of (now, w2) \<Rightarrow>
                  (let f = accept_fill now a; resp = accept_response (rq_ClientOrderID req) f a
                   in (Inr resp, c1\<lparr>ot_orders := AList.update (ac_OrderID a) resp (ot_orders c1),
                                    ot_fills := ot_fills c1 @ [f]\<rparr>, w2)))))"

definition quote_refused :: "string \<Rightarrow> bool" where
  "quote_refused st \<longleftrightarrow> to_lower st = ''rejected'' \<or> to_lower st = ''expired''"

definition Otc_PlaceOrder ::
  "'d net_env \<Rightarrow> 'd order_request \<Rightarrow> 'd otc_conn \<Rightarrow> net_world \<Rightarrow>
   (go_error + 'd order_response) \<times> 'd otc_conn \<times> net_world"
where
  "Otc_PlaceOrder E req c w =
     (if rq_ClientOrderID req = '''' then (Inl (ErrMsg ''otc: client_order_id required''), c, w)
      else
        (case Otc_do E ''POST'' ''/v1/rfq'' (Some (rfq_payload E req)) c w of
           (Inl err, c1, w1) \<Rightarrow> (Inl err, c1, w1)
         | (Inr body, c1, w1) \<Rightarrow>
             (case unmarshal_or (ne_json E) (decode_struct (quote_fields E))
                     \<lparr>qr_QuoteID = '''', qr_Price = dec_nil (ne_dec E), qr_ExpiresAt = 0, qr_Status = ''''\<rparr> body of
                Inl err \<Rightarrow> (Inl err, c1, w1)
              | Inr q \<Rightarrow>
                  if quote_refused (qr_Status q) then (Inl (ErrMsg (''otc: quote '' @ qr_Status q)), c1, w1)
                  else otc_accept E req (qr_QuoteID q) c1 w1)))"

record 'd order_status_resp =
  sr_OrderID :: string
  sr_Status :: string
  sr_FilledQty :: 'd
  sr_Price :: 'd
  sr_SettlementStatus :: string

definition order_status_fields :: "'d net_env \<Rightarrow> 'd order_status_resp field list" where
  "order_status_fields E =
     [field ''order_id'' sr_OrderID sr_OrderID_update decode_string,
      field ''status'' sr_Status sr_Status_update decode_string,
      field ''filled_qty'' sr_FilledQty sr_FilledQty_update (decode_custom (ne_dec_json E)),
      field ''price'' sr_Price sr_Price_update (decode_custom (ne_dec_json E)),
      field ''settlement_status'' sr_SettlementStatus sr_SettlementStatus_update decode_string]"

definition otc_order_status :: "'d order_status_resp \<Rightarrow> string" where
  "otc_order_status r =
     (let status = Otc_mapStatus (sr_Status r)
      in if sr_SettlementStatus r \<noteq> '''' \<and> to_lower (sr_SettlementStatus r) = ''settled'' \<and> status = OrderStatusNew
         then OrderStatusFilled else status)"

definition Otc_GetOrder ::
  "'d net_env \<Rightarrow> string \<Rightarrow> 'd otc_conn \<Rightarrow> net_world \<Rightarrow> (go_error + 'd order_response) \<times> 'd otc_conn \<times> net_world"
where
  "Otc_GetOrder E venueOrderID c w =
     (case Otc_do E ''GET'' (''/v1/orders/'' @ venueOrderID) None c w of
        (Inl err, c1, w1) \<Rightarrow> (Inl err, c1, w1)
      | (Inr body, c1, w1) \<Rightarrow>
          (case unmarshal_or (ne_json E) (decode_struct (order_status_fields E))
                  \<lparr>sr_OrderID = '''', sr_Status = '''', sr_FilledQty = dec_nil (ne_dec E), sr_Price = dec_nil (ne_dec E),
                   sr_SettlementStatus = ''''\<rparr> body of
             Inl err \<Rightarrow> (Inl err, c1, w1)
           | Inr r \<Rightarrow>
               (Inr \<lparr>or_VenueOrderID = sr_OrderID r, or_ClientOrderID = '''', or_Status = otc_order_status r,
                     or_FilledQty = sr_FilledQty r, or_AvgPrice = sr_Price r, or_Fills = []\<rparr>, c1, w1)))"

definition Otc_CancelOrder ::
  "'d net_env \<Rightarrow> cancel_request \<Rightarrow> 'd otc_conn \<Rightarrow> net_world \<Rightarrow> go_error option \<times> 'd otc_conn \<times> net_world"
where
  "Otc_CancelOrder E req c w =
     (let oid = (if cr_VenueOrderID req = '''' then cr_ClientOrderID req else cr_VenueOrderID req) in
      if oid = '''' then (Some (ErrMsg ''otc: cancel requires order id''), c, w)
      else (case Otc_do E ''POST'' (''/v1/orders/'' @ oid @ ''/cancel'') None c w of
              (Inl err, c1, w1) \<Rightarrow> (Some err, c1, w1)
            | (Inr _, c1, w1) \<Rightarrow> (None, c1, w1)))"

subsection \<open>Fills, balances, book\<close>

record 'd otc_trade =
  ott_TradeID :: string
  ott_Price :: 'd
  ott_Qty :: 'd
  ott_Fee :: 'd
  ott_FeeAsset :: string
  ott_Time :: gotime

definition otc_trade_fields :: "'d net_env \<Rightarrow> 'd otc_trade field list" where
  "otc_trade_fields E =
     [field ''trade_id'' ott_TradeID ott_TradeID_update decode_string,
      field ''price'' ott_Price ott_Price_update (decode_custom (ne_dec_json E)),
      field ''qty'' ott_Qty ott_Qty_update (decode_custom (ne_dec_json E)),
      field ''fee'' ott_Fee ott_Fee_update (decode_custom (ne_dec_json E)),
      field ''fee_asset'' ott_FeeAsset ott_FeeAsset_update decode_string,
      field ''time'' ott_Time ott_Time_update (decode_custom (ne_time_json E))]"

definition otc_trade_zero :: "'d dec_ops \<Rightarrow> 'd otc_trade" where
  "otc_trade_zero D = \<lparr>ott_TradeID = '''', ott_Price = dec_nil D, ott_Qty = dec_nil D, ott_Fee = dec_nil D,
     ott_FeeAsset = '''', ott_Time = 0\<rparr>"

record 'd otc_fills_resp =
  ofr_Fills :: "'d otc_trade list"

definition otc_fill :: "string \<Rightarrow> 'd otc_trade \<Rightarrow> 'd fill" where
  "otc_fill oid f =
     \<lparr>fl_VenueOrderID = oid, fl_TradeID = ott_TradeID f, fl_Price = ott_Price f, fl_Quantity = ott_Qty f,
      fl_Fee = ott_Fee f, fl_FeeAsset = ott_FeeAsset f, fl_Timestamp = ott_Time f\<rparr>"

definition Otc_GetFills ::
  "'d net_env \<Rightarrow> fill_query \<Rightarrow> 'd otc_conn \<Rightarrow> net_world \<Rightarrow> (go_error + 'd fill list) \<times> 'd otc_conn \<times> net_world"
where
  "Otc_GetFills E q c w =
     (case Otc_do E ''GET'' (''/v1/orders/'' @ fq_VenueOrderID q @ ''/fills'') None c w of
        (Inl err, c1, w1) \<Rightarrow> (Inl err, c1, w1)
      | (Inr body, c1, w1) \<Rightarrow>
          (case unmarshal_or (ne_json E)
                  (decode_struct [field ''fills'' ofr_Fills ofr_Fills_update
                     (decode_slice (decode_struct (otc_trade_fields E)) (otc_trade_zero (ne_dec E)))])
                  \<lparr>ofr_Fills = []\<rparr> body of
             Inl err \<Rightarrow> (Inl err, c1, w1)
           | Inr r \<Rightarrow> (Inr (limit_fills (fq_Limit q) (map (otc_fill (fq_VenueOrderID q)) (ofr_Fills r))), c1, w1)))"

record 'd otc_balances_resp =
  obr_Balances :: "'d balance list"

definition otc_balance_fields :: "'d net_env \<Rightarrow> 'd balance field list" where
  "otc_balance_fields E =
     [field ''asset'' bl_Asset bl_Asset_update decode_string,
      field ''free'' bl_Free bl_Free_update (decode_custom (ne_dec_json E)),
      field ''locked'' bl_Locked bl_Locked_update (decode_custom (ne_dec_json E))]"

definition Otc_GetBalances ::
  "'d net_env \<Rightarrow> 'd otc_conn \<Rightarrow> net_world \<Rightarrow> (go_error + 'd balances) \<times> 'd otc_conn \<times> net_world"
where
  "Otc_GetBalances E c w =
     (case Otc_do E ''GET'' ''/v1/balances'' None c w of
        (Inl err, c1, w1) \<Rightarrow> (Inl err, c1, w1)
      | (Inr body, c1, w1) \<Rightarrow>
          (case unmarshal_or (ne_json E)
                  (decode_struct [field ''balances'' obr_Balances obr_Balances_update
                     (decode_slice (decode_struct (otc_balance_fields E))
                        \<lparr>bl_Asset = '''', bl_Free = dec_nil (ne_dec E), bl_Locked = dec_nil (ne_dec E)\<rparr>)])
                  \<lparr>obr_Balances = []\<rparr> body of
             Inl err \<Rightarrow> (Inl err, c1, w1)
           | Inr r \<Rightarrow> (Inr (fold (\<lambda>b. AList.update (bl_Asset b) b) (obr_Balances r) []), c1, w1)))"

definition Otc_SubscribeBook :: "string list \<Rightarrow> go_error + 'ch" where
  "Otc_SubscribeBook pairs = Inl ErrUnsupported"

subsection \<open>File confirmations\<close>

text \<open>\<open>filepath.Clean\<close> on Unix: the segments kept so far are in reverse.\<close>

fun clean_segs :: "bool \<Rightarrow> string list \<Rightarrow> string list \<Rightarrow> string list" where
  "clean_segs rooted acc [] = rev acc"
| "clean_segs rooted acc (s # ss) =
     (if s = '''' \<or> s = ''.'' then clean_segs rooted acc ss
      else if s = ''..'' then
        (case acc of
           [] \<Rightarrow> clean_segs rooted (if rooted then [] else [''..'']) ss
         | a # as \<Rightarrow> if a = ''..'' then clean_segs rooted (''..'' # acc) ss else clean_segs rooted as ss)
      else clean_segs rooted (s # acc) ss)"

definition clean_path :: "string \<Rightarrow> string" where
  "clean_path p =
     (let rooted = prefix ''/'' p;
          segs = clean_segs rooted [] (split_at (CHR ''/'') p);
          out = (if rooted then ''/'' else '''') @ join_with ''/'' segs
      in if out = '''' then ''.'' else out)"

text \<open>\<open>filepath.Join\<close> of two non-empty elements; \<open>read_file\<close> is \<open>os.ReadFile\<close>.\<close>

definition fetchSFTP :: "(string \<Rightarrow> go_error + string) \<Rightarrow> string \<Rightarrow> string \<Rightarrow> go_error + string" where
  "fetchSFTP read_file basePath orderID =
     (if basePath = '''' then Inl (ErrMsg ''otc: sftp path not configured'')
      else case read_file (clean_path (basePath @ ''/'' @ orderID @ ''.json'')) of
             Inl err \<Rightarrow> Inl (ErrWrap ''otc: sftp read: '' err)
           | Inr data \<Rightarrow> Inr data)"

definition FetchSFTPConfirmation :: "(string \<Rightarrow> go_error + string) \<Rightarrow> 'd otc_conn \<Rightarrow> string \<Rightarrow> go_error + string" where
  "FetchSFTPConfirmation read_file c orderID =
     (if ot_sftpPath c = '''' then Inl (ErrMsg ''otc: sftp not configured'')
      else fetchSFTP read_file (ot_sftpPath c) orderID)"

section \<open>The transport\<close>

abbreviation otc_wait where
  "otc_wait E c w \<equiv> RPSLimiter_Wait (ne_now E (nw_reads w)) 1 (ot_limiter c)"

text \<open>The request that \<open>do\<close> makes.\<close>

definition desk_request :: "'d net_env \<Rightarrow> string \<Rightarrow> string \<Rightarrow> json option \<Rightarrow> 'd otc_conn \<Rightarrow> http_req" where
  "desk_request E meth path payload c =
     \<lparr>hq_method = meth, hq_url = vc_RESTBase (ot_cfg c) @ path,
      hq_headers = (if ot_apiKey c \<noteq> '''' then [(''Authorization'', ''Bearer '' @ ot_apiKey c)] else []) @
        [(''Content-Type'', ''application/json'')],
      hq_body = map_option (ne_print E) payload\<rparr>"

lemma Otc_do_rejected:
  assumes "otc_wait E c w = (l, Some e, m)"
  shows "Otc_do E meth path payload c w = (Inl e, c\<lparr>ot_limiter := l\<rparr>, w\<lparr>nw_reads := nw_reads w + 1\<rparr>)"
  using assms by (simp add: Otc_do_def time_now_eq Let_def)

lemma Otc_do_admitted:
  assumes "otc_wait E c w = (l, None, m)" "Otc_do E meth path payload c w = (res, c', w')"
  shows "(nw_sent w' = nw_sent w \<and> (\<exists>e. res = Inl e) \<or> nw_sent w' = nw_sent w @ [desk_request E meth path payload c]) \<and>
    nw_reads w + 1 \<le> nw_reads w' \<and> c' = c\<lparr>ot_limiter := ot_limiter c'\<rparr> \<and>
    (ot_limiter c' = l \<or> (\<exists>t. ot_limiter c' = RPSLimiter_Backoff t ''otc'' (5 * second) l))"
  using assms
  by (auto simp: Otc_do_def time_now_eq http_do_def new_request_def set_header_def desk_request_def Let_def
      split: sum.splits if_splits option.splits)

lemma Otc_do_frame:
  assumes "Otc_do E meth path payload c w = (res, c', w')"
  shows "(nw_sent w' = nw_sent w \<and> (\<exists>e. res = Inl e) \<or> nw_sent w' = nw_sent w @ [desk_request E meth path payload c]) \<and>
    nw_reads w + 1 \<le> nw_reads w' \<and> c' = c\<lparr>ot_limiter := ot_limiter c'\<rparr>"
proof -
  obtain l e m where l: "otc_wait E c w = (l, e, m)" by (cases "otc_wait E c w")
  show ?thesis
  proof (cases e)
    case None
    then show ?thesis using Otc_do_admitted [OF l [unfolded None] assms] by simp
  next
    case (Some x)
    then show ?thesis using Otc_do_rejected [OF l [unfolded Some], of meth path payload] assms by auto
  qed
qed

lemma Otc_do_blocked:
  assumes "Otc_do E meth path payload c w = (res, c', w')" "rl_backoff (ot_limiter c) \<noteq> 0"
    "\<forall>i. nw_reads w \<le> i \<longrightarrow> i < nw_reads w' \<longrightarrow> ne_now E i < rl_backoff (ot_limiter c)"
  shows "(\<exists>e. res = Inl e) \<and> nw_sent w' = nw_sent w \<and> rl_backoff (ot_limiter c') = rl_backoff (ot_limiter c)"
proof -
  have "ne_now E (nw_reads w) < rl_backoff (ot_limiter c)" using assms(3) Otc_do_frame [OF assms(1)] by simp
  then have "otc_wait E c w = (ot_limiter c, Some ErrBudgetExhausted, [])"
    using assms(2) by (simp add: RPSLimiter_Wait_def)
  from Otc_do_rejected [OF this, of meth path payload] assms(1) show ?thesis by auto
qed

lemma Otc_do_metered:
  assumes "Otc_do E meth path payload c w = (res, c', w')"
  shows "\<exists>evs adm new. serve (\<lambda>t1. RPSLimiter_Wait) RPSLimiter_Backoff evs (ot_limiter c) = (ot_limiter c', adm) \<and>
    nw_sent w' = nw_sent w @ new \<and> length new \<le> length adm \<and>
    (\<forall>ev \<in> set evs. event_read (ne_now E) (nw_reads w) (nw_reads w') ev) \<and> subseq (concat (map event_cost evs)) [1]"
proof -
  let ?rq = "Request (ne_now E (nw_reads w)) (ne_now E (nw_reads w)) 1"
  have rd: "event_read (ne_now E) (nw_reads w) (nw_reads w') ?rq"
    using Otc_do_frame [OF assms] by (intro event_readI) auto
  obtain l e m where l: "otc_wait E c w = (l, e, m)" by (cases "otc_wait E c w")
  show ?thesis
  proof (cases e)
    case (Some x)
    then show ?thesis using Otc_do_rejected [OF l [unfolded Some], of meth path payload] assms l rd
      by (intro exI [of _ "[?rq]"] exI [of _ "[]"]) (auto simp del: event_read.simps)
  next
    case None
    note s = Otc_do_admitted [OF l [unfolded None] assms]
    then obtain new where new: "nw_sent w' = nw_sent w @ new" "length new \<le> 1" by auto
    consider "ot_limiter c' = l" | t where "ot_limiter c' = RPSLimiter_Backoff t ''otc'' (5 * second) l" using s by blast
    then show ?thesis
    proof cases
      case 1
      then show ?thesis using new l None rd
        by (intro exI [of _ "[?rq]"] exI [of _ "[1]"] exI [of _ new]) (simp del: event_read.simps(1))
    next
      case 2
      then show ?thesis using new l None rd
        by (intro exI [of _ "[?rq, Penalty t ''otc'' (5 * second)]"] exI [of _ "[1]"] exI [of _ new])
          (simp del: event_read.simps(1))
    qed
  qed
qed

type_synonym desk_call = "string \<times> string \<times> json option"

definition otc_call ::
  "'d net_env \<Rightarrow> desk_call \<Rightarrow> 'd otc_conn \<Rightarrow> net_world \<Rightarrow> (go_error + string) \<times> 'd otc_conn \<times> net_world"
where
  "otc_call E = (\<lambda>(meth, path, payload). Otc_do E meth path payload)"

interpretation ot: metered_transport "otc_call E" "ne_now E" "\<lambda>c. rl_backoff (ot_limiter c)" ot_limiter
    "\<lambda>t1. RPSLimiter_Wait" RPSLimiter_Backoff "\<lambda>call. 1"
  for E :: "'d net_env"
proof unfold_locales
  show "\<exists>evs adm new. serve (\<lambda>t1. RPSLimiter_Wait) RPSLimiter_Backoff evs (ot_limiter s) = (ot_limiter s', adm) \<and>
      nw_sent w' = nw_sent w @ new \<and> length new \<le> length adm \<and>
      (\<forall>ev \<in> set evs. event_read (ne_now E) (nw_reads w) (nw_reads w') ev) \<and> subseq (concat (map event_cost evs)) [1]"
    if "otc_call E r s w = (res, s', w')" for r res w w' and s s' :: "'d otc_conn"
    using that Otc_do_metered by (cases r) (simp add: otc_call_def)
qed (auto simp: otc_call_def dest: Otc_do_frame Otc_do_blocked)

section \<open>Properties\<close>

text \<open>
  C18: within one window of the limiter the OTC adapter puts at most as many requests on the wire
  as the limit still allows, for any sequence of calls and whatever the desk answers.
\<close>

theorem otc_wire_within_limit:
  assumes "send_all (otc_call E) calls c w = (ress, c', w')"
    and "rl_ok (ot_limiter c)" "rl_count (ot_limiter c) \<le> rl_limit (ot_limiter c)"
    and "\<forall>i. nw_reads w \<le> i \<longrightarrow> i < nw_reads w' \<longrightarrow>
      rl_start (ot_limiter c) \<le> ne_now E i \<and> ne_now E i < rl_start (ot_limiter c) + rl_window (ot_limiter c)"
  shows "\<exists>new. nw_sent w' = nw_sent w @ new \<and> int (length new) \<le> rl_limit (ot_limiter c) - rl_count (ot_limiter c)"
proof -
  let ?l = "ot_limiter c"
  obtain evs adm new where m: "serve (\<lambda>t1. RPSLimiter_Wait) RPSLimiter_Backoff evs ?l = (ot_limiter c', adm)"
    "nw_sent w' = nw_sent w @ new" "length new \<le> length adm"
    "\<forall>ev \<in> set evs. event_read (ne_now E) (nw_reads w) (nw_reads w') ev"
    "subseq (concat (map event_cost evs)) (map (\<lambda>call. 1) calls)"
    using ot.send_all_metered [OF assms(1)] by blast
  have one: "k = 1" if "ev \<in> set evs" "k \<in> set (event_cost ev)" for ev k
    using that list_emb_set [OF m(5), of k] by auto
  have sane: "sane_event ev" if "ev \<in> set evs" for ev
    by (intro event_cost_sane) (auto dest: one [OF that])
  have ok: "\<forall>ev \<in> set evs. sane_event ev \<and> requests_between (rl_start ?l) (rl_start ?l + rl_window ?l) ev"
    using m(4) assms(4) by (auto intro: sane event_read_between simp del: event_read.simps)
  have "rl_count ?l + sum_list (map (\<lambda>w. 1) adm) \<le> rl_limit ?l"
    using rl.serve_window [OF assms(2) ok m(1) assms(3)] by auto
  then show ?thesis using m(2,3) by (auto simp: sum_list_triv)
qed

definition sample_otc :: "int otc_conn" where
  "sample_otc = Otc_NewConnector '''' ''2'' '''' (1000 * second) '''' None"

text \<open>A limit of two requests in a second, three calls.\<close>

theorem otc_wire_within_limit_witness:
  "\<exists>ress c' w'. send_all (otc_call (sample_env (\<lambda>n r. Inl ErrJson) (\<lambda>s. None)))
       (replicate 3 (''GET'', ''/v1/balances'', None)) sample_otc world0 = (ress, c', w') \<and> length (nw_sent w') \<le> 2"
proof -
  let ?E = "sample_env (\<lambda>n r. Inl ErrJson) (\<lambda>s. None)"
  let ?calls = "replicate 3 (''GET'', ''/v1/balances'', None) :: desk_call list"
  obtain ress c' w' where 1: "send_all (otc_call ?E) ?calls sample_otc world0 = (ress, c', w')"
    by (cases "send_all (otc_call ?E) ?calls sample_otc world0")
  have l: "ot_limiter sample_otc = NewRPSLimiter (1000 * second) ''otc'' 2"
    by (simp add: sample_otc_def Otc_NewConnector_def parse_int64_def parse_nat_def digit_val_def char_code_def in_int64_def)
  have "rl_ok (ot_limiter sample_otc)" "rl_count (ot_limiter sample_otc) \<le> rl_limit (ot_limiter sample_otc)"
    by (simp_all add: l rl_ok_def NewRPSLimiter_def)
  from otc_wire_within_limit [OF 1 this] 1 show ?thesis by (auto simp: l NewRPSLimiter_def world0_def)
qed

subsection \<open>The two steps of an order\<close>

text \<open>The quote \<open>q\<close> is what the body of the \<open>n\<close>-th answer, to \<open>rfq\<close>, decodes to.\<close>

definition quote_answered :: "'d net_env \<Rightarrow> nat \<Rightarrow> http_req \<Rightarrow> 'd quote_resp \<Rightarrow> bool" where
  "quote_answered E n rfq q \<longleftrightarrow> (\<exists>resp body. ne_resp E n rfq = Inr resp \<and> hr_body resp = Inr body \<and> hr_status resp < 400 \<and>
     unmarshal_or (ne_json E) (decode_struct (quote_fields E))
       \<lparr>qr_QuoteID = '''', qr_Price = dec_nil (ne_dec E), qr_ExpiresAt = 0, qr_Status = ''''\<rparr> body = Inr q)"

lemma Otc_do_answer:
  assumes "Otc_do E meth path payload c w = (Inr body, c', w')"
  shows "\<exists>resp. ne_resp E (length (nw_sent w)) (desk_request E meth path payload c) = Inr resp \<and>
    hr_body resp = Inr body \<and> hr_status resp < 400"
  using assms
  by (auto simp: Otc_do_def time_now_eq http_do_def new_request_def set_header_def desk_request_def Let_def
      split: sum.splits if_splits option.splits prod.splits)

text \<open>What an acceptance does, on both outcomes.\<close>

lemma otc_accept_cases:
  assumes "otc_accept E req qid c w = (res, c', w')"
  shows "case res of
      Inl e \<Rightarrow> ot_orders c' = ot_orders c \<and> ot_fills c' = ot_fills c \<and>
        (nw_sent w' = nw_sent w \<or>
         nw_sent w' = nw_sent w @ [desk_request E ''POST'' (''/v1/quotes/'' @ qid @ ''/accept'')
           (Some (JObj [(''client_order_id'', JStr (rq_ClientOrderID req))])) c])
    | Inr resp \<Rightarrow> ot_orders c' = AList.update (or_VenueOrderID resp) resp (ot_orders c) \<and>
        ot_fills c' = ot_fills c @ or_Fills resp \<and> or_ClientOrderID resp = rq_ClientOrderID req \<and>
        nw_sent w' = nw_sent w @ [desk_request E ''POST'' (''/v1/quotes/'' @ qid @ ''/accept'')
          (Some (JObj [(''client_order_id'', JStr (rq_ClientOrderID req))])) c]"
proof -
  let ?path = "''/v1/quotes/'' @ qid @ ''/accept''" and ?pl = "Some (JObj [(''client_order_id'', JStr (rq_ClientOrderID req))])"
  obtain res1 c1 w1 where d: "Otc_do E ''POST'' ?path ?pl c w = (res1, c1, w1)" by (cases "Otc_do E ''POST'' ?path ?pl c w")
  have fr: "(nw_sent w1 = nw_sent w \<and> (\<exists>e. res1 = Inl e) \<or> nw_sent w1 = nw_sent w @ [desk_request E ''POST'' ?path ?pl c])"
    and c1: "ot_orders c1 = ot_orders c" "ot_fills c1 = ot_fills c"
    using Otc_do_frame [OF d] by (auto intro: arg_cong [where f = ot_orders] arg_cong [where f = ot_fills])
      (metis otc_conn.select_convs(4,5) otc_conn.surjective otc_conn.update_convs(3))+
  show ?thesis
  proof (cases res1)
    case (Inl e)
    then show ?thesis using assms d fr c1 by (auto simp: otc_accept_def)
  next
    case (Inr body)
    then have sent: "nw_sent w1 = nw_sent w @ [desk_request E ''POST'' ?path ?pl c]" using fr by auto
    show ?thesis
    proof (cases "unmarshal_or (ne_json E) (decode_struct (accept_fields E)) (accept_zero (ne_dec E)) body")
      case (Inl e)
      then show ?thesis using assms d \<open>res1 = Inr body\<close> sent c1 by (auto simp: otc_accept_def)
    next
      case (Inr a)
      then show ?thesis using assms d \<open>res1 = Inr body\<close> sent c1
        by (auto simp: otc_accept_def time_now_eq accept_response_def Let_def)
    qed
  qed
qed

text \<open>
  What an order may put on the wire: nothing; the request for a quote; or that request and then
  the acceptance of the quote that answered it, whose status is neither rejected nor expired.
\<close>

definition rfq_sent :: "'d net_env \<Rightarrow> 'd order_request \<Rightarrow> 'd otc_conn \<Rightarrow> http_req \<Rightarrow> bool" where
  "rfq_sent E req c r \<longleftrightarrow> hq_method r = ''POST'' \<and> hq_url r = vc_RESTBase (ot_cfg c) @ ''/v1/rfq'' \<and>
     hq_body r = Some (ne_print E (rfq_payload E req))"

definition accept_sent :: "'d net_env \<Rightarrow> 'd order_request \<Rightarrow> 'd otc_conn \<Rightarrow> 'd quote_resp \<Rightarrow> http_req \<Rightarrow> bool" where
  "accept_sent E req c q r \<longleftrightarrow> hq_method r = ''POST'' \<and>
     hq_url r = vc_RESTBase (ot_cfg c) @ ''/v1/quotes/'' @ qr_QuoteID q @ ''/accept'' \<and>
     hq_body r = Some (ne_print E (JObj [(''client_order_id'', JStr (rq_ClientOrderID req))]))"

definition quoted_and_accepted :: "'d net_env \<Rightarrow> 'd order_request \<Rightarrow> 'd otc_conn \<Rightarrow> nat \<Rightarrow> http_req list \<Rightarrow> bool" where
  "quoted_and_accepted E req c n new \<longleftrightarrow> (\<exists>rfq accept q. new = [rfq, accept] \<and> rfq_sent E req c rfq \<and>
     quote_answered E n rfq q \<and> \<not> quote_refused (qr_Status q) \<and> accept_sent E req c q accept)"

lemma desk_request_rfq: "rfq_sent E req c (desk_request E ''POST'' ''/v1/rfq'' (Some (rfq_payload E req)) c)"
  by (simp add: rfq_sent_def desk_request_def)

lemma desk_request_accept:
  "accept_sent E req c q (desk_request E ''POST'' (''/v1/quotes/'' @ qr_QuoteID q @ ''/accept'')
     (Some (JObj [(''client_order_id'', JStr (rq_ClientOrderID req))])) (c\<lparr>ot_limiter := l\<rparr>))"
  by (simp add: accept_sent_def desk_request_def)

text \<open>
  C9: an OTC order asks for a quote and accepts it only when the answer does not refuse it. When
  \<open>PlaceOrder\<close> returns a response, exactly two requests were sent: the request for a quote with the
  order's fields, and the acceptance of the quote that answered it, whose status is neither
  \<open>rejected\<close> nor \<open>expired\<close>; the response is then recorded under its order id and so is its fill.
  When it returns an error nothing is recorded, and the requests sent are none, the request for a
  quote alone, or these two: never an acceptance of a quote whose status refuses it. The expiry
  time of the quote is not looked at.
\<close>

theorem otc_order_two_steps:
  assumes "Otc_PlaceOrder E req c w = (res, c', w')"
  shows "\<exists>new. nw_sent w' = nw_sent w @ new \<and>
    (case res of
      Inl e \<Rightarrow> ot_orders c' = ot_orders c \<and> ot_fills c' = ot_fills c \<and>
        (new = [] \<or> (\<exists>rfq. new = [rfq] \<and> rfq_sent E req c rfq) \<or> quoted_and_accepted E req c (length (nw_sent w)) new)
    | Inr resp \<Rightarrow> quoted_and_accepted E req c (length (nw_sent w)) new \<and>
        ot_orders c' = AList.update (or_VenueOrderID resp) resp (ot_orders c) \<and>
        ot_fills c' = ot_fills c @ or_Fills resp \<and> or_ClientOrderID resp = rq_ClientOrderID req \<and> rq_ClientOrderID req \<noteq> '''')"
proof (cases "rq_ClientOrderID req = ''''")
  case True
  then show ?thesis using assms by (auto simp: Otc_PlaceOrder_def)
next
  case cid: False
  let ?z = "\<lparr>qr_QuoteID = '''', qr_Price = dec_nil (ne_dec E), qr_ExpiresAt = 0, qr_Status = ''''\<rparr>"
  let ?rfq = "desk_request E ''POST'' ''/v1/rfq'' (Some (rfq_payload E req)) c"
  obtain res1 c1 w1 where d: "Otc_do E ''POST'' ''/v1/rfq'' (Some (rfq_payload E req)) c w = (res1, c1, w1)"
    by (cases "Otc_do E ''POST'' ''/v1/rfq'' (Some (rfq_payload E req)) c w")
  have fr: "nw_sent w1 = nw_sent w \<and> (\<exists>e. res1 = Inl e) \<or> nw_sent w1 = nw_sent w @ [?rfq]"
    and eq: "c1 = c\<lparr>ot_limiter := ot_limiter c1\<rparr>" using Otc_do_frame [OF d] by auto
  obtain l where l: "c1 = c\<lparr>ot_limiter := l\<rparr>" using eq by blast
  show ?thesis
  proof (cases "\<exists>body q. res1 = Inr body \<and> unmarshal_or (ne_json E) (decode_struct (quote_fields E)) ?z body = Inr q \<and>
      \<not> quote_refused (qr_Status q)")
    case False
    then have "c' = c1 \<and> w' = w1 \<and> (\<exists>e. res = Inl e)"
      using assms cid d by (auto simp: Otc_PlaceOrder_def split: sum.splits if_splits)
    then show ?thesis using fr l desk_request_rfq [of E req c] by auto
  next
    case True
    then obtain body q where b: "res1 = Inr body" "unmarshal_or (ne_json E) (decode_struct (quote_fields E)) ?z body = Inr q"
      "\<not> quote_refused (qr_Status q)" by blast
    let ?acc = "desk_request E ''POST'' (''/v1/quotes/'' @ qr_QuoteID q @ ''/accept'')
      (Some (JObj [(''client_order_id'', JStr (rq_ClientOrderID req))])) c1"
    have sent: "nw_sent w1 = nw_sent w @ [?rfq]" using fr b(1) by auto
    have "quote_answered E (length (nw_sent w)) ?rfq q"
      using Otc_do_answer [OF d [unfolded b(1)]] b(2) unfolding quote_answered_def by blast
    then have qa: "quoted_and_accepted E req c (length (nw_sent w)) [?rfq, ?acc]"
      using b(3) desk_request_rfq [of E req c] desk_request_accept [of E req c q l] unfolding quoted_and_accepted_def l by blast
    have "otc_accept E req (qr_QuoteID q) c1 w1 = (res, c', w')" using assms cid d b by (simp add: Otc_PlaceOrder_def)
    from otc_accept_cases [OF this] show ?thesis
      using qa sent desk_request_rfq [of E req c] cid by (cases res) (auto simp: l)
  qed
qed

definition desk_json :: "string \<Rightarrow> json option" where
  "desk_json s = Some (if s = ''q'' then JObj [(''quote_id'', JStr ''Q1''), (''status'', JStr ''expired'')] else JNull)"

text \<open>An expired quote: the request for it is the only one, and nothing is recorded.\<close>

theorem otc_order_two_steps_witness:
  "\<exists>c' w' rfq. Otc_PlaceOrder (sample_env (\<lambda>n r. Inr \<lparr>hr_status = 200, hr_header = \<lambda>k. '''', hr_body = Inr ''q''\<rparr>) desk_json)
       \<lparr>rq_ClientOrderID = ''c1'', rq_Symbol = ''BTC-USD'', rq_Side = SideBuy, rq_Type = OrderTypeMarket,
        rq_Quantity = 2, rq_Price = 0\<rparr> sample_otc world0 = (Inl (ErrMsg ''otc: quote expired''), c', w') \<and>
     ot_orders c' = [] \<and> ot_fills c' = [] \<and> nw_sent w' = [rfq] \<and> hq_url rfq = vc_RESTBase (ot_cfg sample_otc) @ ''/v1/rfq''"
proof -
  let ?E = "sample_env (\<lambda>n r. Inr \<lparr>hr_status = 200, hr_header = \<lambda>k. '''', hr_body = Inr ''q''\<rparr>) desk_json"
  let ?req = "\<lparr>rq_ClientOrderID = ''c1'', rq_Symbol = ''BTC-USD'', rq_Side = SideBuy, rq_Type = OrderTypeMarket,
    rq_Quantity = 2, rq_Price = 0\<rparr> :: int order_request"
  have "otc_wait ?E sample_otc world0 = ((ot_limiter sample_otc)\<lparr>rl_count := 1\<rparr>, None, [(''otc'', Fin (1 / 2))])"
    by (simp add: sample_otc_def Otc_NewConnector_def NewRPSLimiter_def RPSLimiter_Wait_def roll_window_def time_sub_def
        parse_int64_def parse_nat_def digit_val_def char_code_def in_int64_def fdiv_def Let_def)
  then obtain c' w' where p: "Otc_PlaceOrder ?E ?req sample_otc world0 = (Inl (ErrMsg ''otc: quote expired''), c', w')"
    and one: "length (nw_sent w') = 1"
    by (simp add: Otc_PlaceOrder_def Otc_do_def time_now_eq http_do_def new_request_def set_header_def desk_json_def
        unmarshal_or_def unmarshal_def decode_struct_def find_field_def field_def quote_fields_def decode_string_def
        quote_refused_def to_lower_def lower_char_def char_code_def world0_def Let_def)
  from otc_order_two_steps [OF p] one p show ?thesis
    by (auto simp: sample_otc_def Otc_NewConnector_def world0_def quoted_and_accepted_def rfq_sent_def)
qed

subsection \<open>Paths\<close>

definition plain_seg :: "string \<Rightarrow> bool" where
  "plain_seg s \<longleftrightarrow> s \<noteq> '''' \<and> s \<noteq> ''.'' \<and> s \<noteq> ''..'' \<and> CHR ''/'' \<notin> set s"

lemma clean_segs_plain:
  "\<forall>s \<in> set gs. plain_seg s \<Longrightarrow> clean_segs rooted acc (gs @ rest) = clean_segs rooted (rev gs @ acc) rest"
  by (induction gs arbitrary: acc) (auto simp: plain_seg_def)

lemma join_with_snoc: "ss \<noteq> [] \<Longrightarrow> join_with sep (ss @ [x]) = join_with sep ss @ sep @ x"
proof (induction ss)
  case (Cons s ss)
  then show ?case by (cases ss) simp_all
qed simp

lemma split_at_cat: "split_at c (a @ c # b) = split_at c a @ split_at c b"
  by (induction a) (auto split: list.split)

lemma split_at_join_plain: "ss \<noteq> [] \<Longrightarrow> \<forall>s \<in> set ss. plain_seg s \<Longrightarrow> split_at (CHR ''/'') (join_with ''/'' ss) = ss"
  by (rule split_join) (auto simp: plain_seg_def)

lemma clean_path_below:
  assumes "dirs \<noteq> []" "\<forall>s \<in> set dirs. plain_seg s" "\<forall>s \<in> set (split_at (CHR ''/'') rest). s = ''..'' \<or> plain_seg s"
  shows "clean_path (''/'' @ join_with ''/'' dirs @ ''/'' @ rest) =
    ''/'' @ join_with ''/'' (clean_segs True (rev dirs) (split_at (CHR ''/'') rest))"
proof -
  have "split_at (CHR ''/'') (''/'' @ join_with ''/'' dirs @ ''/'' @ rest) = '''' # dirs @ split_at (CHR ''/'') rest"
    using split_at_join_plain [OF assms(1,2)] split_at_cat [of "CHR ''/''" "join_with ''/'' dirs" rest] by simp
  then show ?thesis using clean_segs_plain [OF assms(2), of True "[]"] by (simp add: clean_path_def Let_def)
qed

lemma plain_json:
  assumes "CHR ''/'' \<notin> set name"
  shows "plain_seg (name @ ''.json'')"
proof -
  have "length (name @ ''.json'') \<ge> 5" by simp
  then have "name @ ''.json'' \<noteq> '''' \<and> name @ ''.json'' \<noteq> ''.'' \<and> name @ ''.json'' \<noteq> ''..''" by force
  then show ?thesis using assms by (simp add: plain_seg_def)
qed

text \<open>
  Which file a confirmation is read from. With an absolute base directory, an order id
  without a slash names a file of that directory; an order id that starts with \<open>../\<close> names a
  file of the parent directory, so the id of an order decides which directory is read.
\<close>

theorem sftp_confirmation_path:
  assumes "dirs \<noteq> []" "\<forall>s \<in> set dirs. plain_seg s" "plain_seg d" "CHR ''/'' \<notin> set name"
    and "ot_sftpPath c = ''/'' @ join_with ''/'' (dirs @ [d])"
  shows "FetchSFTPConfirmation read_file c name =
      fetchSFTP (\<lambda>p. read_file (ot_sftpPath c @ ''/'' @ name @ ''.json'')) (ot_sftpPath c) name \<and>
    FetchSFTPConfirmation read_file c (''../'' @ name) =
      fetchSFTP (\<lambda>p. read_file (''/'' @ join_with ''/'' dirs @ ''/'' @ name @ ''.json'')) (ot_sftpPath c) name"
proof -
  let ?f = "name @ ''.json''"
  have plain: "\<forall>s \<in> set (dirs @ [d]). plain_seg s" using assms(2,3) by auto
  have f: "split_at (CHR ''/'') ?f = [?f]" using assms(4) by (intro split_at_no_sep) auto
  have up: "split_at (CHR ''/'') (''../'' @ ?f) = [''..'', ?f]" using f by simp
  have seg: "?f \<noteq> ''''" "?f \<noteq> ''.''" "?f \<noteq> ''..''" using plain_json [OF assms(4)] by (auto simp: plain_seg_def)
  have d: "d \<noteq> ''..''" using assms(3) by (simp add: plain_seg_def)
  have a: "clean_path (ot_sftpPath c @ ''/'' @ ?f) = ot_sftpPath c @ ''/'' @ ?f"
    using clean_path_below [of "dirs @ [d]" ?f] plain plain_json [OF assms(4)] f seg assms(5)
    by (simp add: join_with_snoc [of "dirs @ [d]", simplified])
  have "\<forall>s \<in> set (split_at (CHR ''/'') (''../'' @ ?f)). s = ''..'' \<or> plain_seg s"
    using plain_json [OF assms(4)] up by simp
  from clean_path_below [OF _ plain this]
  have b: "clean_path (ot_sftpPath c @ ''/'' @ ''../'' @ ?f) = ''/'' @ join_with ''/'' dirs @ ''/'' @ ?f"
    using up seg d assms(1,5) by (simp add: join_with_snoc)
  show ?thesis using a b assms(5) by (simp add: FetchSFTPConfirmation_def fetchSFTP_def)
qed

theorem sftp_confirmation_path_witness:
  "FetchSFTPConfirmation (\<lambda>p. Inr p) (sample_otc\<lparr>ot_sftpPath := ''/data/sftp''\<rparr>) ''../secret'' = Inr ''/data/secret.json''"
  using sftp_confirmation_path [of "[''data'']" "''sftp''" "''secret''" "sample_otc\<lparr>ot_sftpPath := ''/data/sftp''\<rparr>" "\<lambda>p. Inr p"]
  by (simp add: plain_seg_def fetchSFTP_def)

end
