(* ===== verification/Venue_Books.thy ===== *)
theory Venue_Books
  imports Go_Http Book_Recon
begin

text \<open>
  The book subscriptions of \<open>internal/adapters/binance/book.go\<close> and
  \<open>internal/adapters/kraken/book.go\<close>: the message handlers that the WebSocket client calls, the
  REST snapshot, and the updates sent to the subscriber.

  A subscription owns a map of book reconstructors and a buffered channel of 64 updates; the
  handler runs on the goroutine of \<open>Client.Run\<close> only, so handling a message is a state
  transformer. \<open>ord\<close> is the order in which \<open>range\<close> visits a map. Sending is the \<open>select\<close> with a
  default branch: an update is dropped when the buffer is full.
\<close>

section \<open>Definitions\<close>

record 'd book_sub =
  sb_recons :: "(string, book_recon) gomap"
  sb_out :: "'d book_update list"
  sb_gap_count :: nat                       \<comment> \<open>increments of \<open>ws_gap_count\<close>\<close>
  sb_lag :: "(string \<times> gofloat) list"        \<comment> \<open>settings of \<open>ws_book_lag_seconds\<close>\<close>

definition dec_levels :: "'d dec_ops \<Rightarrow> level list \<Rightarrow> 'd book_level list" where
  "dec_levels D lvls = map (\<lambda>(p, s). \<lparr>lv_Price = dec_parse D p, lv_Size = dec_parse D s\<rparr>) lvls"

text \<open>
  \<open>emitUpdate\<close>, which the two adapters write out separately: Binance passes the upper-cased pair
  as \<open>shown\<close>, Kraken the pair itself. \<open>TopN(20)\<close> cannot panic.
\<close>

definition emitUpdate ::
  "'d net_env \<Rightarrow> (level list \<Rightarrow> level list) \<Rightarrow> book_recon \<Rightarrow> string \<Rightarrow> string \<Rightarrow> 'd book_sub \<Rightarrow> net_world \<Rightarrow>
   'd book_sub \<times> net_world"
where
  "emitUpdate E ord r pair shown sb w0 =
     (case TopN ord 20 r of
        None \<Rightarrow> (sb, w0)
      | Some (bids, asks) \<Rightarrow>
          (case time_now E w0 of (now, w1) \<Rightarrow>
             (let upd = \<lparr>bu_Pair = shown, bu_Bids = dec_levels (ne_dec E) bids,
                         bu_Asks = dec_levels (ne_dec E) asks, bu_TS = now\<rparr>
              in if length (bu_Bids upd) > 0 \<and> length (bu_Asks upd) > 0 then
                   (case time_now E w1 of (now2, w2) \<Rightarrow>
                      (sb\<lparr>sb_lag := sb_lag sb @ [(pair, Lag now2 r)],
                          sb_out := (if length (sb_out sb) < 64 then sb_out sb @ [upd] else sb_out sb)\<rparr>, w2))
                 else (sb, w1))))"

subsection \<open>Binance\<close>

record depth_data =
  dd_LastUpdateID :: int64
  dd_Bids :: "level list"
  dd_Asks :: "level list"

record depth_event =
  de_Stream :: string
  de_Data :: depth_data

definition depth_data_zero :: depth_data where
  "depth_data_zero = \<lparr>dd_LastUpdateID = 0, dd_Bids = [], dd_Asks = []\<rparr>"

abbreviation decode_levels :: "level list decoder" where
  "decode_levels \<equiv> decode_slice decode_pair ('''', '''')"

definition depth_data_fields :: "depth_data field list" where
  "depth_data_fields =
     [field ''lastUpdateId'' dd_LastUpdateID dd_LastUpdateID_update decode_int64,
      field ''bids'' dd_Bids dd_Bids_update decode_levels,
      field ''asks'' dd_Asks dd_Asks_update decode_levels]"

definition depth_event_fields :: "depth_event field list" where
  "depth_event_fields =
     [field ''stream'' de_Stream de_Stream_update decode_string,
      field ''data'' de_Data de_Data_update (decode_struct depth_data_fields)]"

text \<open>\<open>snapshotResp\<close> has the same content as the data of an event; its first tag is \<open>lastUpdateID\<close>.\<close>

definition snapshot_fields :: "depth_data field list" where
  "snapshot_fields =
     [field ''lastUpdateID'' dd_LastUpdateID dd_LastUpdateID_update decode_int64,
      field ''bids'' dd_Bids dd_Bids_update decode_levels,
      field ''asks'' dd_Asks dd_Asks_update decode_levels]"

definition streamToPair :: "string \<Rightarrow> string" where
  "streamToPair stream =
     (case index_of (CHR ''@'') stream of
        Some idx \<Rightarrow> if idx > 0 then take idx stream else stream
      | None \<Rightarrow> stream)"

definition refreshSnapshot ::
  "'d net_env \<Rightarrow> string \<Rightarrow> string \<Rightarrow> book_recon \<Rightarrow> net_world \<Rightarrow> (go_error + book_recon) \<times> net_world"
where
  "refreshSnapshot E restBase pair r w =
     (let u = restBase @ ''/api/v3/depth?symbol='' @ to_upper pair @ ''&limit=100''
      in case new_request E ''GET'' u None of
           Inl err \<Rightarrow> (Inl err, w)
         | Inr req \<Rightarrow>
             (case http_do E req w of
                (Inl err, w1) \<Rightarrow> (Inl err, w1)
              | (Inr resp, w1) \<Rightarrow>
                  (case hr_body resp of
                     Inl err \<Rightarrow> (Inl err, w1)
                   | Inr body \<Rightarrow>
                       if hr_status resp \<ge> 400 then
                         (Inl (ErrMsg (''snapshot status '' @ format_int (hr_status resp))), w1)
                       else
                         (case unmarshal_or (ne_json E) (decode_struct snapshot_fields) depth_data_zero body of
                            Inl err \<Rightarrow> (Inl err, w1)
                          | Inr sn \<Rightarrow>
                              (case time_now E w1 of (now, w2) \<Rightarrow>
                                 (Inr (ApplySnapshot now (dd_Bids sn) (dd_Asks sn) r), w2))))))"

definition put_recon :: "string \<Rightarrow> book_recon \<Rightarrow> 'd book_sub \<Rightarrow> 'd book_sub" where
  "put_recon k r sb = sb\<lparr>sb_recons := AList.update k r (sb_recons sb)\<rparr>"

definition Binance_handler ::
  "'d net_env \<Rightarrow> (level list \<Rightarrow> level list) \<Rightarrow> string \<Rightarrow> string \<Rightarrow> 'd book_sub \<Rightarrow> net_world \<Rightarrow>
   'd book_sub \<times> net_world"
where
  "Binance_handler E ord restBase msg sb w0 =
     (case unmarshal_or (ne_json E) (decode_struct depth_event_fields)
             \<lparr>de_Stream = '''', de_Data = depth_data_zero\<rparr> msg of
        Inl _ \<Rightarrow> (sb, w0)
      | Inr ev \<Rightarrow>
          (let pair = streamToPair (de_Stream ev); key = to_lower pair in
           case map_of (sb_recons sb) key of
             None \<Rightarrow> (sb, w0)
           | Some r \<Rightarrow>
               (case time_now E w0 of (now, w1) \<Rightarrow>
                case ApplyDiff now (dd_LastUpdateID (de_Data ev)) (dd_Bids (de_Data ev)) (dd_Asks (de_Data ev)) r of
                  (r1, ok2, gap) \<Rightarrow>
                    if gap then
                      (case MarkGap r1 of (r2, _) \<Rightarrow>
                       let sb2 = (put_recon key r2 sb)\<lparr>sb_gap_count := sb_gap_count sb + 1\<rparr> in
                       case refreshSnapshot E restBase pair r2 w1 of
                         (Inl _, w2) \<Rightarrow> (sb2, w2)
                       | (Inr r3, w2) \<Rightarrow>
                           ((put_recon key r3 sb2)\<lparr>sb_gap_count := sb_gap_count sb2 + 1\<rparr>, w2))
                    else if \<not> ok2 then (put_recon key r1 sb, w1)
                    else emitUpdate E ord r1 pair (to_upper pair) (put_recon key r1 sb) w1)))"

text \<open>The part of \<open>SubscribeBook\<close> before the goroutines: the URL and the reconstructors.\<close>

definition Binance_SubscribeBook :: "string \<Rightarrow> string list \<Rightarrow> go_error + (string \<times> 'd book_sub)" where
  "Binance_SubscribeBook wsBase pairs =
     (if length pairs = 0 then Inl (ErrMsg ''binance: no pairs'')
      else Inr (wsBase @ ''/'' @ join_with ''/'' (map (\<lambda>p. to_lower p @ ''@depth'') pairs),
                \<lparr>sb_recons = fold (\<lambda>p. AList.update (to_lower p) (NewBookReconstructor ''binance'' p)) pairs [],
                 sb_out = [], sb_gap_count = 0, sb_lag = []\<rparr>))"

text \<open>The goroutine's loop over the pairs, before \<open>Run\<close>.\<close>

fun Binance_prime ::
  "'d net_env \<Rightarrow> (level list \<Rightarrow> level list) \<Rightarrow> string \<Rightarrow> string list \<Rightarrow> 'd book_sub \<Rightarrow> net_world \<Rightarrow>
   'd book_sub \<times> net_world"
where
  "Binance_prime E ord restBase [] sb w = (sb, w)"
| "Binance_prime E ord restBase (p # ps) sb w =
     (case map_of (sb_recons sb) (to_lower p) of
        None \<Rightarrow> Binance_prime E ord restBase ps sb w
      | Some r \<Rightarrow>
          (case refreshSnapshot E restBase p r w of
             (Inl _, w1) \<Rightarrow> Binance_prime E ord restBase ps sb w1
           | (Inr r1, w1) \<Rightarrow>
               (case emitUpdate E ord r1 p (to_upper p) (put_recon (to_lower p) r1 sb) w1 of
                  (sb2, w2) \<Rightarrow> Binance_prime E ord restBase ps sb2 w2)))"

subsection \<open>Kraken\<close>

text \<open>\<open>recons\<close> and \<open>intToPair\<close>: the channel number of a pair is its last position, from 1.\<close>

definition channel_numbers :: "string list \<Rightarrow> (string, int64) gomap" where
  "channel_numbers pairs = fold (\<lambda>(i, p). AList.update p (int i + 1)) (enumerate 0 pairs) []"

definition channel_pairs :: "string list \<Rightarrow> int64 \<rightharpoonup> string" where
  "channel_pairs pairs = map_of (map (\<lambda>(p, i). (i, p)) (channel_numbers pairs))"

definition Kraken_SubscribeBook :: "string list \<Rightarrow> go_error + 'd book_sub" where
  "Kraken_SubscribeBook pairs =
     (if length pairs = 0 then Inl (ErrMsg ''kraken: no pairs'')
      else Inr \<lparr>sb_recons = fold (\<lambda>p. AList.update p (NewBookReconstructor ''kraken'' p)) pairs [],
                sb_out = [], sb_gap_count = 0, sb_lag = []\<rparr>)"

text \<open>A side of the message whose decoding error is ignored.\<close>

definition raw_levels :: "json \<Rightarrow> level list" where
  "raw_levels j = fst (decode_levels j [])"

definition Kraken_apply :: "'d net_env \<Rightarrow> level list \<Rightarrow> level list \<Rightarrow> book_recon \<Rightarrow> net_world \<Rightarrow> book_recon \<times> net_world" where
  "Kraken_apply E bidsRaw asksRaw r w0 =
     (if length bidsRaw > 0 \<and> length asksRaw > 0 then
        (case time_now E w0 of (now, w1) \<Rightarrow> (ApplySnapshot now bidsRaw asksRaw r, w1))
      else if length bidsRaw > 0 then
        (case time_now E w0 of (t, w1) \<Rightarrow>
         case time_now E w1 of (now, w2) \<Rightarrow> (fst (ApplyDiff now (UnixNano t) bidsRaw [] r), w2))
      else if length asksRaw > 0 then
        (case time_now E w0 of (t, w1) \<Rightarrow>
         case time_now E w1 of (now, w2) \<Rightarrow> (fst (ApplyDiff now (UnixNano t) [] asksRaw r), w2))
      else (r, w0))"

definition Kraken_emitUpdate ::
  "'d net_env \<Rightarrow> (level list \<Rightarrow> level list) \<Rightarrow> book_recon \<Rightarrow> string \<Rightarrow> 'd book_sub \<Rightarrow> net_world \<Rightarrow> 'd book_sub \<times> net_world"
where
  "Kraken_emitUpdate E ord r pair sb w = emitUpdate E ord r pair pair sb w"

definition Kraken_handler ::
  "'d net_env \<Rightarrow> (level list \<Rightarrow> level list) \<Rightarrow> (int64 \<rightharpoonup> string) \<Rightarrow> string \<Rightarrow> 'd book_sub \<Rightarrow> net_world \<Rightarrow>
   'd book_sub \<times> net_world"
where
  "Kraken_handler E ord intToPair msg sb w0 =
     (case ne_json E msg of
        Some (JArr arr) \<Rightarrow>
          if length arr < 4 then (sb, w0)
          else
            (case decode_int64 (arr ! 0) 0 of
               (_, True) \<Rightarrow> (sb, w0)
             | (channelID, False) \<Rightarrow>
                 (case intToPair channelID of
                    None \<Rightarrow> (sb, w0)
                  | Some pair \<Rightarrow>
                      (case map_of (sb_recons sb) pair of
                         None \<Rightarrow> (sb, w0)
                       | Some r \<Rightarrow>
                           (case Kraken_apply E (raw_levels (arr ! 1)) (raw_levels (arr ! 2)) r w0 of
                              (r1, w1) \<Rightarrow> Kraken_emitUpdate E ord r1 pair (put_recon pair r1 sb) w1))))
      | _ \<Rightarrow> (sb, w0))"

section \<open>Lemmas\<close>

lemma emitUpdate_frame:
  assumes "emitUpdate E ord r pair shown sb w = (sb', w')"
  shows "sb_recons sb' = sb_recons sb \<and> sb_gap_count sb' = sb_gap_count sb \<and> nw_reads w \<le> nw_reads w' \<and>
    nw_sent w' = nw_sent w \<and> (sb_out sb' = sb_out sb \<or> (\<exists>u. sb_out sb' = sb_out sb @ [u] \<and> length (sb_out sb) < 64))"
  using assms by (auto simp: emitUpdate_def time_now_def Let_def split: option.splits if_splits)

lemma put_recon_simps [simp]:
  "map_of (sb_recons (put_recon k r sb)) = (map_of (sb_recons sb))(k \<mapsto> r)"
  "sb_out (put_recon k r sb) = sb_out sb" "sb_gap_count (put_recon k r sb) = sb_gap_count sb"
  by (simp_all add: put_recon_def)

text \<open>The snapshot \<open>sn\<close> is what the exchange answered to the \<open>n\<close>-th request, a \<open>GET\<close> of \<open>u\<close>.\<close>

definition snapshot_answered :: "'d net_env \<Rightarrow> nat \<Rightarrow> string \<Rightarrow> depth_data \<Rightarrow> bool" where
  "snapshot_answered E n u sn \<longleftrightarrow> (\<exists>req resp body. hq_method req = ''GET'' \<and> hq_url req = u \<and>
     ne_resp E n req = Inr resp \<and> hr_body resp = Inr body \<and> hr_status resp < 400 \<and>
     unmarshal_or (ne_json E) (decode_struct snapshot_fields) depth_data_zero body = Inr sn)"

abbreviation depth_url :: "string \<Rightarrow> string \<Rightarrow> string" where
  "depth_url restBase pair \<equiv> restBase @ ''/api/v3/depth?symbol='' @ to_upper pair @ ''&limit=100''"

lemma refreshSnapshot_ok:
  assumes "refreshSnapshot E restBase pair r w = (Inr r', w')"
  shows "\<exists>now sn. snapshot_answered E (length (nw_sent w)) (depth_url restBase pair) sn \<and>
    r' = ApplySnapshot now (dd_Bids sn) (dd_Asks sn) r"
  using assms
  by (force simp: refreshSnapshot_def snapshot_answered_def new_request_def http_do_def Let_def not_le
      split: sum.splits if_splits prod.splits option.splits)

subsection \<open>Kraken\<close>

lemma Kraken_apply_reads: "Kraken_apply E b a r w = (r', w') \<Longrightarrow> nw_reads w \<le> nw_reads w'"
  by (auto simp: Kraken_apply_def time_now_def split: if_splits)

text \<open>With the sequence number set and a clock that has moved on, only a snapshot has an effect.\<close>

lemma Kraken_apply_frozen:
  assumes "Kraken_apply E b a r w = (r', w')" "br_lastSeq r \<noteq> 0" "br_lastSeq r < max_int64" "in_int64 (br_lastSeq r)"
    "\<forall>i. nw_reads w \<le> i \<longrightarrow> i < nw_reads w' \<longrightarrow> br_lastSeq r + 1 < UnixNano (ne_now E i)"
  shows "if b \<noteq> [] \<and> a \<noteq> [] then \<exists>now. r' = ApplySnapshot now b a r else r' = r"
proof (cases "b \<noteq> [] \<and> a \<noteq> []")
  case True
  then show ?thesis using assms(1) by (auto simp: Kraken_apply_def time_now_def)
next
  case False
  have gap: "fst (ApplyDiff t seq x y r) = r" if "br_lastSeq r + 1 < seq" for t seq x y
    using that assms(2-4) by (simp add: ApplyDiff_def in_int64_def)
  show ?thesis
  proof (cases "b = [] \<and> a = []")
    case True
    then show ?thesis using assms(1) by (simp add: Kraken_apply_def)
  next
    case one: False
    have "nw_reads w' = nw_reads w + 2"
      using False one assms(1) by (auto simp: Kraken_apply_def time_now_def split: if_splits)
    then have "br_lastSeq r + 1 < UnixNano (ne_now E (nw_reads w))" using assms(5) by simp
    then show ?thesis
      using False one assms(1) gap by (auto simp: Kraken_apply_def time_now_def split: if_splits)
  qed
qed

text \<open>The two sides that a message carries for a pair, if it is channel data for it with both sides.\<close>

definition two_sided :: "'d net_env \<Rightarrow> (int64 \<rightharpoonup> string) \<Rightarrow> string \<Rightarrow> string \<Rightarrow> (level list \<times> level list) option" where
  "two_sided E chans pair msg =
     (case ne_json E msg of
        Some (JArr arr) \<Rightarrow>
          if 4 \<le> length arr \<and> (\<exists>ch. decode_int64 (arr ! 0) 0 = (ch, False) \<and> chans ch = Some pair) \<and>
             raw_levels (arr ! 1) \<noteq> [] \<and> raw_levels (arr ! 2) \<noteq> []
          then Some (raw_levels (arr ! 1), raw_levels (arr ! 2)) else None
      | _ \<Rightarrow> None)"

text \<open>What one message can do to the reconstructor of a pair.\<close>

lemma Kraken_handler_recon:
  assumes "Kraken_handler E ord chans msg sb w = (sb', w')" "map_of (sb_recons sb) pair = Some r"
  shows "two_sided E chans pair msg = None \<and> map_of (sb_recons sb') pair = Some r \<or>
    (\<exists>b a r1 w1. two_sided E chans pair msg = (if b \<noteq> [] \<and> a \<noteq> [] then Some (b, a) else None) \<and>
      Kraken_apply E b a r w = (r1, w1) \<and> nw_reads w1 \<le> nw_reads w' \<and> map_of (sb_recons sb') pair = Some r1)"
proof -
  consider (other) "\<And>arr ch. ne_json E msg = Some (JArr arr) \<Longrightarrow> 4 \<le> length arr \<Longrightarrow> decode_int64 (arr ! 0) 0 = (ch, False) \<Longrightarrow> chans ch \<noteq> Some pair"
    | (hit) arr ch where "ne_json E msg = Some (JArr arr)" "4 \<le> length arr" "decode_int64 (arr ! 0) 0 = (ch, False)" "chans ch = Some pair"
    by blast
  then show ?thesis
  proof cases
    case other
    then have "two_sided E chans pair msg = None" by (auto simp: two_sided_def split: option.split json.split)
    moreover have "map_of (sb_recons sb') pair = Some r"
      using assms other
      by (auto simp: Kraken_handler_def Kraken_emitUpdate_def put_recon_def split: option.splits json.splits if_splits prod.splits bool.splits
          dest!: emitUpdate_frame)
    ultimately show ?thesis by simp
  next
    case hit
    let ?b = "raw_levels (arr ! 1)" and ?a = "raw_levels (arr ! 2)"
    obtain r1 w1 where k: "Kraken_apply E ?b ?a r w = (r1, w1)" by (cases "Kraken_apply E ?b ?a r w")
    have "emitUpdate E ord r1 pair pair (put_recon pair r1 sb) w1 = (sb', w')"
      using assms hit k by (simp add: Kraken_handler_def Kraken_emitUpdate_def)
    from emitUpdate_frame [OF this] have "map_of (sb_recons sb') pair = Some r1" "nw_reads w1 \<le> nw_reads w'" by simp_all
    moreover have "two_sided E chans pair msg = (if ?b \<noteq> [] \<and> ?a \<noteq> [] then Some (?b, ?a) else None)"
      using hit by (simp add: two_sided_def)
    ultimately show ?thesis using k by blast
  qed
qed

lemma Kraken_handler_reads: "Kraken_handler E ord chans msg sb w = (sb', w') \<Longrightarrow> nw_reads w \<le> nw_reads w'"
  by (auto simp: Kraken_handler_def Kraken_emitUpdate_def split: option.splits json.splits if_splits prod.splits bool.splits
      dest!: Kraken_apply_reads emitUpdate_frame intro: order_trans)

fun Kraken_run ::
  "'d net_env \<Rightarrow> (level list \<Rightarrow> level list) \<Rightarrow> (int64 \<rightharpoonup> string) \<Rightarrow> string list \<Rightarrow> 'd book_sub \<Rightarrow> net_world \<Rightarrow>
   'd book_sub \<times> net_world"
where
  "Kraken_run E ord chans [] sb w = (sb, w)"
| "Kraken_run E ord chans (m # ms) sb w =
     (case Kraken_handler E ord chans m sb w of (sb1, w1) \<Rightarrow> Kraken_run E ord chans ms sb1 w1)"

lemma Kraken_run_reads: "Kraken_run E ord chans ms sb w = (sb', w') \<Longrightarrow> nw_reads w \<le> nw_reads w'"
  by (induction ms arbitrary: sb w) (auto split: prod.splits dest!: Kraken_handler_reads intro: order_trans)

lemma ApplySnapshot_twice [simp]: "ApplySnapshot t b a (ApplySnapshot t' b' a' r) = ApplySnapshot t b a r"
  by (simp add: ApplySnapshot_def)

lemma ApplySnapshot_lastSeq [simp]: "br_lastSeq (ApplySnapshot t b a r) = br_lastSeq r"
  by (simp add: ApplySnapshot_def)

section \<open>Properties\<close>

text \<open>
  C35: the Kraken book stops following its stream. Once a one-sided message has set the sequence
  number of a pair to the clock in nanoseconds, and as long as every later reading of the clock
  is at least two nanoseconds after it, no one-sided message has any effect on that book. After
  any messages the reconstructor of the pair is exactly what it was, if none of them carried
  both sides for the pair; otherwise it is what it was with the two sides of the last such
  message in place of its own.
\<close>

theorem kraken_book_frozen:
  assumes "Kraken_run E ord chans msgs sb w = (sb', w')" "map_of (sb_recons sb) pair = Some r"
    and "br_lastSeq r \<noteq> 0" "in_int64 (br_lastSeq r)" "br_lastSeq r < max_int64"
    and "\<forall>i. nw_reads w \<le> i \<longrightarrow> i < nw_reads w' \<longrightarrow> br_lastSeq r + 1 < UnixNano (ne_now E i)"
  shows "\<exists>r'. map_of (sb_recons sb') pair = Some r' \<and>
    (case rev (List.map_filter (two_sided E chans pair) msgs) of
       [] \<Rightarrow> r' = r
     | (b, a) # _ \<Rightarrow> \<exists>now. r' = ApplySnapshot now b a r)"
  using assms
proof (induction msgs arbitrary: sb w r)
  case (Cons m msgs)
  let ?two = "two_sided E chans pair" and ?snaps = "rev (List.map_filter (two_sided E chans pair) msgs)"
  obtain sb1 w1 where 1: "Kraken_handler E ord chans m sb w = (sb1, w1)" by (cases "Kraken_handler E ord chans m sb w")
  have 2: "Kraken_run E ord chans msgs sb1 w1 = (sb', w')" using Cons.prems(1) 1 by simp
  note le = Kraken_handler_reads [OF 1] Kraken_run_reads [OF 2]
  obtain r1 where r1: "map_of (sb_recons sb1) pair = Some r1"
    "case ?two m of None \<Rightarrow> r1 = r | Some (b, a) \<Rightarrow> \<exists>now. r1 = ApplySnapshot now b a r"
    using Kraken_handler_recon [OF 1 Cons.prems(2)]
  proof (elim disjE exE conjE)
    fix b a r1 w2
    assume k: "?two m = (if b \<noteq> [] \<and> a \<noteq> [] then Some (b, a) else None)" "Kraken_apply E b a r w = (r1, w2)"
      "nw_reads w2 \<le> nw_reads w1" "map_of (sb_recons sb1) pair = Some r1"
    from Kraken_apply_frozen [OF k(2) Cons.prems(3,5,4)] Cons.prems(6) k(3) le
    have "if b \<noteq> [] \<and> a \<noteq> [] then \<exists>now. r1 = ApplySnapshot now b a r else r1 = r" by auto
    then show thesis using that k(1,4) by (auto split: if_splits)
  qed (use that in simp)
  have seq: "br_lastSeq r1 = br_lastSeq r" using r1(2) by (auto split: option.splits)
  obtain r' where r': "map_of (sb_recons sb') pair = Some r'"
    "case ?snaps of [] \<Rightarrow> r' = r1 | (b, a) # _ \<Rightarrow> \<exists>now. r' = ApplySnapshot now b a r1"
    using Cons.IH [OF 2 r1(1)] Cons.prems(3-6) seq le by auto
  have "\<exists>now. r' = ApplySnapshot now b a r" if "?snaps = (b, a) # rest" for b a rest
    using r'(2) r1(2) that by (auto split: option.splits)
  then have "case rev (List.map_filter ?two (m # msgs)) of [] \<Rightarrow> r' = r | (b, a) # _ \<Rightarrow> \<exists>now. r' = ApplySnapshot now b a r"
    using r'(2) r1(2) by (cases ?snaps) (auto simp: map_filter_simps split: option.splits)
  then show ?case using r'(1) by blast
qed (simp add: map_filter_simps)

definition frozen_book :: book_recon where
  "frozen_book = (NewBookReconstructor ''kraken'' ''XBT/USD'')\<lparr>br_lastSeq := 5, br_bids := [(''9'', ''1'')]\<rparr>"

definition kraken_env :: "int net_env" where
  "kraken_env = (sample_env (\<lambda>n r. Inl ErrJson)
     (\<lambda>s. Some (JArr [JNum ''1'', JArr [JArr [JStr ''9'', JStr ''2'']], JArr [], JStr ''book''])))
       \<lparr>ne_now := \<lambda>n. unix_epoch + 10 + int n\<rparr>"

text \<open>A new size for the bid at 9 is not applied: the reconstructor is the same.\<close>

theorem kraken_book_frozen_witness:
  "\<exists>sb' w'. Kraken_run kraken_env (\<lambda>m. m) (channel_pairs [''XBT/USD'']) [''m'']
       \<lparr>sb_recons = [(''XBT/USD'', frozen_book)], sb_out = [], sb_gap_count = 0, sb_lag = []\<rparr> world0 = (sb', w') \<and>
     map_of (sb_recons sb') ''XBT/USD'' = Some frozen_book"
proof -
  let ?sb = "\<lparr>sb_recons = [(''XBT/USD'', frozen_book)], sb_out = [], sb_gap_count = 0, sb_lag = []\<rparr>"
  obtain sb' w' where 1: "Kraken_run kraken_env (\<lambda>m. m) (channel_pairs [''XBT/USD'']) [''m''] ?sb world0 = (sb', w')"
    by (cases "Kraken_run kraken_env (\<lambda>m. m) (channel_pairs [''XBT/USD'']) [''m''] ?sb world0")
  have r: "map_of (sb_recons ?sb) ''XBT/USD'' = Some frozen_book" "br_lastSeq frozen_book = 5"
    by (simp_all add: frozen_book_def)
  have late: "5 + 1 < UnixNano (ne_now kraken_env i)" if "i < 1000" for i
    using that by (simp add: kraken_env_def UnixNano_def in_int64_def)
  have "nw_reads w' < 1000"
    using 1 by (auto simp: Kraken_handler_def Kraken_emitUpdate_def kraken_env_def decode_int64_def parse_int64_def parse_nat_def digit_val_def char_code_def
        in_int64_def Kraken_apply_def raw_levels_def decode_slice_def decode_pair_def decode_string_def emitUpdate_def
        time_now_def world0_def Let_def split: option.splits if_splits)
  moreover have "two_sided kraken_env (channel_pairs [''XBT/USD'']) ''XBT/USD'' ''m'' = None"
    by (simp add: two_sided_def kraken_env_def raw_levels_def decode_slice_def)
  ultimately show ?thesis
    using late kraken_book_frozen [OF 1 r(1)] 1 r(2) by (auto simp: in_int64_def map_filter_simps)
qed

text \<open>
  C37: a gap in a Binance stream. The message that revealed the gap is not applied, nothing is sent
  to the subscriber, the sequence number of the book is forgotten and a REST snapshot is asked
  for. If it arrives, its two sides replace those of the book, and \<open>ws_gap_count\<close> has grown by two,
  since \<open>MarkGap\<close> counts the gap and the handler counts it again; if it does not, the book keeps its
  stale sides and the count has grown by one.
\<close>

theorem binance_gap_resync:
  assumes "unmarshal_or (ne_json E) (decode_struct depth_event_fields) \<lparr>de_Stream = '''', de_Data = depth_data_zero\<rparr> msg = Inr ev"
    and "map_of (sb_recons sb) (to_lower (streamToPair (de_Stream ev))) = Some r"
    and "br_lastSeq r \<noteq> 0" "in_int64 (br_lastSeq r)" "br_lastSeq r + 1 < dd_LastUpdateID (de_Data ev)"
      "in_int64 (dd_LastUpdateID (de_Data ev))"
    and "Binance_handler E ord restBase msg sb w = (sb', w')"
  shows "sb_out sb' = sb_out sb \<and>
    (\<exists>r'. map_of (sb_recons sb') = (map_of (sb_recons sb))(to_lower (streamToPair (de_Stream ev)) \<mapsto> r') \<and>
      (r' = r\<lparr>br_lastSeq := 0\<rparr> \<and> sb_gap_count sb' = sb_gap_count sb + 1 \<and>
         (\<exists>e. fst (refreshSnapshot E restBase (streamToPair (de_Stream ev)) (r\<lparr>br_lastSeq := 0\<rparr>) (snd (time_now E w))) = Inl e) \<or>
       (\<exists>now sn. snapshot_answered E (length (nw_sent w)) (depth_url restBase (streamToPair (de_Stream ev))) sn \<and>
         r' = ApplySnapshot now (dd_Bids sn) (dd_Asks sn) (r\<lparr>br_lastSeq := 0\<rparr>) \<and> sb_gap_count sb' = sb_gap_count sb + 2)))"
proof -
  let ?pair = "streamToPair (de_Stream ev)" and ?r0 = "r\<lparr>br_lastSeq := 0\<rparr>"
  have "add64 (br_lastSeq r) 1 = br_lastSeq r + 1" using assms(4-6) by (simp add: in_int64_def)
  then have gap: "ApplyDiff t (dd_LastUpdateID (de_Data ev)) b a r = (r, False, True)" for t b a
    using assms(3,5) by (simp add: ApplyDiff_def)
  obtain res w2 where s: "refreshSnapshot E restBase ?pair ?r0 (snd (time_now E w)) = (res, w2)"
    by (cases "refreshSnapshot E restBase ?pair ?r0 (snd (time_now E w))")
  show ?thesis
  proof (cases res)
    case (Inl e)
    then show ?thesis using assms(1,2,7) gap s
      by (auto simp: Binance_handler_def MarkGap_def time_now_def Let_def fun_upd_def fun_eq_iff intro!: exI [of _ ?r0])
  next
    case (Inr r')
    then have "sb_out sb' = sb_out sb" "sb_gap_count sb' = sb_gap_count sb + 2"
      "map_of (sb_recons sb') = (map_of (sb_recons sb))(to_lower ?pair \<mapsto> r')"
      using assms(1,2,7) gap s by (auto simp: Binance_handler_def MarkGap_def time_now_def Let_def fun_upd_def fun_eq_iff)
    moreover have "length (nw_sent (snd (time_now E w))) = length (nw_sent w)" by (simp add: time_now_def)
    ultimately show ?thesis using refreshSnapshot_ok [OF s [unfolded Inr]] by metis
  qed
qed

definition gap_json :: "string \<Rightarrow> json option" where
  "gap_json s =
     Some (if s = ''m'' then JObj [(''stream'', JStr ''btcusdt@depth''), (''data'', JObj [(''lastUpdateId'', JNum ''9'')])]
           else JObj [(''bids'', JArr [JArr [JStr ''8'', JStr ''1'']])])"

definition gap_env :: "int net_env" where
  "gap_env = sample_env (\<lambda>n r. Inr \<lparr>hr_status = 200, hr_header = \<lambda>k. '''', hr_body = Inr ''s''\<rparr>) gap_json"

definition gap_book :: book_recon where
  "gap_book = (NewBookReconstructor ''binance'' ''BTCUSDT'')\<lparr>br_lastSeq := 5\<rparr>"

lemmas decode_defs = unmarshal_or_def unmarshal_def decode_struct_def find_field_def field_def decode_string_def
  decode_int64_def decode_slice_def decode_pair_def depth_event_fields_def depth_data_fields_def snapshot_fields_def
  depth_data_zero_def

text \<open>Sequence 5, then 9: two counts, and the book of the snapshot.\<close>

theorem binance_gap_resync_witness:
  "\<exists>sb' w'. Binance_handler gap_env (\<lambda>m. m) ''https://x'' ''m''
       \<lparr>sb_recons = [(''btcusdt'', gap_book)], sb_out = [], sb_gap_count = 0, sb_lag = []\<rparr> world0 = (sb', w') \<and>
     sb_gap_count sb' = 2 \<and> map_option br_bids (map_of (sb_recons sb') ''btcusdt'') = Some [(''8'', ''1'')]"
proof -
  let ?sb = "\<lparr>sb_recons = [(''btcusdt'', gap_book)], sb_out = [], sb_gap_count = 0, sb_lag = []\<rparr> :: int book_sub"
  have nine: "parse_int64 ''9'' = Some 9"
    by (simp add: parse_int64_def parse_nat_def digit_val_def char_code_def in_int64_def)
  define ev where "ev = \<lparr>de_Stream = ''btcusdt@depth'', de_Data = \<lparr>dd_LastUpdateID = 9, dd_Bids = [], dd_Asks = []\<rparr>\<rparr>"
  have ev: "unmarshal_or (ne_json gap_env) (decode_struct depth_event_fields) \<lparr>de_Stream = '''', de_Data = depth_data_zero\<rparr> ''m'' = Inr ev"
    using nine by (simp add: gap_env_def gap_json_def decode_defs ev_def)
  have pair: "streamToPair (de_Stream ev) = ''btcusdt''" by (simp add: ev_def streamToPair_def)
  have low: "to_lower ''btcusdt'' = ''btcusdt''" by (simp add: to_lower_def lower_char_def char_code_def)
  have r: "map_of (sb_recons ?sb) (to_lower (streamToPair (de_Stream ev))) = Some gap_book" using pair low by simp
  have n: "br_lastSeq gap_book \<noteq> 0" "in_int64 (br_lastSeq gap_book)" "br_lastSeq gap_book + 1 < dd_LastUpdateID (de_Data ev)"
    "in_int64 (dd_LastUpdateID (de_Data ev))"
    by (simp_all add: gap_book_def ev_def in_int64_def)
  obtain sb' w' where h: "Binance_handler gap_env (\<lambda>m. m) ''https://x'' ''m'' ?sb world0 = (sb', w')"
    by (cases "Binance_handler gap_env (\<lambda>m. m) ''https://x'' ''m'' ?sb world0")
  have ok: "fst (refreshSnapshot gap_env ''https://x'' ''btcusdt'' (gap_book\<lparr>br_lastSeq := 0\<rparr>) (snd (time_now gap_env world0))) \<noteq> Inl e" for e
    by (simp add: refreshSnapshot_def gap_env_def new_request_def http_do_def gap_json_def decode_defs time_now_def Let_def)
  have sn: "dd_Bids sn = [(''8'', ''1'')]" if "snapshot_answered gap_env k u sn" for k u sn
    using that by (auto simp: snapshot_answered_def gap_env_def gap_json_def decode_defs)
  from binance_gap_resync [OF ev r n h] ok have "sb_gap_count sb' = 2"
    "map_option br_bids (map_of (sb_recons sb') ''btcusdt'') = Some [(''8'', ''1'')]"
    unfolding pair low by (auto dest!: sn simp: ApplySnapshot_def)
  then show ?thesis using h by blast
qed

end
