(* ===== verification/Http_Server.thy ===== *)
theory Http_Server
  imports Binance_Rest Kraken_Rest Otc_Rest Book_Agg Order_Store Audit_Log Event_Bus
begin

text \<open>
  The HTTP service of \<open>internal/server/server.go\<close>: the handlers, over any of the four connectors.

  The \<open>VenueConnector\<close> interface is the datatype \<open>connector\<close> with one operation per method that
  dispatches on it. The handlers ignore the results of the store, of the audit sink and of the
  event bus, so what they ask of them is an ordered list of effects; \<open>apply_store\<close> and
  \<open>apply_audit\<close> perform the effects on the in-memory store and sink. A request is its method, path, \<open>limit\<close>
  query parameter and body; an answer is the status and the value that is encoded.
\<close>

section \<open>Definitions\<close>

subsection \<open>Connectors\<close>

datatype 'd connector =
    CDummy "'d dummy_venue"
  | CBinance binance_conn
  | CKraken kraken_conn
  | COtc "'d otc_conn"

definition is_dummy :: "'d connector \<Rightarrow> bool" where
  "is_dummy c = (case c of CDummy _ \<Rightarrow> True | _ \<Rightarrow> False)"

definition with_conn :: "('c \<Rightarrow> 'd connector) \<Rightarrow> 'a \<times> 'c \<times> net_world \<Rightarrow> 'a \<times> 'd connector \<times> net_world" where
  "with_conn f = (\<lambda>(res, c, w). (res, f c, w))"

text \<open>
  What the handlers need besides the network: the two UUIDs a dummy order may draw, the orders
  in which \<open>range\<close> visits maps, and the first JSON value of a request body.
\<close>

record 'd server_env =
  se_net :: "'d net_env"
  se_uuid1 :: string
  se_uuid2 :: string
  se_trade_order :: "(string \<times> trade_entry) list \<Rightarrow> (string \<times> trade_entry) list"
  se_asset_order :: "(string \<times> 'd balance) list \<Rightarrow> (string \<times> 'd balance) list"
  se_first_json :: "string \<Rightarrow> json option"

fun conn_PlaceOrder ::
  "'d server_env \<Rightarrow> 'd order_request \<Rightarrow> 'd connector \<Rightarrow> net_world \<Rightarrow> (go_error + 'd order_response) \<times> 'd connector \<times> net_world"
where
  "conn_PlaceOrder S req (CDummy d) w =
     (case time_now (se_net S) w of (now, w1) \<Rightarrow>
      case Dummy_PlaceOrder (ne_dec (se_net S)) (se_uuid1 S) (se_uuid2 S) now req d of
        (d', a) \<Rightarrow> (Inr (dv_heap d' ! a), CDummy d', w1))"
| "conn_PlaceOrder S req (CBinance c) w = with_conn CBinance (Binance_PlaceOrder (se_net S) req c w)"
| "conn_PlaceOrder S req (CKraken c) w = with_conn CKraken (Kraken_PlaceOrder (se_net S) req c w)"
| "conn_PlaceOrder S req (COtc c) w = with_conn COtc (Otc_PlaceOrder (se_net S) req c w)"

fun conn_CancelOrder ::
  "'d server_env \<Rightarrow> cancel_request \<Rightarrow> 'd connector \<Rightarrow> net_world \<Rightarrow> go_error option \<times> 'd connector \<times> net_world"
where
  "conn_CancelOrder S req (CDummy d) w = (case Dummy_CancelOrder req d of (d', err) \<Rightarrow> (err, CDummy d', w))"
| "conn_CancelOrder S req (CBinance c) w = with_conn CBinance (Binance_CancelOrder (se_net S) req c w)"
| "conn_CancelOrder S req (CKraken c) w = with_conn CKraken (Kraken_CancelOrder (se_net S) req c w)"
| "conn_CancelOrder S req (COtc c) w = with_conn COtc (Otc_CancelOrder (se_net S) req c w)"

fun conn_GetOrder ::
  "'d server_env \<Rightarrow> string \<Rightarrow> 'd connector \<Rightarrow> net_world \<Rightarrow> (go_error + 'd order_response) \<times> 'd connector \<times> net_world"
where
  "conn_GetOrder S oid (CDummy d) w = (Dummy_GetOrder oid d, CDummy d, w)"
| "conn_GetOrder S oid (CBinance c) w = with_conn CBinance (Binance_GetOrder (se_net S) oid c w)"
| "conn_GetOrder S oid (CKraken c) w = with_conn CKraken (Kraken_GetOrder (se_net S) oid c w)"
| "conn_GetOrder S oid (COtc c) w = with_conn COtc (Otc_GetOrder (se_net S) oid c w)"

fun conn_GetFills ::
  "'d server_env \<Rightarrow> fill_query \<Rightarrow> 'd connector \<Rightarrow> net_world \<Rightarrow> (go_error + 'd fill list) \<times> 'd connector \<times> net_world"
where
  "conn_GetFills S q (CDummy d) w = (Inr (Dummy_GetFills q d), CDummy d, w)"
| "conn_GetFills S q (CBinance c) w = with_conn CBinance (Binance_GetFills (se_net S) q c w)"
| "conn_GetFills S q (CKraken c) w = with_conn CKraken (Kraken_GetFills (se_net S) (se_trade_order S) q c w)"
| "conn_GetFills S q (COtc c) w = with_conn COtc (Otc_GetFills (se_net S) q c w)"

fun conn_GetBalances ::
  "'d server_env \<Rightarrow> 'd connector \<Rightarrow> net_world \<Rightarrow> (go_error + 'd balances) \<times> 'd connector \<times> net_world"
where
  "conn_GetBalances S (CDummy d) w = (Inr (Dummy_GetBalances (ne_dec (se_net S))), CDummy d, w)"
| "conn_GetBalances S (CBinance c) w = with_conn CBinance (Binance_GetBalances (se_net S) c w)"
| "conn_GetBalances S (CKraken c) w = with_conn CKraken (Kraken_GetBalances (se_net S) c w)"
| "conn_GetBalances S (COtc c) w = with_conn COtc (Otc_GetBalances (se_net S) c w)"

subsection \<open>Service\<close>

record 'd service =
  sv_connector :: "'d connector"
  sv_book :: book_aggregator
  sv_audit :: bool           \<comment> \<open>the sink is not nil\<close>
  sv_events :: bool          \<comment> \<open>the bus is not nil\<close>
  sv_venueName :: string
  sv_ready :: bool
  sv_store :: bool           \<comment> \<open>the store is not nil; \<open>NewService\<close> makes one\<close>

text \<open>\<open>NewService\<close>: the subscription either fails or gives the channel the aggregator reads.\<close>

definition NewService ::
  "'d connector \<Rightarrow> bool \<Rightarrow> string \<Rightarrow> bool \<Rightarrow> go_error + 'ch \<Rightarrow> go_error + ('d service \<times> 'ch)"
where
  "NewService conn sink venueName bus subscribe =
     (case NewBookAggregator subscribe of
        Inl err \<Rightarrow> Inl err
      | Inr (agg, ch) \<Rightarrow>
          Inr (\<lparr>sv_connector = conn, sv_book = agg, sv_audit = sink, sv_events = bus, sv_venueName = venueName,
                sv_ready = True, sv_store = True\<rparr>, ch))"

datatype 'd effect =
    EOrder "'d store_order"
  | EFill "'d store_fill"
  | EAudit "'d audit_event"
  | EPublishFill "'d fill_event"
  | EPublishBalance "'d balance_event"

record 'd order_body =
  ob_VenueOrderID :: string
  ob_ClientOrderID :: string
  ob_Status :: string
  ob_FilledQty :: 'd
  ob_AvgPrice :: 'd
  ob_Fills :: "'d fill list"
  ob_Venue :: string
  ob_Pair :: string

datatype 'd body =
    BError string
  | BStatus string
  | BAdmin string "'d fill option"
  | BOrder "'d order_body"
  | BCanceled string
  | BFills string "'d fill list"
  | BVenueOrder "'d order_response"
  | BBalances "'d balances"
  | BTop top_of_book

type_synonym 'd answer = "int64 \<times> 'd body"

record request =
  hr_method :: string
  hr_path :: string
  hr_limit :: string
  hr_payload :: string

type_synonym 'd handled = "'d answer \<times> 'd effect list \<times> 'd service \<times> net_world"

definition handleHealthz :: "'d service \<Rightarrow> net_world \<Rightarrow> 'd handled" where
  "handleHealthz s w = ((200, BStatus ''ok''), [], s, w)"

definition handleReadyz :: "'d service \<Rightarrow> net_world \<Rightarrow> 'd handled" where
  "handleReadyz s w = ((if sv_ready s then (200, BStatus ''ready'') else (503, BError ''not ready'')), [], s, w)"

text \<open>The other fields of \<open>adminStatus\<close> are constants: breaker \<open>closed\<close>, headroom \<open>unlimited\<close>.\<close>

definition handleAdminStatus :: "'d service \<Rightarrow> net_world \<Rightarrow> 'd handled" where
  "handleAdminStatus s w =
     ((200, BAdmin (sv_venueName s)
              (case sv_connector s of CDummy d \<Rightarrow> Dummy_LastFill d | _ \<Rightarrow> None)), [], s, w)"

definition handleRotateCreds :: "'d server_env \<Rightarrow> 'd service \<Rightarrow> net_world \<Rightarrow> 'd handled" where
  "handleRotateCreds S s w =
     ((200, BStatus ''rotated''),
      if sv_audit s then [EAudit (blank_event (ne_dec (se_net S)) EventCredRotation (sv_venueName s))] else [], s, w)"

subsection \<open>Placing an order\<close>

record order_req =
  oq_Venue :: string
  oq_Pair :: string
  oq_Side :: string
  oq_Type :: string
  oq_Amount :: string
  oq_Price :: string

definition order_req_zero :: order_req where
  "order_req_zero =
     \<lparr>oq_Venue = '''', oq_Pair = '''', oq_Side = '''', oq_Type = '''', oq_Amount = '''', oq_Price = ''''\<rparr>"

definition order_req_fields :: "order_req field list" where
  "order_req_fields =
     [field ''venue'' oq_Venue oq_Venue_update decode_string, field ''pair'' oq_Pair oq_Pair_update decode_string,
      field ''side'' oq_Side oq_Side_update decode_string, field ''type'' oq_Type oq_Type_update decode_string,
      field ''amount'' oq_Amount oq_Amount_update decode_string, field ''price'' oq_Price oq_Price_update decode_string]"

text \<open>Lines 144--177: the checks, up to the request that goes to the connector.\<close>

definition parse_order ::
  "'d server_env \<Rightarrow> request \<Rightarrow> 'd answer + (order_req \<times> 'd \<times> 'd \<times> 'd order_request)"
where
  "parse_order S r =
     (let D = ne_dec (se_net S) in
      if hr_method r \<noteq> ''POST'' then Inl (405, BError ''method not allowed'')
      else
        (case unmarshal_or (se_first_json S) (decode_struct order_req_fields) order_req_zero (hr_payload r) of
           Inl err \<Rightarrow> Inl (400, BError (''invalid json: '' @ err_msg err))
         | Inr req \<Rightarrow>
             if oq_Venue req = '''' \<or> oq_Pair req = '''' \<or> oq_Side req = '''' \<or> oq_Type req = '''' \<or> oq_Amount req = ''''
             then Inl (400, BError ''missing or invalid fields'')
             else
               (case dec_of_string D (oq_Amount req) of
                  (amount, err) \<Rightarrow>
                    if err \<noteq> None \<or> dec_le D amount (dec_zero D) then Inl (400, BError ''invalid amount'')
                    else
                      (case (if oq_Price req \<noteq> '''' then dec_of_string D (oq_Price req) else (dec_nil D, None)) of
                         (price, Some _) \<Rightarrow> Inl (400, BError ''invalid price'')
                       | (price, None) \<Rightarrow>
                           Inr (req, amount, price,
                                \<lparr>rq_ClientOrderID = '''', rq_Symbol = oq_Pair req, rq_Side = oq_Side req,
                                 rq_Type = oq_Type req, rq_Quantity = amount, rq_Price = price\<rparr>)))))"

definition order_record ::
  "string \<Rightarrow> order_req \<Rightarrow> 'd \<Rightarrow> 'd \<Rightarrow> 'd order_response \<Rightarrow> 'd store_order"
where
  "order_record venueName req amount price resp =
     \<lparr>so_VenueOrderID = or_VenueOrderID resp, so_ClientOrderID = or_ClientOrderID resp, so_Venue = venueName,
      so_Pair = oq_Pair req, so_Side = oq_Side req, so_OrderType = oq_Type req, so_Status = or_Status resp,
      so_FilledQty = or_FilledQty resp, so_AvgPrice = or_AvgPrice resp, so_Quantity = amount, so_Price = price,
      so_CreatedAt = 0, so_UpdatedAt = 0\<rparr>"

definition fill_record :: "string \<Rightarrow> string \<Rightarrow> string \<Rightarrow> 'd fill \<Rightarrow> 'd store_fill" where
  "fill_record venueName pair oid f =
     \<lparr>sf_VenueOrderID = oid, sf_TradeID = fl_TradeID f, sf_Venue = venueName, sf_Pair = pair, sf_Price = fl_Price f,
      sf_Quantity = fl_Quantity f, sf_Fee = fl_Fee f, sf_FeeAsset = fl_FeeAsset f, sf_Timestamp = fl_Timestamp f\<rparr>"

definition placed_event ::
  "'d dec_ops \<Rightarrow> string \<Rightarrow> order_req \<Rightarrow> 'd \<Rightarrow> 'd \<Rightarrow> 'd order_response \<Rightarrow> 'd audit_event"
where
  "placed_event D venueName req amount price resp =
     (blank_event D EventOrderPlaced venueName)
       \<lparr>ae_OrderID := or_VenueOrderID resp, ae_ClientID := or_ClientOrderID resp, ae_Pair := oq_Pair req,
        ae_Side := oq_Side req, ae_OrderType := oq_Type req, ae_Quantity := amount, ae_Price := price\<rparr>"

definition fill_audit :: "'d dec_ops \<Rightarrow> string \<Rightarrow> string \<Rightarrow> string \<Rightarrow> 'd fill \<Rightarrow> 'd audit_event" where
  "fill_audit D venueName pair oid f =
     (blank_event D EventFill venueName)
       \<lparr>ae_OrderID := oid, ae_Pair := pair,
        ae_Fill := Some \<lparr>fd_TradeID = fl_TradeID f, fd_Price = fl_Price f, fd_Quantity = fl_Quantity f,
                         fd_Fee = fl_Fee f, fd_FeeAsset = fl_FeeAsset f, fd_TS = fl_Timestamp f\<rparr>\<rparr>"

text \<open>Lines 185--246: what a placed order asks of the store, the sink and the bus, in order.\<close>

definition order_effects ::
  "'d dec_ops \<Rightarrow> 'd service \<Rightarrow> order_req \<Rightarrow> 'd \<Rightarrow> 'd \<Rightarrow> 'd order_response \<Rightarrow> 'd effect list"
where
  "order_effects D s req amount price resp =
     (if sv_store s then
        EOrder (order_record (sv_venueName s) req amount price resp) #
        map (\<lambda>f. EFill (fill_record (sv_venueName s) (oq_Pair req) (or_VenueOrderID resp) f)) (or_Fills resp)
      else []) @
     (if sv_audit s then
        EAudit (placed_event D (sv_venueName s) req amount price resp) #
        concat (map (\<lambda>f.
          EAudit (fill_audit D (sv_venueName s) (oq_Pair req) (or_VenueOrderID resp) f) #
          (if sv_events s
           then [EPublishFill (FillFromVenue (sv_venueName s) (or_VenueOrderID resp) (oq_Pair req) f)] else []))
          (or_Fills resp))
      else [])"

definition handleOrdersRoot :: "'d server_env \<Rightarrow> request \<Rightarrow> 'd service \<Rightarrow> net_world \<Rightarrow> 'd handled" where
  "handleOrdersRoot S r s w =
     (case parse_order S r of
        Inl ans \<Rightarrow> (ans, [], s, w)
      | Inr (req, amount, price, vReq) \<Rightarrow>
          (case conn_PlaceOrder S vReq (sv_connector s) w of
             (Inl err, conn, w1) \<Rightarrow>
               ((502, BError (''place order: '' @ err_msg err)), [], s\<lparr>sv_connector := conn\<rparr>, w1)
           | (Inr resp, conn, w1) \<Rightarrow>
               ((200, BOrder \<lparr>ob_VenueOrderID = or_VenueOrderID resp, ob_ClientOrderID = or_ClientOrderID resp,
                              ob_Status = or_Status resp, ob_FilledQty = or_FilledQty resp,
                              ob_AvgPrice = or_AvgPrice resp, ob_Fills = or_Fills resp,
                              ob_Venue = sv_venueName s, ob_Pair = oq_Pair req\<rparr>),
                order_effects (ne_dec (se_net S)) s req amount price resp, s\<lparr>sv_connector := conn\<rparr>, w1)))"

subsection \<open>The sub-resources of an order\<close>

definition splitOrderPath :: "string \<Rightarrow> string \<times> string" where
  "splitOrderPath p =
     (let trimmed = trim_suffix (trim_prefix p ''/v1/orders/'') ''/''
      in case index_of (CHR ''/'') trimmed of
           None \<Rightarrow> (trimmed, '''')
         | Some i \<Rightarrow> (take i trimmed, drop (i + 1) trimmed))"

definition handleOrderSub :: "'d server_env \<Rightarrow> request \<Rightarrow> 'd service \<Rightarrow> net_world \<Rightarrow> 'd handled" where
  "handleOrderSub S r s w =
     (case splitOrderPath (hr_path r) of (oid, sub) \<Rightarrow>
      if oid = '''' then ((400, BError ''missing order id''), [], s, w)
      else if sub = ''cancel'' then
        (if hr_method r \<noteq> ''POST'' then ((405, BError ''method not allowed''), [], s, w)
         else
           (case conn_CancelOrder S \<lparr>cr_VenueOrderID = oid, cr_ClientOrderID = ''''\<rparr> (sv_connector s) w of
              (Some err, conn, w1) \<Rightarrow>
                ((502, BError (''cancel: '' @ err_msg err)), [], s\<lparr>sv_connector := conn\<rparr>, w1)
            | (None, conn, w1) \<Rightarrow>
                ((200, BCanceled oid),
                 if sv_audit s then [EAudit ((blank_event (ne_dec (se_net S)) EventOrderCanceled (sv_venueName s))
                                              \<lparr>ae_OrderID := oid\<rparr>)] else [],
                 s\<lparr>sv_connector := conn\<rparr>, w1)))
      else if sub = ''fills'' then
        (if hr_method r \<noteq> ''GET'' then ((405, BError ''method not allowed''), [], s, w)
         else
           (let limit = (if hr_limit r \<noteq> '''' then (case parse_int64 (hr_limit r) of Some n \<Rightarrow> n | None \<Rightarrow> 0) else 0)
            in case conn_GetFills S \<lparr>fq_VenueOrderID = oid, fq_Start = 0, fq_End = 0, fq_Limit = limit\<rparr> (sv_connector s) w of
                 (Inl err, conn, w1) \<Rightarrow>
                   ((502, BError (''fills: '' @ err_msg err)), [], s\<lparr>sv_connector := conn\<rparr>, w1)
               | (Inr fills, conn, w1) \<Rightarrow> ((200, BFills oid fills), [], s\<lparr>sv_connector := conn\<rparr>, w1)))
      else if sub = ''status'' \<or> sub = '''' then
        (if hr_method r \<noteq> ''GET'' then ((405, BError ''method not allowed''), [], s, w)
         else
           (case conn_GetOrder S oid (sv_connector s) w of
              (Inl err, conn, w1) \<Rightarrow>
                ((502, BError (''get order: '' @ err_msg err)), [], s\<lparr>sv_connector := conn\<rparr>, w1)
            | (Inr ord, conn, w1) \<Rightarrow> ((200, BVenueOrder ord), [], s\<lparr>sv_connector := conn\<rparr>, w1)))
      else ((404, BError ''not found''), [], s, w))"

subsection \<open>Balances and books\<close>

definition balance_audit :: "'d dec_ops \<Rightarrow> string \<Rightarrow> 'd balance \<Rightarrow> 'd audit_event" where
  "balance_audit D venueName b =
     (blank_event D EventBalanceSnapshot venueName)
       \<lparr>ae_Balance := Some \<lparr>bd_Asset = bl_Asset b, bd_Free = bl_Free b, bd_Locked = bl_Locked b\<rparr>\<rparr>"

text \<open>The loop over the assets: one reading of the clock per published balance.\<close>

fun balance_effects :: "'d net_env \<Rightarrow> 'd service \<Rightarrow> 'd balance list \<Rightarrow> net_world \<Rightarrow> 'd effect list \<times> net_world" where
  "balance_effects E s [] w = ([], w)"
| "balance_effects E s (b # bs) w =
     (if sv_events s then
        (case time_now E w of (now, w1) \<Rightarrow>
         case balance_effects E s bs w1 of (es, w2) \<Rightarrow>
           (EAudit (balance_audit (ne_dec E) (sv_venueName s) b) #
            EPublishBalance (BalanceFromVenue now (sv_venueName s) b) # es, w2))
      else
        (case balance_effects E s bs w of (es, w2) \<Rightarrow>
           (EAudit (balance_audit (ne_dec E) (sv_venueName s) b) # es, w2)))"

definition handleBalances :: "'d server_env \<Rightarrow> request \<Rightarrow> 'd service \<Rightarrow> net_world \<Rightarrow> 'd handled" where
  "handleBalances S r s w =
     (if hr_method r \<noteq> ''GET'' then ((405, BError ''method not allowed''), [], s, w)
      else
        (case conn_GetBalances S (sv_connector s) w of
           (Inl err, conn, w1) \<Rightarrow> ((502, BError (''balances: '' @ err_msg err)), [], s\<lparr>sv_connector := conn\<rparr>, w1)
         | (Inr b, conn, w1) \<Rightarrow>
             (case (if sv_audit s then balance_effects (se_net S) s (map snd (se_asset_order S b)) w1 else ([], w1)) of
                (es, w2) \<Rightarrow> ((200, BBalances b), es, s\<lparr>sv_connector := conn\<rparr>, w2))))"

definition handleBook :: "request \<Rightarrow> 'd service \<Rightarrow> net_world \<Rightarrow> 'd handled" where
  "handleBook r s w =
     (if hr_method r \<noteq> ''GET'' then ((405, BError ''method not allowed''), [], s, w)
      else
        (let pair = trim_suffix (trim_prefix (hr_path r) ''/v1/book/'') ''/'' in
         if pair = '''' then ((400, BError ''missing pair''), [], s, w)
         else case Aggregator_Get (sv_book s) pair of
                None \<Rightarrow> ((404, BError ''no book for pair''), [], s, w)
              | Some tb \<Rightarrow> ((200, BTop tb), [], s, w)))"

text \<open>The routing table, for a path in canonical form (the mux redirects the others).\<close>

definition Routes :: "'d server_env \<Rightarrow> request \<Rightarrow> 'd service \<Rightarrow> net_world \<Rightarrow> 'd handled" where
  "Routes S r s w =
     (let p = hr_path r in
      if p = ''/healthz'' then handleHealthz s w
      else if p = ''/readyz'' then handleReadyz s w
      else if p = ''/admin/status'' then handleAdminStatus s w
      else if p = ''/admin/rotate-credentials'' then handleRotateCreds S s w
      else if p = ''/v1/orders'' then handleOrdersRoot S r s w
      else if prefix ''/v1/orders/'' p then handleOrderSub S r s w
      else if p = ''/v1/balances'' then handleBalances S r s w
      else if prefix ''/v1/book/'' p then handleBook r s w
      else ((404, BError ''404 page not found''), [], s, w))"

subsection \<open>Performing the effects\<close>

fun apply_store :: "gotime \<Rightarrow> 'd effect list \<Rightarrow> 'd mem_store \<Rightarrow> 'd mem_store" where
  "apply_store now [] st = st"
| "apply_store now (EOrder r # es) st = apply_store now es (fst (MemStore_RecordOrder now now r st))"
| "apply_store now (EFill f # es) st = apply_store now es (fst (MemStore_RecordFill now f st))"
| "apply_store now (_ # es) st = apply_store now es st"

fun apply_audit :: "gotime \<Rightarrow> 'd effect list \<Rightarrow> 'd memory_sink \<Rightarrow> 'd memory_sink" where
  "apply_audit now [] sk = sk"
| "apply_audit now (EAudit e # es) sk = apply_audit now es (MemorySink_Emit now e sk)"
| "apply_audit now (_ # es) sk = apply_audit now es sk"

text \<open>The calls on the store that the effects are, for the history lemmas of the store.\<close>

fun store_calls :: "gotime \<Rightarrow> 'd effect list \<Rightarrow> 'd store_call list" where
  "store_calls now [] = []"
| "store_calls now (EOrder r # es) = CallOrder now now r # store_calls now es"
| "store_calls now (EFill f # es) = CallFill now f # store_calls now es"
| "store_calls now (_ # es) = store_calls now es"

fun audit_events :: "'d effect list \<Rightarrow> 'd audit_event list" where
  "audit_events [] = []"
| "audit_events (EAudit e # es) = e # audit_events es"
| "audit_events (_ # es) = audit_events es"

lemma apply_store_replay:
  "apply_store now es st = replay MemStore_RecordOrder MemStore_RecordFill (store_calls now es) st"
  by (induction now es st rule: apply_store.induct) simp_all

lemma apply_audit_events:
  "apply_audit now es sk = sk @ map (stamp_event now) (audit_events es)"
  by (induction now es sk rule: apply_audit.induct) (simp_all add: MemorySink_Emit_def)

lemma store_calls_append [simp]: "store_calls now (es @ fs) = store_calls now es @ store_calls now fs"
  by (induction now es rule: store_calls.induct) simp_all

lemma audit_events_append [simp]: "audit_events (es @ fs) = audit_events es @ audit_events fs"
  by (induction es rule: audit_events.induct) simp_all

section \<open>Lemmas\<close>

lemma parse_order_InrE:
  assumes "parse_order S r = Inr (req, amount, price, vReq)"
  shows "hr_method r = ''POST''" "oq_Venue req \<noteq> ''''" "oq_Pair req \<noteq> ''''" "oq_Side req \<noteq> ''''" "oq_Type req \<noteq> ''''"
    "dec_of_string (ne_dec (se_net S)) (oq_Amount req) = (amount, None)"
    "\<not> dec_le (ne_dec (se_net S)) amount (dec_zero (ne_dec (se_net S)))"
    "vReq = \<lparr>rq_ClientOrderID = '''', rq_Symbol = oq_Pair req, rq_Side = oq_Side req, rq_Type = oq_Type req,
             rq_Quantity = amount, rq_Price = price\<rparr>"
  using assms
  by (auto simp: parse_order_def Let_def split: if_splits sum.splits prod.splits option.splits)

lemma parse_order_InlE:
  assumes "parse_order S r = Inl ans"
  obtains st msg where "ans = (st, BError msg)" "st = 400 \<or> st = 405"
  using assms
  by (auto simp: parse_order_def Let_def split: if_splits sum.splits prod.splits option.splits)

lemma conn_PlaceOrder_no_client_id:
  assumes "rq_ClientOrderID req = ''''" "\<not> is_dummy c"
  shows "\<exists>v \<in> {''binance'', ''kraken'', ''otc''}.
    conn_PlaceOrder S req c w = (Inl (ErrMsg (v @ '': client_order_id required'')), c, w)"
  using assms
  by (cases c) (simp_all add: is_dummy_def with_conn_def Binance_PlaceOrder_def Kraken_PlaceOrder_def Otc_PlaceOrder_def)

lemma splitOrderPath_id: "CHR ''/'' \<notin> set oid \<Longrightarrow> splitOrderPath (''/v1/orders/'' @ oid) = (oid, '''')"
  by (auto simp: splitOrderPath_def trim_prefix_def trim_suffix_def case_index_of_None suffix_def)

text \<open>\<open>route_ok\<close>: what every handler guarantees of its answer, its effects and the state.\<close>

definition route_ok :: "'d service \<Rightarrow> net_world \<Rightarrow> 'd handled \<Rightarrow> bool" where
  "route_ok s w h = (case h of ((st, b), es, s', w') \<Rightarrow>
     (es \<noteq> [] \<longrightarrow> st = 200) \<and> (st \<noteq> 200 \<longrightarrow> (\<exists>msg. b = BError msg)) \<and>
     (st \<noteq> 200 \<and> st \<noteq> 502 \<longrightarrow> s' = s \<and> w' = w) \<and>
     s' = s\<lparr>sv_connector := sv_connector s'\<rparr>)"

lemma service_same_connector [simp]: "s\<lparr>sv_connector := sv_connector s\<rparr> = (s :: 'd service)"
  by simp

lemma route_ok_simps [simp]:
  "route_ok s w ((200, b), es, s, w')"
  "route_ok s w ((200, b), es, s\<lparr>sv_connector := c\<rparr>, w')"
  "route_ok s w ((st, BError msg), [], s, w)"
  "route_ok s w ((502, BError msg), [], s\<lparr>sv_connector := c\<rparr>, w')"
  by (simp_all add: route_ok_def)

lemma route_ok_orders: "route_ok s w (handleOrdersRoot S r s w)"
  by (auto simp: handleOrdersRoot_def split: sum.split prod.split elim!: parse_order_InlE)

lemma route_ok_sub: "route_ok s w (handleOrderSub S r s w)"
  by (auto simp: handleOrderSub_def Let_def split: sum.split prod.split option.split)

lemma route_ok_balances: "route_ok s w (handleBalances S r s w)"
  by (auto simp: handleBalances_def split: sum.split prod.split)

lemma route_ok_book: "route_ok s w (handleBook r s w)"
  by (auto simp: handleBook_def Let_def split: option.split)

lemma route_ok_plain:
  "route_ok s w (handleHealthz s w)" "route_ok s w (handleReadyz s w)" "route_ok s w (handleAdminStatus s w)"
  "route_ok s w (handleRotateCreds S s w)"
  by (simp_all add: handleHealthz_def handleReadyz_def handleAdminStatus_def handleRotateCreds_def)

lemmas route_oks = route_ok_orders route_ok_sub route_ok_balances route_ok_book route_ok_plain

lemma route_ok_Routes: "route_ok s w (Routes S r s w)"
  unfolding Routes_def Let_def by (auto intro: route_oks)

text \<open>Which effects a request may have on which service.\<close>

fun effect_allowed :: "request \<Rightarrow> 'd service \<Rightarrow> 'd effect \<Rightarrow> bool" where
  "effect_allowed r s (EOrder _) = (hr_method r = ''POST'' \<and> hr_path r = ''/v1/orders'' \<and> sv_store s)"
| "effect_allowed r s (EFill _) = (hr_method r = ''POST'' \<and> hr_path r = ''/v1/orders'' \<and> sv_store s)"
| "effect_allowed r s (EAudit _) = sv_audit s"
| "effect_allowed r s (EPublishFill _) =
     (hr_method r = ''POST'' \<and> hr_path r = ''/v1/orders'' \<and> sv_audit s \<and> sv_events s)"
| "effect_allowed r s (EPublishBalance _) =
     (hr_method r = ''GET'' \<and> hr_path r = ''/v1/balances'' \<and> sv_audit s \<and> sv_events s)"

lemma order_effects_allowed:
  assumes "hr_method r = ''POST''" "hr_path r = ''/v1/orders''"
  shows "list_all (effect_allowed r s) (order_effects D s req amount price resp)"
  using assms by (auto simp: order_effects_def list_all_iff)

lemma balance_effects_allowed:
  assumes "hr_method r = ''GET''" "hr_path r = ''/v1/balances''" "sv_audit s"
  shows "list_all (effect_allowed r s) (fst (balance_effects E s bs w))"
  using assms by (induction E s bs w rule: balance_effects.induct) (auto split: prod.split)

definition effects_ok :: "request \<Rightarrow> 'd service \<Rightarrow> 'd handled \<Rightarrow> bool" where
  "effects_ok r s h = list_all (effect_allowed r s) (fst (snd h))"

lemma effects_ok_orders: "hr_path r = ''/v1/orders'' \<Longrightarrow> effects_ok r s (handleOrdersRoot S r s w)"
  using order_effects_allowed parse_order_InrE(1)
  by (fastforce simp: effects_ok_def handleOrdersRoot_def split: sum.split prod.split)

lemma effects_ok_balances: "hr_path r = ''/v1/balances'' \<Longrightarrow> effects_ok r s (handleBalances S r s w)"
  using balance_effects_allowed [of r s "se_net S"]
  by (auto simp: effects_ok_def handleBalances_def split: sum.split prod.split) (metis fst_conv)

lemma effects_ok_rest:
  "effects_ok r s (handleOrderSub S r s w)" "effects_ok r s (handleBook r s w)"
  "effects_ok r s (handleHealthz s w)" "effects_ok r s (handleReadyz s w)" "effects_ok r s (handleAdminStatus s w)"
  "effects_ok r s (handleRotateCreds S s w)"
  by (auto simp: effects_ok_def handleOrderSub_def handleBook_def Let_def handleHealthz_def handleReadyz_def
      handleAdminStatus_def handleRotateCreds_def split: sum.split prod.split option.split)

lemma effects_ok_Routes: "effects_ok r s (Routes S r s w)"
  unfolding Routes_def Let_def
  by (auto intro: effects_ok_orders effects_ok_balances effects_ok_rest) (simp add: effects_ok_def)

section \<open>Properties\<close>

text \<open>
  C22: what a request can do, for every path and method. A request asks something of the store,
  of the audit sink or of the event bus only when it is answered 200; an answer that is neither
  200 nor 502 leaves the service and the network as they were, and every answer other than 200
  carries an error text. Orders and fills are recorded, and fill events published, only for a
  \<open>POST\<close> on \<open>/v1/orders\<close>, balance events only for a \<open>GET\<close> on \<open>/v1/balances\<close>; and nothing is
  published on the event bus of a service that has no audit sink.
\<close>

theorem routes_effects:
  assumes "Routes S r s w = ((st, b), es, s', w')"
  shows "(es \<noteq> [] \<longrightarrow> st = 200) \<and> (st \<noteq> 200 \<longrightarrow> (\<exists>msg. b = BError msg)) \<and>
    (st \<noteq> 200 \<and> st \<noteq> 502 \<longrightarrow> s' = s \<and> w' = w) \<and> s' = s\<lparr>sv_connector := sv_connector s'\<rparr> \<and>
    (\<forall>e \<in> set es. effect_allowed r s e)"
  using route_ok_Routes [of s w S r] effects_ok_Routes [of r s S w]
  by (simp add: assms route_ok_def effects_ok_def list_all_iff)

lemma refused_after_parse:
  assumes "\<not> is_dummy (sv_connector s)" "parse_order S r = Inr x"
  shows "\<exists>msg. handleOrdersRoot S r s w = ((502, BError msg), [], s, w) \<and>
    (\<exists>v \<in> {''binance'', ''kraken'', ''otc''}. msg = ''place order: '' @ v @ '': client_order_id required'')"
proof -
  obtain req amount price vReq where x: "x = (req, amount, price, vReq)" by (metis surj_pair)
  have "rq_ClientOrderID vReq = ''''" using parse_order_InrE(8) [OF assms(2) [unfolded x]] by simp
  from conn_PlaceOrder_no_client_id [OF this assms(1), of S w] show ?thesis
    unfolding handleOrdersRoot_def assms(2) x by auto
qed

text \<open>
  No order placed over HTTP reaches a real venue. The handler never sets the client order id
  and the Binance, Kraken and OTC connectors insist on one, so whatever the request is the answer
  is an error, nothing is sent or recorded and the connector is unchanged; a request that passes
  validation is answered 502 with the connector's complaint.
\<close>

theorem real_venue_orders_refused:
  assumes "\<not> is_dummy (sv_connector s)"
  shows "\<exists>st msg. handleOrdersRoot S r s w = ((st, BError msg), [], s, w) \<and>
    (case parse_order S r of
       Inl ans \<Rightarrow> ans = (st, BError msg) \<and> (st = 400 \<or> st = 405)
     | Inr _ \<Rightarrow> st = 502 \<and>
         (\<exists>v \<in> {''binance'', ''kraken'', ''otc''}. msg = ''place order: '' @ v @ '': client_order_id required''))"
proof (cases "parse_order S r")
  case (Inl ans)
  then show ?thesis by (auto simp: handleOrdersRoot_def elim: parse_order_InlE)
next
  case (Inr p)
  from refused_after_parse [OF assms Inr, of w] show ?thesis by (auto simp: Inr)
qed

text \<open>A market order for two, as the JSON a client would send, and a service with a sink and a bus.\<close>

definition sample_server :: "int server_env" where
  "sample_server =
     \<lparr>se_net = sample_env (\<lambda>n r. Inl ErrJson) (\<lambda>s. None), se_uuid1 = ''u-1'', se_uuid2 = ''u-2'',
      se_trade_order = (\<lambda>xs. xs), se_asset_order = (\<lambda>xs. xs),
      se_first_json = (\<lambda>s. Some (JObj [(''venue'', JStr ''dummy''), (''pair'', JStr ''BTCUSDT''), (''side'', JStr ''buy''),
                                     (''type'', JStr ''market''), (''amount'', JStr ''2'')]))\<rparr>"

definition sample_service :: "int connector \<Rightarrow> int service" where
  "sample_service c =
     \<lparr>sv_connector = c, sv_book = \<lparr>ba_latest = [], ba_cancelled = False\<rparr>, sv_audit = True, sv_events = True, sv_venueName = ''dummy'',
      sv_ready = True, sv_store = True\<rparr>"

definition sample_post :: request where
  "sample_post = \<lparr>hr_method = ''POST'', hr_path = ''/v1/orders'', hr_limit = '''', hr_payload = ''''\<rparr>"

definition sample_req :: order_req where
  "sample_req = \<lparr>oq_Venue = ''dummy'', oq_Pair = ''BTCUSDT'', oq_Side = ''buy'', oq_Type = ''market'',
     oq_Amount = ''2'', oq_Price = ''''\<rparr>"

lemma sample_decodes:
  "unmarshal_or (se_first_json sample_server) (decode_struct order_req_fields) order_req_zero p = Inr sample_req"
  by (simp add: sample_server_def unmarshal_or_def unmarshal_def decode_struct_def order_req_fields_def field_def
      find_field_def decode_string_def order_req_zero_def sample_req_def)

lemma sample_parses:
  "parse_order sample_server sample_post = Inr (sample_req, 2, 0,
     \<lparr>rq_ClientOrderID = '''', rq_Symbol = ''BTCUSDT'', rq_Side = ''buy'', rq_Type = ''market'',
      rq_Quantity = 2, rq_Price = 0\<rparr>)"
  unfolding parse_order_def sample_decodes
  by (simp add: sample_post_def sample_req_def sample_server_def dec_int_def dec_le_def parse_int64_def parse_nat_def
      digit_val_def char_code_def in_int64_def)

theorem routes_effects_witness:
  "\<exists>b es s' w'. Routes sample_server (sample_post\<lparr>hr_method := ''PUT''\<rparr>) (sample_service (COtc sample_otc)) world0 =
      ((405, b), es, s', w') \<and> es = [] \<and> s' = sample_service (COtc sample_otc) \<and> w' = world0"
proof -
  let ?r = "sample_post\<lparr>hr_method := ''PUT''\<rparr>" and ?s = "sample_service (COtc sample_otc)"
  have "Routes sample_server ?r ?s world0 = ((405, BError ''method not allowed''), [], ?s, world0)"
    by (simp add: Routes_def sample_post_def handleOrdersRoot_def parse_order_def)
  from routes_effects [OF this] this show ?thesis by auto
qed

theorem real_venue_orders_refused_witness:
  "\<exists>msg. handleOrdersRoot sample_server sample_post (sample_service (COtc sample_otc)) world0 =
     ((502, BError msg), [], sample_service (COtc sample_otc), world0)"
proof -
  have "\<not> is_dummy (sv_connector (sample_service (COtc sample_otc)))" by (simp add: sample_service_def is_dummy_def)
  from real_venue_orders_refused [OF this, of sample_server sample_post world0] show ?thesis
    by (auto simp: sample_parses)
qed

text \<open>What placing an order with the dummy connector comes to.\<close>

lemma handleOrdersRoot_dummy:
  assumes "sv_connector s = CDummy d" "parse_order S r = Inr (req, amount, price, vReq)"
    and "f = dummy_fill (ne_dec (se_net S)) (se_uuid1 S) (se_uuid2 S)
               (dummy_order_price (ne_dec (se_net S)) vReq d) amount (ne_now (se_net S) (nw_reads w))"
    and "resp = dummy_response (se_uuid1 S) (dummy_order_price (ne_dec (se_net S)) vReq d) amount f"
  shows "\<exists>d' a. Dummy_PlaceOrder (ne_dec (se_net S)) (se_uuid1 S) (se_uuid2 S)
        (ne_now (se_net S) (nw_reads w)) vReq d = (d', a) \<and> dv_heap d' ! a = resp \<and> dummy_cid (se_uuid1 S) vReq = se_uuid1 S \<and>
      handleOrdersRoot S r s w =
      ((200, BOrder \<lparr>ob_VenueOrderID = se_uuid1 S, ob_ClientOrderID = se_uuid1 S, ob_Status = OrderStatusFilled,
                     ob_FilledQty = amount, ob_AvgPrice = or_AvgPrice resp, ob_Fills = [f],
                     ob_Venue = sv_venueName s, ob_Pair = oq_Pair req\<rparr>),
       order_effects (ne_dec (se_net S)) s req amount price resp,
       s\<lparr>sv_connector := CDummy d'\<rparr>, w\<lparr>nw_reads := nw_reads w + 1\<rparr>)"
  using parse_order_InrE(8) [OF assms(2)]
  by (simp add: handleOrdersRoot_def assms time_now_def Dummy_PlaceOrder_def Let_def dummy_cid_def)

lemma order_effects_store:
  assumes "sv_store s" "or_Fills resp = [f]"
  shows "store_calls now (order_effects D s req amount price resp) =
    [CallOrder now now (order_record (sv_venueName s) req amount price resp),
     CallFill now (fill_record (sv_venueName s) (oq_Pair req) (or_VenueOrderID resp) f)]"
  using assms by (simp add: order_effects_def)

lemma order_effects_audit:
  assumes "sv_audit s" "or_Fills resp = [f]"
  shows "audit_events (order_effects D s req amount price resp) =
    [placed_event D (sv_venueName s) req amount price resp,
     fill_audit D (sv_venueName s) (oq_Pair req) (or_VenueOrderID resp) f]"
  using assms by (simp add: order_effects_def)

text \<open>
  C1: placing an order over HTTP, from end to end, with the dummy connector. A request that
  passes validation is answered 200 with the whole amount, which is positive, filled. Performing
  the handler's effects, the store finds the order under the id it was given, with status, pair
  and quantity of the request, and has exactly one more fill, of that order, quantity and trade;
  the audit log gains exactly the placement event and then the fill event; and a \<open>GET\<close> on
  \<open>/v1/orders/<id>\<close> then answers with that order. (The ids are fresh and contain no slash, as
  UUIDs do not.)
\<close>

theorem placed_order_end_to_end:
  assumes conn: "sv_connector s = CDummy d" "dummy_ok d" and nil: "sv_store s" "sv_audit s"
    and req: "parse_order S r = Inr (req, amount, price, vReq)"
    and uuid: "se_uuid1 S \<noteq> ''''" "CHR ''/'' \<notin> set (se_uuid1 S)"
    and fresh: "mem_ok st" "MemStore_GetOrderByClientID (se_uuid1 S) st = None"
      "(sv_venueName s, se_uuid2 S) \<notin> fill_key ` set (ms_fills st)"
    and get: "hr_method r' = ''GET''" "hr_path r' = ''/v1/orders/'' @ se_uuid1 S"
  shows "\<exists>ob es s' w' o1 f1 e1 e2 resp.
    handleOrdersRoot S r s w = ((200, BOrder ob), es, s', w') \<and>
    ob_VenueOrderID ob = se_uuid1 S \<and> ob_Status ob = OrderStatusFilled \<and> ob_FilledQty ob = amount \<and>
    \<not> dec_le (ne_dec (se_net S)) amount (dec_zero (ne_dec (se_net S))) \<and>
    MemStore_GetOrderByClientID (se_uuid1 S) (apply_store now es st) = Some o1 \<and>
    so_Status o1 = OrderStatusFilled \<and> so_Pair o1 = oq_Pair req \<and> so_Quantity o1 = amount \<and>
    ms_fills (apply_store now es st) = ms_fills st @ [f1] \<and>
    sf_VenueOrderID f1 = se_uuid1 S \<and> sf_TradeID f1 = se_uuid2 S \<and> sf_Quantity f1 = amount \<and>
    MemorySink_Events (apply_audit now es sk) = sk @ [e1, e2] \<and>
    ae_Type e1 = EventOrderPlaced \<and> ae_Type e2 = EventFill \<and> ae_OrderID e1 = se_uuid1 S \<and> ae_OrderID e2 = se_uuid1 S \<and>
    handleOrderSub S r' s' w' = ((200, BVenueOrder resp), [], s', w') \<and>
    or_VenueOrderID resp = se_uuid1 S \<and> or_FilledQty resp = amount \<and> or_Fills resp = ob_Fills ob"
proof -
  let ?D = "ne_dec (se_net S)" and ?now = "ne_now (se_net S) (nw_reads w)"
  let ?p = "dummy_order_price ?D vReq d"
  let ?f = "dummy_fill ?D (se_uuid1 S) (se_uuid2 S) ?p amount ?now"
  let ?resp = "dummy_response (se_uuid1 S) ?p amount ?f"
  let ?es = "order_effects ?D s req amount price ?resp"
  let ?o = "stamp_order now now (order_record (sv_venueName s) req amount price ?resp)"
  let ?sf = "stamp_fill now (fill_record (sv_venueName s) (oq_Pair req) (se_uuid1 S) ?f)"
  let ?w = "w\<lparr>nw_reads := nw_reads w + 1\<rparr>"
  obtain d' a where d': "Dummy_PlaceOrder ?D (se_uuid1 S) (se_uuid2 S) ?now vReq d = (d', a)"
    and heap: "dv_heap d' ! a = ?resp" and cid: "dummy_cid (se_uuid1 S) vReq = se_uuid1 S"
    and h: "handleOrdersRoot S r s w =
      ((200, BOrder \<lparr>ob_VenueOrderID = se_uuid1 S, ob_ClientOrderID = se_uuid1 S, ob_Status = OrderStatusFilled,
                     ob_FilledQty = amount, ob_AvgPrice = ?p, ob_Fills = [?f],
                     ob_Venue = sv_venueName s, ob_Pair = oq_Pair req\<rparr>), ?es, s\<lparr>sv_connector := CDummy d'\<rparr>, ?w)"
    using handleOrdersRoot_dummy [OF conn(1) req refl refl, of w] by auto
  have pos: "\<not> dec_le ?D amount (dec_zero ?D)" by (rule parse_order_InrE(7) [OF req])
  have calls: "store_calls now ?es =
      [CallOrder now now (order_record (sv_venueName s) req amount price ?resp),
       CallFill now (fill_record (sv_venueName s) (oq_Pair req) (se_uuid1 S) ?f)]"
    using order_effects_store [OF nil(1), of ?resp ?f] by simp
  have key: "fill_key (fill_record (sv_venueName s) (oq_Pair req) (se_uuid1 S) ?f) = (sv_venueName s, se_uuid2 S)"
    by (simp add: fill_record_def)
  have stored: "MemStore_GetOrderByClientID (se_uuid1 S) (apply_store now ?es st) = Some ?o"
    using mem.replay_first_wins [OF fresh(1), where cs = "store_calls now ?es" and c = "se_uuid1 S"] fresh(2)
    by (simp add: apply_store_replay calls) (simp add: order_record_def)
  have filled: "ms_fills (apply_store now ?es st) = ms_fills st @ [?sf]"
    using mem.replay_first_wins [OF fresh(1), where cs = "store_calls now ?es"] fresh(3) key
    by (simp add: apply_store_replay calls)
  have logged: "MemorySink_Events (apply_audit now ?es sk) = sk @
      [stamp_event now (placed_event ?D (sv_venueName s) req amount price ?resp),
       stamp_event now (fill_audit ?D (sv_venueName s) (oq_Pair req) (se_uuid1 S) ?f)]"
    using order_effects_audit [OF nil(2), of ?resp ?f] by (simp add: MemorySink_Events_def apply_audit_events)
  have "Dummy_GetOrder (se_uuid1 S) d' = Inr ?resp"
    using d' cid heap by (auto simp: Dummy_PlaceOrder_def Let_def Dummy_GetOrder_def)
  then have got: "handleOrderSub S r' (s\<lparr>sv_connector := CDummy d'\<rparr>) ?w =
      ((200, BVenueOrder ?resp), [], s\<lparr>sv_connector := CDummy d'\<rparr>, ?w)"
    using splitOrderPath_id [OF uuid(2)] uuid(1) get by (simp add: handleOrderSub_def)
  show ?thesis
    by (rule exI, rule exI [of _ ?es], rule exI [of _ "s\<lparr>sv_connector := CDummy d'\<rparr>"], rule exI [of _ ?w],
        rule exI [of _ ?o], rule exI [of _ ?sf], rule exI, rule exI, rule exI [of _ ?resp],
        intro conjI, rule h, simp, simp, simp, rule pos, rule stored)
      (simp_all add: filled logged got [simplified], simp_all add: order_record_def fill_record_def stamp_order_def stamp_fill_def
        placed_event_def fill_audit_def blank_event_def stamp_event_def)
qed

definition sample_get :: request where
  "sample_get = \<lparr>hr_method = ''GET'', hr_path = ''/v1/orders/u-1'', hr_limit = '''', hr_payload = ''''\<rparr>"

theorem placed_order_end_to_end_witness:
  "let s = sample_service (CDummy (NewDummyVenueConnector dec_int ''''))
   in \<exists>ob es s' w' o1 f1 resp. handleOrdersRoot sample_server sample_post s world0 = ((200, BOrder ob), es, s', w') \<and>
        ob_FilledQty ob = 2 \<and> MemStore_GetOrderByClientID ''u-1'' (apply_store 7 es NewMemStore) = Some o1 \<and>
        so_Quantity o1 = 2 \<and> ms_fills (apply_store 7 es NewMemStore) = [f1] \<and>
        length (MemorySink_Events (apply_audit 7 es [])) = 2 \<and>
        handleOrderSub sample_server sample_get s' w' = ((200, BVenueOrder resp), [], s', w') \<and> or_FilledQty resp = 2"
proof -
  let ?d = "NewDummyVenueConnector dec_int ''''"
  let ?s = "sample_service (CDummy ?d)"
  have 1: "sv_connector ?s = CDummy ?d" "sv_store ?s" "sv_audit ?s" by (simp_all add: sample_service_def)
  have u: "se_uuid1 sample_server = ''u-1''" by (simp add: sample_server_def)
  have 2: "se_uuid1 sample_server \<noteq> ''''" "CHR ''/'' \<notin> set (se_uuid1 sample_server)" by (simp_all add: u)
  have 3: "hr_method sample_get = ''GET''" "hr_path sample_get = ''/v1/orders/'' @ se_uuid1 sample_server"
    by (simp_all add: u sample_get_def)
  have 4: "MemStore_GetOrderByClientID (se_uuid1 sample_server) NewMemStore = None"
    "(sv_venueName ?s, se_uuid2 sample_server) \<notin> fill_key ` set (ms_fills NewMemStore)" by simp_all
  show ?thesis
    using placed_order_end_to_end [OF 1(1) dummy_ok_New 1(2,3) sample_parses 2 mem_ok_New 4 3,
      where w = world0 and now = 7 and sk = "[]"]
    unfolding Let_def u by (elim exE conjE) (intro exI conjI, assumption+, simp_all)
qed

text \<open>
  The paths of the sub-resources are read back as they are built: an id without a slash and
  a sub-resource that does not end with one, with or without a trailing slash, and an id alone.
\<close>

theorem order_path_roundtrip:
  assumes "CHR ''/'' \<notin> set oid" "sub \<noteq> ''''" "List.last sub \<noteq> CHR ''/''"
  shows "splitOrderPath (''/v1/orders/'' @ oid @ ''/'' @ sub) = (oid, sub) \<and>
    splitOrderPath (''/v1/orders/'' @ oid @ ''/'' @ sub @ ''/'') = (oid, sub) \<and>
    splitOrderPath (''/v1/orders/'' @ oid) = (oid, '''') \<and>
    splitOrderPath (''/v1/orders/'' @ oid @ ''/'') = (oid, '''')"
proof -
  have suf: "\<not> suffix ''/'' (oid @ ''/'' @ sub)" using assms(2,3) by (auto simp: suffix_def dest: arg_cong [of _ _ List.last])
  have i: "index_of (CHR ''/'') (oid @ CHR ''/'' # sub) = Some (length oid)" by (rule index_of_append [OF assms(1)])
  have "splitOrderPath (''/v1/orders/'' @ oid @ ''/'' @ sub) = (oid, sub)"
    using suf i by (simp add: splitOrderPath_def trim_prefix_def trim_suffix_def)
  moreover have "splitOrderPath (''/v1/orders/'' @ oid @ ''/'' @ sub @ ''/'') = (oid, sub)"
    using i suffixI [of "oid @ CHR ''/'' # sub @ ''/''" "oid @ CHR ''/'' # sub" "''/''"]
    by (simp add: splitOrderPath_def trim_prefix_def trim_suffix_def)
  moreover have "splitOrderPath (''/v1/orders/'' @ oid @ ''/'') = (oid, '''')"
    using assms(1) suffixI [of "oid @ ''/''" oid "''/''"]
    by (simp add: splitOrderPath_def trim_prefix_def trim_suffix_def case_index_of_None)
  ultimately show ?thesis using splitOrderPath_id [OF assms(1)] by simp
qed

theorem order_path_roundtrip_witness: "splitOrderPath ''/v1/orders/u-1/fills/'' = (''u-1'', ''fills'')"
  using order_path_roundtrip [of "''u-1''" "''fills''"] by simp

text \<open>
  The admin endpoint that rotates credentials rotates nothing. Whatever the method, the
  answer is 200 with status \<open>rotated\<close>, and the service, its connector and keys included, and the
  network are unchanged; the one effect is an audit event that reports a rotation.
\<close>

theorem rotate_changes_nothing:
  "\<exists>es. Routes S \<lparr>hr_method = m, hr_path = ''/admin/rotate-credentials'', hr_limit = l, hr_payload = p\<rparr> s w =
      ((200, BStatus ''rotated''), es, s, w) \<and>
    (if sv_audit s then \<exists>e. es = [EAudit e] \<and> ae_Type e = EventCredRotation \<and> ae_Venue e = sv_venueName s else es = [])"
  by (simp add: Routes_def handleRotateCreds_def blank_event_def)

end
