(* ===== verification/Book_Feeds.thy ===== *)
theory Book_Feeds
  imports Http_Server Ws_Client Venue_Books
begin

text \<open>
  Book subscriptions as running systems: the goroutine that a \<open>SubscribeBook\<close> starts
  (\<open>internal/adapters/binance/book.go\<close> and \<open>kraken/book.go\<close> around \<open>Client.Run\<close>, the ticker of
  \<open>internal/venue/dummy.go\<close>), the buffered channel, and \<open>consume\<close> of \<open>internal/book/book.go\<close> at its
  other end. The goroutines interleave freely and other goroutines read the clock and use the
  network in between.

  A goroutine is a partial function of an input that says what the network, the context or the
  scheduler did; \<open>None\<close> where the goroutine is not at such a point. The locale \<open>feed_channel\<close> is
  what the aggregator relies on; it is interpreted on the WebSocket feeds and on the ticker.
\<close>

section \<open>Definitions\<close>

subsection \<open>The WebSocket feeds\<close>

text \<open>The points of the goroutine of \<open>SubscribeBook\<close>; \<open>FClosed\<close> is after \<open>close(out)\<close>.\<close>

datatype feed_pc = FPrime "string list" | FDial | FWrite | FRun | FClosed

text \<open>
  \<open>sb_out\<close> of the subscription is the content of the channel and \<open>fd_hand\<close> the update that \<open>consume\<close>
  has received but not yet stored. \<open>fd_offered\<close>, \<open>fd_emitted\<close> and \<open>fd_taken\<close> are histories: every
  update that was due for the channel, with the number that waited in it at that time, every update
  that was put into the channel, and every update that was stored.
\<close>

record 'd feed =
  fd_pc :: feed_pc
  fd_run :: run_state
  fd_sub :: "'d book_sub"
  fd_world :: net_world
  fd_hand :: "'d book_update option"
  fd_agg :: book_aggregator
  fd_offered :: "('d book_update \<times> nat) list"
  fd_emitted :: "'d book_update list"
  fd_taken :: "'d book_update list"

datatype feed_input =
    GPrime                      \<comment> \<open>the next pair, or the end of the loop\<close>
  | GDial "go_error option"     \<comment> \<open>\<open>Connect\<close> returned\<close>
  | GWrite "go_error option"    \<comment> \<open>writing to the connection returned\<close>
  | GRun run_input              \<comment> \<open>a transition of \<open>Run\<close>\<close>
  | GReturn                     \<comment> \<open>\<open>Run\<close> returned\<close>

text \<open>
  When an update is due, said without the channel and without the handlers: the best 20 levels of
  the book, both sides with at least one, stamped with the clock. A Binance message makes one due
  when it decodes, names a subscribed pair and its diff is applied (neither a gap nor old); the
  first snapshot of a pair when the exchange answered it; a Kraken message when it is channel data
  for a subscribed pair.
\<close>

definition top_update :: "'d dec_ops \<Rightarrow> (level list \<Rightarrow> level list) \<Rightarrow> book_recon \<Rightarrow> string \<Rightarrow> gotime \<Rightarrow> 'd book_update option" where
  "top_update D ord r shown now =
     (case TopN ord 20 r of
        Some (b # bids, a # asks) \<Rightarrow>
          Some \<lparr>bu_Pair = shown, bu_Bids = dec_levels D (b # bids), bu_Asks = dec_levels D (a # asks), bu_TS = now\<rparr>
      | _ \<Rightarrow> None)"

definition Binance_due ::
  "'d net_env \<Rightarrow> (level list \<Rightarrow> level list) \<Rightarrow> string \<Rightarrow> 'd book_sub \<Rightarrow> net_world \<Rightarrow> 'd book_update option"
where
  "Binance_due E ord msg sb w =
     (case unmarshal_or (ne_json E) (decode_struct depth_event_fields)
             \<lparr>de_Stream = '''', de_Data = depth_data_zero\<rparr> msg of
        Inl err \<Rightarrow> None
      | Inr ev \<Rightarrow>
          (case map_of (sb_recons sb) (to_lower (streamToPair (de_Stream ev))) of
             None \<Rightarrow> None
           | Some r \<Rightarrow>
               (case ApplyDiff (ne_now E (nw_reads w)) (dd_LastUpdateID (de_Data ev)) (dd_Bids (de_Data ev)) (dd_Asks (de_Data ev)) r of
                  (r1, applied, gap) \<Rightarrow>
                    if applied \<and> \<not> gap
                    then top_update (ne_dec E) ord r1 (to_upper (streamToPair (de_Stream ev))) (ne_now E (nw_reads w + 1))
                    else None)))"

definition Binance_first_due ::
  "'d net_env \<Rightarrow> (level list \<Rightarrow> level list) \<Rightarrow> string \<Rightarrow> string \<Rightarrow> 'd book_sub \<Rightarrow> net_world \<Rightarrow> 'd book_update option"
where
  "Binance_first_due E ord restBase p sb w =
     (case map_of (sb_recons sb) (to_lower p) of
        None \<Rightarrow> None
      | Some r \<Rightarrow>
          (case refreshSnapshot E restBase p r w of
             (Inl err, w1) \<Rightarrow> None
           | (Inr r1, w1) \<Rightarrow> top_update (ne_dec E) ord r1 (to_upper p) (ne_now E (nw_reads w1))))"

definition Kraken_due ::
  "'d net_env \<Rightarrow> (level list \<Rightarrow> level list) \<Rightarrow> (int64 \<rightharpoonup> string) \<Rightarrow> string \<Rightarrow> 'd book_sub \<Rightarrow> net_world \<Rightarrow> 'd book_update option"
where
  "Kraken_due E ord chans msg sb w =
     (case ne_json E msg of
        Some (JArr (j # b # a # k # rest)) \<Rightarrow>
          (case decode_int64 j 0 of
             (ch, bad) \<Rightarrow>
               if bad then None
               else
                 (case chans ch of
                    None \<Rightarrow> None
                  | Some pair \<Rightarrow>
                      (case map_of (sb_recons sb) pair of
                         None \<Rightarrow> None
                       | Some r \<Rightarrow>
                           (case Kraken_apply E (raw_levels b) (raw_levels a) r w of
                              (r1, w1) \<Rightarrow> top_update (ne_dec E) ord r1 pair (ne_now E (nw_reads w1))))))
      | _ \<Rightarrow> None)"

definition put_sub :: "'d book_update option \<Rightarrow> 'd book_sub \<Rightarrow> net_world \<Rightarrow> 'd feed \<Rightarrow> 'd feed" where
  "put_sub upd sb w s =
     s\<lparr>fd_sub := sb, fd_world := w, fd_emitted := fd_emitted s @ drop (length (sb_out (fd_sub s))) (sb_out sb),
       fd_offered := fd_offered s @ (case upd of None \<Rightarrow> [] | Some u \<Rightarrow> [(u, length (sb_out (fd_sub s)))])\<rparr>"

text \<open>A transition of \<open>Run\<close>; the message that \<open>readLoop\<close> delivers goes through the handler.\<close>

definition feed_run ::
  "(string \<Rightarrow> 'd book_sub \<Rightarrow> net_world \<Rightarrow> 'd book_sub \<times> net_world) \<Rightarrow>
   (string \<Rightarrow> 'd book_sub \<Rightarrow> net_world \<Rightarrow> 'd book_update option) \<Rightarrow> run_input \<Rightarrow> 'd feed \<Rightarrow> 'd feed option"
where
  "feed_run handle upd i s =
     (case run_step i (fd_run s) of
        None \<Rightarrow> None
      | Some r \<Rightarrow>
          Some (case (rs_pc (fd_run s), i) of
                  (Reading conn (Some f), Message msg) \<Rightarrow>
                    (case handle msg (fd_sub s) (fd_world s) of
                       (sb, w) \<Rightarrow> put_sub (upd msg (fd_sub s) (fd_world s)) sb w (s\<lparr>fd_run := r\<rparr>))
                | _ \<Rightarrow> s\<lparr>fd_run := r\<rparr>))"

definition feed_return :: "'d feed \<Rightarrow> 'd feed option" where
  "feed_return s = (case rs_pc (fd_run s) of Returned e \<Rightarrow> Some (s\<lparr>fd_pc := FClosed\<rparr>) | _ \<Rightarrow> None)"

definition Binance_goroutine ::
  "'d net_env \<Rightarrow> (level list \<Rightarrow> level list) \<Rightarrow> string \<Rightarrow> feed_input \<Rightarrow> 'd feed \<Rightarrow> 'd feed option"
where
  "Binance_goroutine E ord restBase g s =
     (case (fd_pc s, g) of
        (FPrime [], GPrime) \<Rightarrow> Some (s\<lparr>fd_pc := FRun\<rparr>)
      | (FPrime (p # ps), GPrime) \<Rightarrow>
          (case Binance_prime E ord restBase [p] (fd_sub s) (fd_world s) of
             (sb, w) \<Rightarrow> Some ((put_sub (Binance_first_due E ord restBase p (fd_sub s) (fd_world s)) sb w s)\<lparr>fd_pc := FPrime ps\<rparr>))
      | (FRun, GRun i) \<Rightarrow> feed_run (Binance_handler E ord restBase) (Binance_due E ord) i s
      | (FRun, GReturn) \<Rightarrow> feed_return s
      | _ \<Rightarrow> None)"

text \<open>The message that subscribes to the books, \<open>subs\<close>.\<close>

definition kraken_subscription :: "string list \<Rightarrow> json" where
  "kraken_subscription pairs =
     JObj [(''event'', JStr ''subscribe''),
           (''subscription'', JObj [(''name'', JStr ''book''), (''depth'', JNum ''100'')]),
           (''pair'', JArr (map JStr pairs))]"

definition Kraken_goroutine ::
  "'d net_env \<Rightarrow> (level list \<Rightarrow> level list) \<Rightarrow> string list \<Rightarrow> feed_input \<Rightarrow> 'd feed \<Rightarrow> 'd feed option"
where
  "Kraken_goroutine E ord pairs g s =
     (case (fd_pc s, g) of
        (FDial, GDial (Some err)) \<Rightarrow> Some (s\<lparr>fd_pc := FClosed\<rparr>)
      | (FDial, GDial None) \<Rightarrow> Some (s\<lparr>fd_run := other_step OConnect (fd_run s), fd_pc := FWrite\<rparr>)
      | (FWrite, GWrite (Some err)) \<Rightarrow> Some (s\<lparr>fd_pc := FRun\<rparr>)
      | (FWrite, GWrite None) \<Rightarrow>
          Some (s\<lparr>fd_run := other_step (OWriteJSON (ne_print E (kraken_subscription pairs))) (fd_run s), fd_pc := FRun\<rparr>)
      | (FRun, GRun i) \<Rightarrow> feed_run (Kraken_handler E ord (channel_pairs pairs)) (Kraken_due E ord (channel_pairs pairs)) i s
      | (FRun, GReturn) \<Rightarrow> feed_return s
      | _ \<Rightarrow> None)"

text \<open>
  The system. \<open>ok\<close> restricts what the environment does to the goroutine; the third rule is
  \<open>consume\<close> receiving, the fourth storing, and the last one everything else in the process.
\<close>

inductive feed_step :: "(feed_input \<Rightarrow> 'd feed \<Rightarrow> 'd feed option) \<Rightarrow> (feed_input \<Rightarrow> 'd feed \<Rightarrow> bool) \<Rightarrow> 'd dec_ops \<Rightarrow>
  'd feed \<Rightarrow> 'd feed \<Rightarrow> bool" for go ok D
where
  produce: "go g s = Some t \<Longrightarrow> ok g s \<Longrightarrow> feed_step go ok D s t"
| receive: "fd_hand s = None \<Longrightarrow> sb_out (fd_sub s) = u # us \<Longrightarrow>
    feed_step go ok D s (s\<lparr>fd_sub := (fd_sub s)\<lparr>sb_out := us\<rparr>, fd_hand := Some u\<rparr>)"
| deposit: "fd_hand s = Some u \<Longrightarrow>
    feed_step go ok D s (s\<lparr>fd_hand := None, fd_agg := consume_one D u (fd_agg s), fd_taken := fd_taken s @ [u]\<rparr>)"
| elsewhere: "feed_step go ok D s (s\<lparr>fd_world := w\<rparr>)"

text \<open>What \<open>SubscribeBook\<close> and \<open>NewBookAggregator\<close> leave behind.\<close>

definition feed_start :: "feed_pc \<Rightarrow> ws_client \<Rightarrow> 'd book_sub \<Rightarrow> net_world \<Rightarrow> 'd feed" where
  "feed_start pc c sb w =
     \<lparr>fd_pc = pc, fd_run = run_start 0 [] (SetHandler (Some 0) c), fd_sub = sb, fd_world = w, fd_hand = None,
      fd_agg = \<lparr>ba_latest = [], ba_cancelled = False\<rparr>, fd_offered = [], fd_emitted = [], fd_taken = []\<rparr>"

definition Binance_feed :: "string \<Rightarrow> string list \<Rightarrow> net_world \<Rightarrow> go_error + 'd feed" where
  "Binance_feed wsBase pairs w =
     (case Binance_SubscribeBook wsBase pairs of
        Inl err \<Rightarrow> Inl err
      | Inr (url, sb) \<Rightarrow> Inr (feed_start (FPrime pairs) (NewClient url ''binance'') sb w))"

definition Kraken_feed :: "string \<Rightarrow> string list \<Rightarrow> net_world \<Rightarrow> go_error + 'd feed" where
  "Kraken_feed wsBase pairs w =
     (case Kraken_SubscribeBook pairs of
        Inl err \<Rightarrow> Inl err
      | Inr sb \<Rightarrow> Inr (feed_start FDial (NewClient wsBase ''kraken'') sb w))"

subsection \<open>The ticker of the dummy connector\<close>

text \<open>
  The points of its goroutine: waiting for the tick, before the update of the next pair, and
  blocked on sending an update. \<open>d.price\<close> is read once per tick and never written.
\<close>

datatype 'd tick_pc = WaitTick | Building "string list" | Offering "'d book_update" "string list" | TickClosed

record 'd tick_feed =
  tf_pc :: "'d tick_pc"
  tf_ticks :: nat
  tf_chan :: "'d book_update list"
  tf_hand :: "'d book_update option"
  tf_agg :: book_aggregator
  tf_emitted :: "'d book_update list"
  tf_taken :: "'d book_update list"

datatype 'd tick_input =
    Tick
  | Build 'd gotime        \<comment> \<open>the random number and the clock\<close>
  | EndPairs
  | Send
  | Done

definition Dummy_goroutine ::
  "'d dec_ops \<Rightarrow> 'd dummy_venue \<Rightarrow> string list \<Rightarrow> 'd tick_input \<Rightarrow> 'd tick_feed \<Rightarrow> 'd tick_feed option"
where
  "Dummy_goroutine D d pairs g s =
     (case (tf_pc s, g) of
        (WaitTick, Done) \<Rightarrow> Some (s\<lparr>tf_pc := TickClosed\<rparr>)
      | (WaitTick, Tick) \<Rightarrow> Some (s\<lparr>tf_pc := Building pairs, tf_ticks := tf_ticks s + 1\<rparr>)
      | (Building [], EndPairs) \<Rightarrow> Some (s\<lparr>tf_pc := WaitTick\<rparr>)
      | (Building (p # ps), Build r now) \<Rightarrow> Some (s\<lparr>tf_pc := Offering (Dummy_tick D r now p d) ps\<rparr>)
      | (Offering u ps, Send) \<Rightarrow>
          if length (tf_chan s) < 16
          then Some (s\<lparr>tf_chan := tf_chan s @ [u], tf_emitted := tf_emitted s @ [u], tf_pc := Building ps\<rparr>)
          else None
      | (Offering u ps, Done) \<Rightarrow> Some (s\<lparr>tf_pc := TickClosed\<rparr>)
      | _ \<Rightarrow> None)"

inductive tick_step :: "'d dec_ops \<Rightarrow> 'd dummy_venue \<Rightarrow> string list \<Rightarrow> 'd tick_feed \<Rightarrow> 'd tick_feed \<Rightarrow> bool"
  for D d pairs
where
  tick_produce: "Dummy_goroutine D d pairs g s = Some t \<Longrightarrow> tick_step D d pairs s t"
| tick_receive: "tf_hand s = None \<Longrightarrow> tf_chan s = u # us \<Longrightarrow>
    tick_step D d pairs s (s\<lparr>tf_chan := us, tf_hand := Some u\<rparr>)"
| tick_deposit: "tf_hand s = Some u \<Longrightarrow>
    tick_step D d pairs s (s\<lparr>tf_hand := None, tf_agg := consume_one D u (tf_agg s), tf_taken := tf_taken s @ [u]\<rparr>)"

definition tick_start :: "'d tick_feed" where
  "tick_start =
     \<lparr>tf_pc = WaitTick, tf_ticks = 0, tf_chan = [], tf_hand = None, tf_agg = \<lparr>ba_latest = [], ba_cancelled = False\<rparr>,
      tf_emitted = [], tf_taken = []\<rparr>"

section \<open>What the aggregator relies on\<close>

subsection \<open>Answers from the aggregator\<close>

definition book_get :: "string \<Rightarrow> request" where
  "book_get p = \<lparr>hr_method = ''GET'', hr_path = ''/v1/book/'' @ p, hr_limit = '''', hr_payload = ''''\<rparr>"

lemma handleBook_get:
  assumes "p \<noteq> ''''" "last p \<noteq> CHR ''/''"
  shows "handleBook (book_get p) s w =
    (case Aggregator_Get (sv_book s) p of None \<Rightarrow> ((404, BError ''no book for pair''), [], s, w)
                                        | Some tb \<Rightarrow> ((200, BTop tb), [], s, w))"
proof -
  have "trim_prefix (''/v1/book/'' @ p) ''/v1/book/'' = p" by (simp add: trim_prefix_def)
  moreover have "trim_suffix p ''/'' = p" using assms by (auto simp: trim_suffix_def suffix_def)
  ultimately show ?thesis using assms(1) by (simp add: handleBook_def book_get_def)
qed

text \<open>What \<open>GET /v1/book/<p>\<close> answers once the updates \<open>us\<close> were stored.\<close>

definition book_answer :: "'d dec_ops \<Rightarrow> 'd book_update list \<Rightarrow> string \<Rightarrow> int64 \<times> 'd body" where
  "book_answer D us p =
     (case filter (\<lambda>u. bu_Pair u = p) us of [] \<Rightarrow> (404, BError ''no book for pair'') | v # vs \<Rightarrow> (200, BTop (top_of D (last (v # vs)))))"

lemma book_answer_handled:
  assumes "p \<noteq> ''''" "last p \<noteq> CHR ''/''"
    and "Aggregator_Get (sv_book s) p =
      (case filter (\<lambda>u. bu_Pair u = p) us of [] \<Rightarrow> None | u # us \<Rightarrow> Some (top_of D (last (u # us))))"
  shows "handleBook (book_get p) s w = (book_answer D us p, [], s, w)"
  unfolding handleBook_get [OF assms(1,2)] assms(3) book_answer_def
  by (cases "filter (\<lambda>u. bu_Pair u = p) us") simp_all

subsection \<open>The channel\<close>

text \<open>
  A bounded channel between a producer and \<open>consume\<close>: no step does more than put one update at the
  end, while there is room, receive the first one, or store the one received.
\<close>

abbreviation in_hand :: "'a option \<Rightarrow> 'a list" where
  "in_hand h \<equiv> (case h of None \<Rightarrow> [] | Some u \<Rightarrow> [u])"

locale feed_channel =
  fixes step :: "'s \<Rightarrow> 's \<Rightarrow> bool"
    and cap :: nat
    and D :: "'d dec_ops"
    and chan :: "'s \<Rightarrow> 'd book_update list"
    and hand :: "'s \<Rightarrow> 'd book_update option"
    and agg :: "'s \<Rightarrow> book_aggregator"
    and emitted :: "'s \<Rightarrow> 'd book_update list"
    and taken :: "'s \<Rightarrow> 'd book_update list"
  assumes kinds: "step s t \<Longrightarrow>
    (hand t = hand s \<and> agg t = agg s \<and> taken t = taken s \<and>
       (chan t = chan s \<and> emitted t = emitted s \<or>
        (\<exists>u. length (chan s) < cap \<and> chan t = chan s @ [u] \<and> emitted t = emitted s @ [u]))) \<or>
    (emitted t = emitted s \<and> agg t = agg s \<and> taken t = taken s \<and> hand s = None \<and>
       (\<exists>u. hand t = Some u \<and> chan s = u # chan t)) \<or>
    (emitted t = emitted s \<and> chan t = chan s \<and> hand t = None \<and>
       (\<exists>u. hand s = Some u \<and> agg t = consume_one D u (agg s) \<and> taken t = taken s @ [u]))"
begin

definition flow :: "'s \<Rightarrow> bool" where
  "flow s \<longleftrightarrow> emitted s = taken s @ in_hand (hand s) @ chan s \<and> length (chan s) \<le> cap \<and>
     agg s = consume D (taken s) \<lparr>ba_latest = [], ba_cancelled = False\<rparr>"

lemma flow_step: "step s t \<Longrightarrow> flow s \<Longrightarrow> flow t"
  using kinds [of s t] by (auto simp: flow_def consume_def)

lemma flow_steps: "step\<^sup>*\<^sup>* s t \<Longrightarrow> flow s \<Longrightarrow> flow t"
  by (induction rule: rtranclp_induct) (blast intro: flow_step)+

lemma latest_taken:
  "flow s \<Longrightarrow> Aggregator_Get (agg s) p =
     (case filter (\<lambda>u. bu_Pair u = p) (taken s) of [] \<Rightarrow> None | u # us \<Rightarrow> Some (top_of D (last (u # us))))"
  by (cases "filter (\<lambda>u. bu_Pair u = p) (taken s)")
    (simp_all add: flow_def consume_def agg.get_fold, simp add: Aggregator_Get_def)

lemma answers:
  assumes "flow s" "p \<noteq> ''''" "last p \<noteq> CHR ''/''"
  shows "handleBook (book_get p) (svc\<lparr>sv_book := agg s\<rparr>) w = (book_answer D (taken s) p, [], svc\<lparr>sv_book := agg s\<rparr>, w)"
  by (rule book_answer_handled [OF assms(2,3)]) (simp add: latest_taken [OF assms(1)])

end

subsection \<open>On the WebSocket feeds\<close>

text \<open>The contract of a handler: the update that is due goes into the channel if there is room.\<close>

definition settles :: "'d book_update option \<Rightarrow> 'd book_sub \<Rightarrow> 'd book_sub \<Rightarrow> bool" where
  "settles upd sb sb' \<longleftrightarrow>
     sb_out sb' = sb_out sb @ (case upd of None \<Rightarrow> [] | Some u \<Rightarrow> if length (sb_out sb) < 64 then [u] else [])"

definition accounted :: "'d feed \<Rightarrow> bool" where
  "accounted s \<longleftrightarrow> fd_emitted s = map fst (filter (\<lambda>(u, n). n < 64) (fd_offered s))"

definition produces :: "'d feed \<Rightarrow> 'd feed \<Rightarrow> bool" where
  "produces s t \<longleftrightarrow> fd_hand t = fd_hand s \<and> fd_agg t = fd_agg s \<and> fd_taken t = fd_taken s \<and> (accounted s \<longrightarrow> accounted t) \<and>
     (sb_out (fd_sub t) = sb_out (fd_sub s) \<and> fd_emitted t = fd_emitted s \<or>
      (\<exists>u. length (sb_out (fd_sub s)) < 64 \<and> sb_out (fd_sub t) = sb_out (fd_sub s) @ [u] \<and> fd_emitted t = fd_emitted s @ [u]))"

lemma produces_simps [simp]:
  "produces s (s\<lparr>fd_pc := pc\<rparr>)" "produces s (s\<lparr>fd_run := r\<rparr>)" "produces s (s\<lparr>fd_world := w\<rparr>)"
  "produces s (s\<lparr>fd_run := r, fd_pc := pc\<rparr>)"
  "produces s (t\<lparr>fd_pc := pc\<rparr>) = produces s t" "produces (s\<lparr>fd_run := r\<rparr>) t = produces s t"
  by (simp_all add: produces_def accounted_def)

lemma produces_put_sub: "settles upd (fd_sub s) sb \<Longrightarrow> produces s (put_sub upd sb w s)"
  by (auto simp: settles_def produces_def put_sub_def accounted_def split: option.split)

lemma produces_feed_run:
  assumes "feed_run H upd i s = Some t" "\<And>msg sb w. settles (upd msg sb w) sb (fst (H msg sb w))"
  shows "produces s t"
proof -
  obtain r where r: "run_step i (fd_run s) = Some r" using assms(1) by (auto simp: feed_run_def split: option.splits)
  have "produces s (put_sub (upd msg (fd_sub s) (fd_world s)) (fst (H msg (fd_sub s) (fd_world s))) w (s\<lparr>fd_run := r\<rparr>))" for msg w
    using produces_put_sub [of "upd msg (fd_sub s) (fd_world s)" "s\<lparr>fd_run := r\<rparr>" "fst (H msg (fd_sub s) (fd_world s))" w]
      assms(2) by simp
  then show ?thesis using assms(1)
    by (auto simp: feed_run_def r split_beta split: run_pc.splits option.splits run_input.splits)
qed

lemma produces_feed_return: "feed_return s = Some t \<Longrightarrow> produces s t"
  by (auto simp: feed_return_def split: run_pc.splits)

lemma settles_None [simp]: "settles None sb sb" "settles None sb (put_recon k r sb)"
  and settles_gap [simp]: "settles upd sb (sb'\<lparr>sb_gap_count := n\<rparr>) = settles upd sb sb'"
  and settles_recon [simp]: "settles upd sb (put_recon k r sb') = settles upd sb sb'"
  by (simp_all add: settles_def)

lemma settles_emitUpdate:
  "sb_out sb = sb_out sb0 \<Longrightarrow>
   settles (top_update (ne_dec E) ord r shown (ne_now E (nw_reads w))) sb0 (fst (emitUpdate E ord r pair shown sb w))"
  by (auto simp: settles_def emitUpdate_def top_update_def time_now_def dec_levels_def Let_def split: option.split list.split)

lemma settles_Binance_handler: "settles (Binance_due E ord msg sb w) sb (fst (Binance_handler E ord restBase msg sb w))"
proof -
  have e: "settles (top_update (ne_dec E) ord r shown (ne_now E (Suc (nw_reads w)))) sb
      (fst (emitUpdate E ord r pair shown (put_recon k r sb) (w\<lparr>nw_reads := Suc (nw_reads w)\<rparr>)))" for r shown pair k
    using settles_emitUpdate [of "put_recon k r sb" sb E ord r shown "w\<lparr>nw_reads := Suc (nw_reads w)\<rparr>"] by simp
  show ?thesis unfolding Binance_handler_def Binance_due_def Let_def time_now_def
    by (simp add: split_beta e split: sum.split option.split)
qed

lemma settles_Kraken_handler: "settles (Kraken_due E ord chans msg sb w) sb (fst (Kraken_handler E ord chans msg sb w))"
  unfolding Kraken_handler_def Kraken_due_def Kraken_emitUpdate_def
  by (simp add: split_beta settles_emitUpdate split: option.split json.split list.split bool.split)

lemma settles_Binance_prime: "settles (Binance_first_due E ord restBase p sb w) sb (fst (Binance_prime E ord restBase [p] sb w))"
  by (simp add: Binance_first_due_def split_beta settles_emitUpdate split: option.split sum.split)

lemma Binance_goroutine_produces:
  assumes "Binance_goroutine E ord restBase g s = Some t"
  shows "produces s t"
proof -
  have "produces s (put_sub (Binance_first_due E ord restBase p (fd_sub s) (fd_world s)) sb w s)"
    if "Binance_prime E ord restBase [p] (fd_sub s) (fd_world s) = (sb, w)" for p sb w
    using that settles_Binance_prime [of E ord restBase p "fd_sub s" "fd_world s"] by (intro produces_put_sub) simp
  then show ?thesis using assms
    by (auto simp: Binance_goroutine_def simp del: Binance_prime.simps
        intro: produces_feed_run [OF _ settles_Binance_handler] produces_feed_return
        split: feed_pc.splits list.splits feed_input.splits prod.splits)
qed

lemma Kraken_goroutine_produces: "Kraken_goroutine E ord pairs g s = Some t \<Longrightarrow> produces s t"
  by (auto simp: Kraken_goroutine_def intro: produces_feed_run [OF _ settles_Kraken_handler] produces_feed_return
      split: feed_pc.splits option.splits feed_input.splits)

lemma feed_step_kinds:
  assumes "feed_step go ok D s t" "\<And>g s t. go g s = Some t \<Longrightarrow> produces s t"
  shows "(fd_hand t = fd_hand s \<and> fd_agg t = fd_agg s \<and> fd_taken t = fd_taken s \<and>
       (sb_out (fd_sub t) = sb_out (fd_sub s) \<and> fd_emitted t = fd_emitted s \<or>
        (\<exists>u. length (sb_out (fd_sub s)) < 64 \<and> sb_out (fd_sub t) = sb_out (fd_sub s) @ [u] \<and> fd_emitted t = fd_emitted s @ [u]))) \<or>
    (fd_emitted t = fd_emitted s \<and> fd_agg t = fd_agg s \<and> fd_taken t = fd_taken s \<and> fd_hand s = None \<and>
       (\<exists>u. fd_hand t = Some u \<and> sb_out (fd_sub s) = u # sb_out (fd_sub t))) \<or>
    (fd_emitted t = fd_emitted s \<and> sb_out (fd_sub t) = sb_out (fd_sub s) \<and> fd_hand t = None \<and>
       (\<exists>u. fd_hand s = Some u \<and> fd_agg t = consume_one D u (fd_agg s) \<and> fd_taken t = fd_taken s @ [u]))"
  using assms(1)
proof cases
  case (produce g)
  then show ?thesis using assms(2) unfolding produces_def by blast
qed simp_all

lemma accounted_steps:
  assumes "(feed_step go ok D)\<^sup>*\<^sup>* s t" "\<And>g s t. go g s = Some t \<Longrightarrow> produces s t" "accounted s"
  shows "accounted t"
  using assms(1)
proof (induction rule: rtranclp_induct)
  case (step t u)
  from step(2,3) show ?case by cases (use assms(2) in \<open>auto simp: produces_def accounted_def\<close>)
qed (rule assms(3))

interpretation bf: feed_channel "feed_step (Binance_goroutine E ord restBase) ok D" 64 D
    "\<lambda>s. sb_out (fd_sub s)" fd_hand fd_agg fd_emitted fd_taken
  for E :: "'d net_env" and ord restBase ok D
  by unfold_locales (rule feed_step_kinds [OF _ Binance_goroutine_produces])

interpretation kf: feed_channel "feed_step (Kraken_goroutine E ord pairs) ok D" 64 D
    "\<lambda>s. sb_out (fd_sub s)" fd_hand fd_agg fd_emitted fd_taken
  for E :: "'d net_env" and ord pairs ok D
  by unfold_locales (rule feed_step_kinds [OF _ Kraken_goroutine_produces])

subsection \<open>On the ticker\<close>

lemma Dummy_goroutine_cases:
  assumes "Dummy_goroutine D d pairs g s = Some t"
  obtains
    (ended) "tf_pc s = WaitTick \<or> (\<exists>u ps. tf_pc s = Offering u ps)" "t = s\<lparr>tf_pc := TickClosed\<rparr>"
  | (tick) "tf_pc s = WaitTick" "t = s\<lparr>tf_pc := Building pairs, tf_ticks := tf_ticks s + 1\<rparr>"
  | (loop) "tf_pc s = Building []" "t = s\<lparr>tf_pc := WaitTick\<rparr>"
  | (build) r now p ps where "tf_pc s = Building (p # ps)" "t = s\<lparr>tf_pc := Offering (Dummy_tick D r now p d) ps\<rparr>"
  | (send) u ps where "tf_pc s = Offering u ps" "length (tf_chan s) < 16"
      "t = s\<lparr>tf_chan := tf_chan s @ [u], tf_emitted := tf_emitted s @ [u], tf_pc := Building ps\<rparr>"
  using assms
  by (cases "tf_pc s"; cases g) (auto simp: Dummy_goroutine_def split: list.splits if_splits)

interpretation tf: feed_channel "tick_step D d pairs" 16 D tf_chan tf_hand tf_agg tf_emitted tf_taken
  for D :: "'d dec_ops" and d pairs
proof
  fix s t :: "'d tick_feed"
  assume "tick_step D d pairs s t"
  then show "(tf_hand t = tf_hand s \<and> tf_agg t = tf_agg s \<and> tf_taken t = tf_taken s \<and>
       (tf_chan t = tf_chan s \<and> tf_emitted t = tf_emitted s \<or>
        (\<exists>u. length (tf_chan s) < 16 \<and> tf_chan t = tf_chan s @ [u] \<and> tf_emitted t = tf_emitted s @ [u]))) \<or>
    (tf_emitted t = tf_emitted s \<and> tf_agg t = tf_agg s \<and> tf_taken t = tf_taken s \<and> tf_hand s = None \<and>
       (\<exists>u. tf_hand t = Some u \<and> tf_chan s = u # tf_chan t)) \<or>
    (tf_emitted t = tf_emitted s \<and> tf_chan t = tf_chan s \<and> tf_hand t = None \<and>
       (\<exists>u. tf_hand s = Some u \<and> tf_agg t = consume_one D u (tf_agg s) \<and> tf_taken t = tf_taken s @ [u]))"
  proof cases
    case (tick_produce g)
    then show ?thesis by (cases rule: Dummy_goroutine_cases) simp_all
  qed simp_all
qed

section \<open>The Kraken feed\<close>

text \<open>
  What Kraken promises: on a connection that did not subscribe it sends events, which are JSON
  objects, but no channel data, which are arrays.
\<close>

definition data_if_subscribed :: "'d net_env \<Rightarrow> feed_input \<Rightarrow> 'd feed \<Rightarrow> bool" where
  "data_if_subscribed E g s =
     (case (rs_pc (fd_run s), g) of
        (Reading conn h, GRun (Message msg)) \<Rightarrow>
          conn \<in> fst ` set (rs_sent (fd_run s)) \<or> (case ne_json E msg of Some (JArr arr) \<Rightarrow> False | _ \<Rightarrow> True)
      | _ \<Rightarrow> True)"

definition silent_inv :: "ws_client \<Rightarrow> 'd feed \<Rightarrow> bool" where
  "silent_inv c s \<longleftrightarrow> fd_emitted s = [] \<and>
     (fd_pc s = FDial \<longrightarrow> fd_run s = run_start 0 [] c) \<and>
     (fd_pc s = FWrite \<longrightarrow> fd_run s = other_step OConnect (run_start 0 [] c)) \<and>
     (fd_pc s = FRun \<longrightarrow> fresh_inv 1 (fd_run s) \<and> fst ` set (rs_sent (fd_run s)) \<subseteq> {0}) \<and>
     (\<forall>ps. fd_pc s \<noteq> FPrime ps)"

lemma fresh_inv_sent [simp]: "fresh_inv n (r\<lparr>rs_sent := x\<rparr>) = fresh_inv n r"
  by (simp add: fresh_inv_def)

lemma run_step_sent: "run_step i r = Some r' \<Longrightarrow> rs_sent r' = rs_sent r"
  by (elim run_step_cases) simp_all

lemma Kraken_handler_no_array:
  "(case ne_json E msg of Some (JArr arr) \<Rightarrow> False | _ \<Rightarrow> True) \<Longrightarrow> Kraken_handler E ord f msg sb w = (sb, w)"
  by (auto simp: Kraken_handler_def split: option.splits json.splits)

lemma put_sub_same: "fd_emitted (put_sub upd (fd_sub s) w s) = fd_emitted s" "fd_pc (put_sub upd sb w s) = fd_pc s"
  "fd_run (put_sub upd sb w s) = fd_run s"
  by (simp_all add: put_sub_def)

lemma silent_run:
  assumes "feed_run (Kraken_handler E ord f) upd i s = Some t" "data_if_subscribed E (GRun i) s" "fd_pc s = FRun" "silent_inv c s"
  shows "silent_inv c t"
proof -
  obtain r where r: "run_step i (fd_run s) = Some r" using assms(1) by (auto simp: feed_run_def split: option.splits)
  have f: "fresh_inv 1 (fd_run s)" "fst ` set (rs_sent (fd_run s)) \<subseteq> {0}" "fd_emitted s = []"
    using assms(3,4) by (auto simp: silent_inv_def)
  have "t = s\<lparr>fd_run := r\<rparr> \<or> (\<exists>upd w. t = put_sub upd (fd_sub s) w (s\<lparr>fd_run := r\<rparr>))"
  proof (cases "\<exists>conn h msg. rs_pc (fd_run s) = Reading conn (Some h) \<and> i = Message msg")
    case True
    then obtain conn h msg where m: "rs_pc (fd_run s) = Reading conn (Some h)" "i = Message msg" by blast
    have "1 \<le> conn" using f(1) m(1) by (simp add: fresh_inv_def)
    then have "conn \<notin> fst ` set (rs_sent (fd_run s))" using f(2) by auto
    then have "case ne_json E msg of Some (JArr arr) \<Rightarrow> False | _ \<Rightarrow> True"
      using assms(2) by (simp add: data_if_subscribed_def m)
    from Kraken_handler_no_array [OF this] show ?thesis using assms(1) r by (auto simp: feed_run_def m)
  next
    case False
    then show ?thesis using assms(1) r
      by (cases "rs_pc (fd_run s)"; cases i) (auto simp: feed_run_def split: option.splits)
  qed
  moreover have "fresh_inv 1 r" "rs_sent r = rs_sent (fd_run s)"
    using fresh_inv_step [OF r f(1)] run_step_sent [OF r] by simp_all
  ultimately show ?thesis using assms(3) f(2,3) put_sub_same(1) [of _ "s\<lparr>fd_run := r\<rparr>"]
    by (elim disjE exE) (simp_all add: silent_inv_def put_sub_same)
qed

lemma silent_goroutine:
  assumes "Kraken_goroutine E ord pairs g s = Some t" "data_if_subscribed E g s" "silent_inv c s"
  shows "silent_inv c t"
proof (cases "\<exists>i. g = GRun i \<and> fd_pc s = FRun")
  case True
  then show ?thesis using assms silent_run by (auto simp: Kraken_goroutine_def)
next
  case False
  have "fresh_inv 1 (other_step OConnect (run_start 0 [] c))" "rs_sent (other_step OConnect (run_start 0 [] c)) = []"
    "wc_conn (rs_client (other_step OConnect (run_start 0 [] c))) = Some 0"
    by (simp_all add: fresh_inv_def run_start_def connect_def)
  then show ?thesis using False assms(1,3) fresh_inv_other [of 1 "other_step OConnect (run_start 0 [] c)"]
    by (cases "fd_pc s"; cases g)
      (auto simp: Kraken_goroutine_def silent_inv_def feed_return_def Client_WriteJSON_def simp del: other_step.simps(3)
        split: option.splits run_pc.splits)
qed

lemma silent_step:
  assumes "feed_step (Kraken_goroutine E ord pairs) (data_if_subscribed E) D s t" "silent_inv c s"
  shows "silent_inv c t"
  using assms(1)
proof cases
  case (produce g)
  then show ?thesis using silent_goroutine assms(2) by blast
qed (use assms(2) in \<open>auto simp: silent_inv_def\<close>)

lemma silent_steps:
  "(feed_step (Kraken_goroutine E ord pairs) (data_if_subscribed E) D)\<^sup>*\<^sup>* s t \<Longrightarrow> silent_inv c s \<Longrightarrow> silent_inv c t"
  by (induction rule: rtranclp_induct) (blast intro: silent_step)+


section \<open>The ticker\<close>

text \<open>The pairs that are still to be served in this tick.\<close>

fun unserved :: "'d tick_pc \<Rightarrow> string list" where
  "unserved WaitTick = []"
| "unserved (Building ps) = ps"
| "unserved (Offering u ps) = bu_Pair u # ps"
| "unserved TickClosed = []"

definition rounds_inv :: "string list \<Rightarrow> 'd tick_feed \<Rightarrow> bool" where
  "rounds_inv pairs s \<longleftrightarrow>
     (let all = concat (replicate (tf_ticks s) pairs); served = map bu_Pair (tf_emitted s)
      in prefix served all \<and> (tf_pc s \<noteq> TickClosed \<longrightarrow> served @ unserved (tf_pc s) = all))"

lemma concat_replicate_Suc: "concat (replicate (Suc n) xs) = concat (replicate n xs) @ xs"
  by (induction n) simp_all

lemma Dummy_tick_pair [simp]: "bu_Pair (Dummy_tick D r now p d) = p"
  by (simp add: Dummy_tick_def Let_def)

lemma rounds_goroutine:
  assumes "Dummy_goroutine D d pairs g s = Some t" "rounds_inv pairs s"
  shows "rounds_inv pairs t"
  using assms(1)
proof (cases rule: Dummy_goroutine_cases)
  case (send u ps)
  then have "map bu_Pair (tf_emitted s) @ bu_Pair u # ps = concat (replicate (tf_ticks s) pairs)"
    using assms(2) by (simp add: rounds_inv_def Let_def)
  then show ?thesis using send by (simp add: rounds_inv_def Let_def prefix_def) (metis append.assoc append_Cons append_Nil)
qed (use assms(2) in \<open>simp_all add: rounds_inv_def Let_def concat_replicate_Suc del: replicate_Suc\<close>)

lemma rounds_steps: "(tick_step D d pairs)\<^sup>*\<^sup>* s t \<Longrightarrow> rounds_inv pairs s \<Longrightarrow> rounds_inv pairs t"
proof (induction rule: rtranclp_induct)
  case (step t u)
  then have "rounds_inv pairs t" by simp
  with step(2) show ?case
  proof cases
    case (tick_produce g)
    then show ?thesis using rounds_goroutine \<open>rounds_inv pairs t\<close> by blast
  qed (simp_all add: rounds_inv_def)
qed

lemma served_once:
  assumes "prefix xs (concat (replicate n pairs))" "length pairs \<le> length xs" "p \<in> set pairs"
  shows "p \<in> set xs"
proof (cases n)
  case 0
  then show ?thesis using assms by simp
next
  case (Suc m)
  then have "prefix pairs (concat (replicate n pairs))" by simp
  then have "prefix pairs xs" using assms(1,2) by (meson prefix_length_prefix)
  then show ?thesis using assms(3) by (metis in_mono set_mono_prefix)
qed

text \<open>Until the context is cancelled the ticker can always go on: a full channel is read.\<close>

lemma tick_drain:
  "\<exists>t. (tick_step D d pairs)\<^sup>*\<^sup>* s t \<and> tf_chan t = [] \<and> tf_pc t = tf_pc s \<and> tf_emitted t = tf_emitted s"
proof (induction "tf_chan s" arbitrary: s)
  case (Cons u us)
  define s1 where "s1 = (case tf_hand s of None \<Rightarrow> s
    | Some v \<Rightarrow> s\<lparr>tf_hand := None, tf_agg := consume_one D v (tf_agg s), tf_taken := tf_taken s @ [v]\<rparr>)"
  have 1: "(tick_step D d pairs)\<^sup>*\<^sup>* s s1" "tf_hand s1 = None" "tf_chan s1 = u # us" "tf_pc s1 = tf_pc s" "tf_emitted s1 = tf_emitted s"
    using Cons.hyps(2) tick_step.tick_deposit [of s _ D d pairs] by (auto simp: s1_def split: option.split)
  have "tick_step D d pairs s1 (s1\<lparr>tf_chan := us, tf_hand := Some u\<rparr>)" using 1(2,3) by (rule tick_step.tick_receive)
  moreover obtain t where "(tick_step D d pairs)\<^sup>*\<^sup>* (s1\<lparr>tf_chan := us, tf_hand := Some u\<rparr>) t" "tf_chan t = []"
      "tf_pc t = tf_pc s" "tf_emitted t = tf_emitted s"
    using Cons.hyps(1) [of "s1\<lparr>tf_chan := us, tf_hand := Some u\<rparr>"] 1(4,5) by auto
  ultimately show ?case using 1(1) by (meson converse_rtranclp_into_rtranclp rtranclp_trans)
qed auto

lemma offering_sends:
  assumes "tf_pc s = Offering u ps"
  shows "\<exists>t. (tick_step D d pairs)\<^sup>*\<^sup>* s t \<and> tf_emitted t = tf_emitted s @ [u]"
proof -
  obtain t where t: "(tick_step D d pairs)\<^sup>*\<^sup>* s t" "tf_chan t = []" "tf_pc t = Offering u ps" "tf_emitted t = tf_emitted s"
    using tick_drain [of D d pairs s] assms by auto
  then have "Dummy_goroutine D d pairs Send t = Some (t\<lparr>tf_chan := [u], tf_emitted := tf_emitted t @ [u], tf_pc := Building ps\<rparr>)"
    by (simp add: Dummy_goroutine_def)
  from rtranclp.rtrancl_into_rtrancl [OF t(1) tick_step.tick_produce [OF this]] t(4) show ?thesis
    by (intro exI conjI) (assumption, simp)
qed

lemma building_sends:
  assumes "tf_pc s = Building (p # ps)"
  shows "\<exists>t u. (tick_step D d pairs)\<^sup>*\<^sup>* s t \<and> tf_emitted t = tf_emitted s @ [u]"
proof -
  let ?u = "Dummy_tick D (dec_zero D) 0 p d"
  have "Dummy_goroutine D d pairs (Build (dec_zero D) 0) s = Some (s\<lparr>tf_pc := Offering ?u ps\<rparr>)"
    using assms by (simp add: Dummy_goroutine_def)
  from tick_step.tick_produce [OF this] offering_sends [of "s\<lparr>tf_pc := Offering ?u ps\<rparr>" ?u ps D d pairs]
  show ?thesis by simp (meson converse_rtranclp_into_rtranclp)
qed

lemma waiting_sends:
  assumes "tf_pc s = WaitTick" "pairs \<noteq> []"
  shows "\<exists>t u. (tick_step D d pairs)\<^sup>*\<^sup>* s t \<and> tf_emitted t = tf_emitted s @ [u]"
proof -
  obtain p ps where pairs: "pairs = p # ps" using assms(2) by (cases pairs) simp_all
  let ?t = "s\<lparr>tf_pc := Building pairs, tf_ticks := tf_ticks s + 1\<rparr>"
  have "Dummy_goroutine D d pairs Tick s = Some ?t" using assms(1) by (simp add: Dummy_goroutine_def)
  from tick_step.tick_produce [OF this] building_sends [of ?t p ps D d pairs] pairs
  show ?thesis by simp (meson converse_rtranclp_into_rtranclp)
qed


section \<open>Properties\<close>

text \<open>
  C19: from the exchange to the answer. Under every interleaving and whatever the exchange sends,
  an update that is due from the Binance or the Kraken subscription is lost only when 64 wait in the
  channel at that time: the updates put into the channel are exactly the other ones, in order. What is
  put into the channel arrives at the aggregator in order, without loss or duplication, and at most
  64 wait; \<open>GET /v1/book/<p>\<close> answers with the top of the last one that has arrived for the pair,
  or 404 before the first.
\<close>

theorem book_feed_flow:
  assumes "Binance_feed wsBase pairs w0 = Inr s0 \<and> go = Binance_goroutine E ord restBase \<or>
      Kraken_feed wsBase pairs w0 = Inr s0 \<and> go = Kraken_goroutine E ord pairs"
    and "(feed_step go ok D)\<^sup>*\<^sup>* s0 s" "p \<noteq> ''''" "last p \<noteq> CHR ''/''"
  shows "fd_emitted s = map fst (filter (\<lambda>(u, n). n < 64) (fd_offered s)) \<and>
    fd_emitted s = fd_taken s @ in_hand (fd_hand s) @ sb_out (fd_sub s) \<and> length (sb_out (fd_sub s)) \<le> 64 \<and>
    handleBook (book_get p) (svc\<lparr>sv_book := fd_agg s\<rparr>) w = (book_answer D (fd_taken s) p, [], svc\<lparr>sv_book := fd_agg s\<rparr>, w)"
  using assms(1)
proof (elim disjE conjE)
  assume b: "Binance_feed wsBase pairs w0 = Inr s0" "go = Binance_goroutine E ord restBase"
  have "bf.flow D s0" and a: "accounted s0" using b(1)
    by (auto simp: Binance_feed_def Binance_SubscribeBook_def feed_start_def bf.flow_def consume_def accounted_def split: if_splits)
  from bf.flow_steps [OF assms(2) [unfolded b(2)] this(1)] have "bf.flow D s" .
  with bf.answers [OF this assms(3,4), of svc w] accounted_steps [OF assms(2) [unfolded b(2)] Binance_goroutine_produces a]
  show ?thesis by (simp add: bf.flow_def accounted_def)
next
  assume k: "Kraken_feed wsBase pairs w0 = Inr s0" "go = Kraken_goroutine E ord pairs"
  have "kf.flow D s0" and a: "accounted s0" using k(1)
    by (auto simp: Kraken_feed_def Kraken_SubscribeBook_def feed_start_def kf.flow_def consume_def accounted_def split: if_splits)
  from kf.flow_steps [OF assms(2) [unfolded k(2)] this(1)] have "kf.flow D s" .
  with kf.answers [OF this assms(3,4), of svc w] accounted_steps [OF assms(2) [unfolded k(2)] Kraken_goroutine_produces a]
  show ?thesis by (simp add: kf.flow_def accounted_def)
qed

text \<open>
  C20: the Kraken book stays empty. The goroutine subscribes on the connection it opens itself, and
  \<open>Run\<close> then reads from another one. If Kraken sends channel data only where it was subscribed to,
  no update is ever emitted, under any interleaving, and \<open>GET /v1/book/<p>\<close> answers 404 for ever.
\<close>

theorem kraken_feed_silent:
  fixes E :: "'d net_env" and svc :: "'d service"
  assumes "Kraken_feed wsBase pairs w0 = Inr s0"
    and "(feed_step (Kraken_goroutine E ord pairs) (data_if_subscribed E) D)\<^sup>*\<^sup>* s0 s"
    and "p \<noteq> ''''" "last p \<noteq> CHR ''/''"
  shows "fd_emitted s = [] \<and>
    handleBook (book_get p) (svc\<lparr>sv_book := fd_agg s\<rparr>) w = ((404, BError ''no book for pair''), [], svc\<lparr>sv_book := fd_agg s\<rparr>, w)"
proof -
  have s0: "silent_inv (SetHandler (Some 0) (NewClient wsBase ''kraken'')) s0" "kf.flow D s0" using assms(1)
    by (auto simp: Kraken_feed_def Kraken_SubscribeBook_def feed_start_def silent_inv_def kf.flow_def consume_def split: if_splits)
  have e: "fd_emitted s = []" using silent_steps [OF assms(2) s0(1)] by (simp add: silent_inv_def)
  have f: "kf.flow D s" by (rule kf.flow_steps [OF assms(2) s0(2)])
  then have "fd_taken s = []" using e by (simp add: kf.flow_def)
  then show ?thesis using e kf.answers [OF f assms(3,4), of svc w] by (simp add: book_answer_def)
qed

text \<open>
  C21: the dummy feed serves its pairs in turn. Whatever the scheduler does, the updates that were
  sent are for the pairs in their order, round after round, at most one round per tick; they arrive
  in order and none is lost, with at most 16 waiting; and once as many have arrived as there are
  pairs, \<open>GET /v1/book/<p>\<close> answers 200 for every pair, with the top of an update for it.
\<close>

theorem dummy_feed_round_robin:
  fixes D :: "'d dec_ops" and svc :: "'d service"
  assumes "(tick_step D d pairs)\<^sup>*\<^sup>* tick_start s" "p \<in> set pairs" "p \<noteq> ''''" "last p \<noteq> CHR ''/''"
  shows "prefix (map bu_Pair (tf_emitted s)) (concat (replicate (tf_ticks s) pairs)) \<and>
    tf_emitted s = tf_taken s @ in_hand (tf_hand s) @ tf_chan s \<and> length (tf_chan s) \<le> 16 \<and>
    (length pairs \<le> length (tf_taken s) \<longrightarrow>
      (\<exists>u \<in> set (tf_taken s). bu_Pair u = p \<and>
        handleBook (book_get p) (svc\<lparr>sv_book := tf_agg s\<rparr>) w = ((200, BTop (top_of D u)), [], svc\<lparr>sv_book := tf_agg s\<rparr>, w)))"
proof -
  have "tf.flow D tick_start" by (simp add: tf.flow_def tick_start_def consume_def)
  from tf.flow_steps [OF assms(1) this] have f: "tf.flow D s" .
  have "rounds_inv pairs tick_start" by (simp add: rounds_inv_def tick_start_def)
  from rounds_steps [OF assms(1) this] have r: "prefix (map bu_Pair (tf_emitted s)) (concat (replicate (tf_ticks s) pairs))"
    by (simp add: rounds_inv_def Let_def)
  have "\<exists>u \<in> set (tf_taken s). bu_Pair u = p \<and>
      handleBook (book_get p) (svc\<lparr>sv_book := tf_agg s\<rparr>) w = ((200, BTop (top_of D u)), [], svc\<lparr>sv_book := tf_agg s\<rparr>, w)"
    if "length pairs \<le> length (tf_taken s)"
  proof -
    have "prefix (map bu_Pair (tf_taken s)) (concat (replicate (tf_ticks s) pairs))"
      using r f by (auto simp: tf.flow_def dest: append_prefixD)
    from served_once [OF this _ assms(2)] that have "p \<in> set (map bu_Pair (tf_taken s))" by simp
    then obtain v vs where v: "filter (\<lambda>u. bu_Pair u = p) (tf_taken s) = v # vs"
      by (cases "filter (\<lambda>u. bu_Pair u = p) (tf_taken s)") (auto simp: filter_empty_conv)
    have "last (v # vs) \<in> set (filter (\<lambda>u. bu_Pair u = p) (tf_taken s))" unfolding v by (rule last_in_set) simp
    moreover have "handleBook (book_get p) (svc\<lparr>sv_book := tf_agg s\<rparr>) w =
        ((200, BTop (top_of D (last (v # vs)))), [], svc\<lparr>sv_book := tf_agg s\<rparr>, w)"
      using tf.answers [OF f assms(3,4), of svc w] by (simp add: book_answer_def v)
    ultimately show ?thesis by auto
  qed
  then show ?thesis using r f by (auto simp: tf.flow_def)
qed

text \<open>
  C28: the dummy feed never gets stuck. From every reachable state in which the context has not
  ended it, the system can reach a state in which another update was sent.
\<close>

theorem dummy_feed_progress:
  assumes "(tick_step D d pairs)\<^sup>*\<^sup>* tick_start s" "tf_pc s \<noteq> TickClosed" "pairs \<noteq> []"
  shows "\<exists>t u. (tick_step D d pairs)\<^sup>*\<^sup>* s t \<and> tf_emitted t = tf_emitted s @ [u]"
proof (cases "tf_pc s")
  case WaitTick
  then show ?thesis using waiting_sends assms(3) by blast
next
  case (Building ps)
  show ?thesis
  proof (cases ps)
    case Nil
    let ?t = "s\<lparr>tf_pc := WaitTick\<rparr>"
    have "Dummy_goroutine D d pairs EndPairs s = Some ?t" using Building Nil by (simp add: Dummy_goroutine_def)
    from tick_step.tick_produce [OF this] waiting_sends [of ?t pairs D d] assms(3) show ?thesis
      by simp (meson converse_rtranclp_into_rtranclp)
  next
    case (Cons p ps')
    then show ?thesis using building_sends Building by blast
  qed
next
  case (Offering u ps)
  then show ?thesis using offering_sends by blast
qed (use assms(2) in simp)


section \<open>Concrete runs\<close>

fun goroutine_runs ::
  "(feed_input \<Rightarrow> 'd feed \<Rightarrow> 'd feed option) \<Rightarrow> (feed_input \<Rightarrow> 'd feed \<Rightarrow> bool) \<Rightarrow> feed_input list \<Rightarrow> 'd feed \<Rightarrow> 'd feed option"
where
  "goroutine_runs go ok [] s = Some s"
| "goroutine_runs go ok (g # gs) s =
     (if ok g s then (case go g s of None \<Rightarrow> None | Some t \<Rightarrow> goroutine_runs go ok gs t) else None)"

lemma goroutine_runs_steps: "goroutine_runs go ok gs s = Some t \<Longrightarrow> (feed_step go ok D)\<^sup>*\<^sup>* s t"
proof (induction gs arbitrary: s)
  case (Cons g gs)
  then obtain u where "ok g s" "go g s = Some u" "goroutine_runs go ok gs u = Some t"
    by (auto split: if_splits option.splits)
  then show ?case using Cons.IH feed_step.produce by (meson converse_rtranclp_into_rtranclp)
qed simp

lemma run_step_evals:
  "rs_pc r = Top \<Longrightarrow> \<not> wc_closed (rs_client r) \<Longrightarrow> run_step Proceed r = Some (r\<lparr>rs_pc := Dialing\<rparr>)"
  "rs_pc r = Dialing \<Longrightarrow> run_step DialOk r =
     Some (r\<lparr>rs_client := (rs_client r)\<lparr>wc_conn := Some (rs_next r)\<rparr>, rs_next := rs_next r + 1,
             rs_reconnects := rs_reconnects r + 1, rs_backoff := 100 * millisecond, rs_pc := ReadTop\<rparr>)"
  "rs_pc r = ReadTop \<Longrightarrow> wc_conn (rs_client r) = Some conn \<Longrightarrow> \<not> wc_closed (rs_client r) \<Longrightarrow>
     run_step Proceed r = Some (r\<lparr>rs_pc := Reading conn (wc_handler (rs_client r))\<rparr>)"
  "rs_pc r = Reading conn (Some f) \<Longrightarrow>
     run_step (Message msg) r = Some (r\<lparr>rs_delivered := rs_delivered r @ [(f, conn, msg)], rs_pc := ReadTop\<rparr>)"
  by (simp_all add: run_step.simps connect_def)

definition kraken_inputs :: "feed_input list" where
  "kraken_inputs = [GDial None, GWrite None, GRun Proceed, GRun DialOk, GRun Proceed, GRun (Message ''m'')]"

definition kraken_world :: "json \<Rightarrow> int net_env" where
  "kraken_world j = sample_env (\<lambda>n r. Inl ErrJson) (\<lambda>s. Some j)"

text \<open>Up to the first message, which arrives on connection 1.\<close>

lemma kraken_first_message:
  assumes "Kraken_feed wsBase pairs w = Inr s0" "ok = data_if_subscribed (kraken_world j) \<and> (\<forall>arr. j \<noteq> JArr arr) \<or> ok = (\<lambda>g s. True)"
    and "Kraken_handler (kraken_world j) ord (channel_pairs pairs) ''m'' (fd_sub s0) w = (sb, w')"
  shows "\<exists>s. goroutine_runs (Kraken_goroutine (kraken_world j) ord pairs) ok kraken_inputs s0 = Some s \<and>
    rs_delivered (fd_run s) = [(0, 1, ''m'')] \<and> rs_sent (fd_run s) = [(0, '''')] \<and> fd_hand s = None \<and> fd_taken s = [] \<and> fd_sub s = sb"
proof -
  obtain sb0 where s0: "s0 = feed_start FDial (NewClient wsBase ''kraken'') sb0 w"
    using assms(1) by (auto simp: Kraken_feed_def split: sum.splits)
  have ok: "ok g s" if "\<And>msg. g \<noteq> GRun (Message msg)" for g s
    using assms(2) that by (cases "rs_pc (fd_run s)"; cases g) (auto simp: data_if_subscribed_def split: run_input.splits)
  have okm: "ok (GRun (Message ''m'')) s" for s
    using assms(2) by (cases "rs_pc (fd_run s)") (auto simp: data_if_subscribed_def kraken_world_def split: json.splits)
  show ?thesis using assms(3) okm ok
    by (simp add: kraken_inputs_def s0 feed_start_def Kraken_goroutine_def run_start_def NewClient_def SetHandler_def connect_def
        Client_WriteJSON_def feed_run_def run_step_evals put_sub_def kraken_world_def sample_env_def)
qed


text \<open>A status event arrives, and the book stays empty.\<close>

theorem kraken_feed_silent_witness:
  "let E = kraken_world (JObj [(''event'', JStr ''systemStatus'')]); svc = sample_service (COtc sample_otc)
   in \<exists>s0 s. Kraken_feed ''wss'' [''XBT/USD''] world0 = Inr s0 \<and>
        (feed_step (Kraken_goroutine E (\<lambda>m. m) [''XBT/USD'']) (data_if_subscribed E) dec_int)\<^sup>*\<^sup>* s0 s \<and>
        rs_delivered (fd_run s) = [(0, 1, ''m'')] \<and>
        handleBook (book_get ''XBT/USD'') (svc\<lparr>sv_book := fd_agg s\<rparr>) world0 =
          ((404, BError ''no book for pair''), [], svc\<lparr>sv_book := fd_agg s\<rparr>, world0)"
proof -
  let ?j = "JObj [(''event'', JStr ''systemStatus'')]" and ?P = "[''XBT/USD'']"
  obtain s0 :: "int feed" where s0: "Kraken_feed ''wss'' ?P world0 = Inr s0"
    by (simp add: Kraken_feed_def Kraken_SubscribeBook_def)
  have "Kraken_handler (kraken_world ?j) (\<lambda>m. m) (channel_pairs ?P) ''m'' (fd_sub s0) world0 = (fd_sub s0, world0)"
    by (simp add: Kraken_handler_def kraken_world_def)
  from kraken_first_message [OF s0 _ this, of "data_if_subscribed (kraken_world ?j)"]
  obtain s where s: "goroutine_runs (Kraken_goroutine (kraken_world ?j) (\<lambda>m. m) ?P) (data_if_subscribed (kraken_world ?j)) kraken_inputs s0 = Some s"
    "rs_delivered (fd_run s) = [(0, 1, ''m'')]" by auto
  have steps: "(feed_step (Kraken_goroutine (kraken_world ?j) (\<lambda>m. m) ?P) (data_if_subscribed (kraken_world ?j)) dec_int)\<^sup>*\<^sup>* s0 s"
    by (rule goroutine_runs_steps [OF s(1)])
  have p: "''XBT/USD'' \<noteq> ''''" "last ''XBT/USD'' \<noteq> CHR ''/''" by simp_all
  from kraken_feed_silent [OF s0 steps p, of "sample_service (COtc sample_otc)" world0] s0 steps s(2) show ?thesis
    unfolding Let_def by blast
qed

text \<open>A snapshot arrives, and its best levels are answered.\<close>

definition kraken_snapshot :: json where
  "kraken_snapshot = JArr [JNum ''1'', JArr [JArr [JStr ''9'', JStr ''2'']], JArr [JArr [JStr ''11'', JStr ''3'']], JStr ''book'']"

lemma kraken_snapshot_handled:
  assumes "Kraken_feed ''wss'' [''XBT/USD''] world0 = Inr s0"
  shows "\<exists>sb w u. Kraken_handler (kraken_world kraken_snapshot) (\<lambda>m. m) (channel_pairs [''XBT/USD'']) ''m'' (fd_sub s0) world0 = (sb, w) \<and>
    sb_out sb = [u] \<and> bu_Pair u = ''XBT/USD'' \<and> bu_Bids u = [\<lparr>lv_Price = 9, lv_Size = 2\<rparr>]"
  using assms
  by (auto simp: Kraken_feed_def Kraken_SubscribeBook_def feed_start_def Kraken_handler_def Kraken_emitUpdate_def kraken_world_def
      kraken_snapshot_def decode_int64_def parse_int64_def parse_nat_def digit_val_def char_code_def in_int64_def channel_pairs_def
      channel_numbers_def enumerate_eq_zip Kraken_apply_def raw_levels_def decode_slice_def decode_pair_def decode_string_def emitUpdate_def
      put_recon_def time_now_def world0_def Let_def NewBookReconstructor_def ApplySnapshot_def TopN_def collectLevels_def
      sortLevels_def dec_levels_def dec_parse_def dec_int_def)


theorem book_feed_flow_witness:
  "let E = kraken_world kraken_snapshot; svc = sample_service (COtc sample_otc)
   in \<exists>s0 s tb. Kraken_feed ''wss'' [''XBT/USD''] world0 = Inr s0 \<and>
        (feed_step (Kraken_goroutine E (\<lambda>m. m) [''XBT/USD'']) (\<lambda>g s. True) dec_int)\<^sup>*\<^sup>* s0 s \<and>
        handleBook (book_get ''XBT/USD'') (svc\<lparr>sv_book := fd_agg s\<rparr>) world0 =
          ((200, BTop tb), [], svc\<lparr>sv_book := fd_agg s\<rparr>, world0) \<and> tb_Bid tb = Fin 9"
proof -
  let ?E = "kraken_world kraken_snapshot" and ?P = "[''XBT/USD'']" and ?svc = "sample_service (COtc sample_otc)"
  let ?step = "feed_step (Kraken_goroutine ?E (\<lambda>m. m) ?P) (\<lambda>g s. True) dec_int"
  obtain s0 :: "int feed" where s0: "Kraken_feed ''wss'' ?P world0 = Inr s0"
    by (simp add: Kraken_feed_def Kraken_SubscribeBook_def)
  from kraken_snapshot_handled [OF s0] obtain sb w u
    where h: "Kraken_handler ?E (\<lambda>m. m) (channel_pairs ?P) ''m'' (fd_sub s0) world0 = (sb, w)"
      and u: "sb_out sb = [u]" "bu_Pair u = ''XBT/USD''" "bu_Bids u = [\<lparr>lv_Price = 9, lv_Size = 2\<rparr>]" by blast
  from kraken_first_message [OF s0 _ h, of "\<lambda>g s. True"]
  obtain s where s: "goroutine_runs (Kraken_goroutine ?E (\<lambda>m. m) ?P) (\<lambda>g s. True) kraken_inputs s0 = Some s"
    "fd_hand s = None" "fd_taken s = []" "fd_sub s = sb" by blast
  let ?s1 = "s\<lparr>fd_sub := (fd_sub s)\<lparr>sb_out := []\<rparr>, fd_hand := Some u\<rparr>"
  let ?s2 = "?s1\<lparr>fd_hand := None, fd_agg := consume_one dec_int u (fd_agg ?s1), fd_taken := fd_taken ?s1 @ [u]\<rparr>"
  have "?step\<^sup>*\<^sup>* s0 s" by (rule goroutine_runs_steps [OF s(1)])
  moreover have "?step s ?s1" using s u by (intro feed_step.receive) simp_all
  moreover have "?step ?s1 ?s2" by (intro feed_step.deposit) simp
  ultimately have steps: "?step\<^sup>*\<^sup>* s0 ?s2" by (meson rtranclp.rtrancl_into_rtrancl)
  have t: "fd_taken ?s2 = [u]" using s(3) by simp
  have p: "''XBT/USD'' \<noteq> ''''" "last ''XBT/USD'' \<noteq> CHR ''/''" by simp_all
  have "handleBook (book_get ''XBT/USD'') (?svc\<lparr>sv_book := fd_agg ?s2\<rparr>) world0 =
      ((200, BTop (top_of dec_int u)), [], ?svc\<lparr>sv_book := fd_agg ?s2\<rparr>, world0)"
    using book_feed_flow [OF _ steps p, of "''wss''" ?P world0 ?E "\<lambda>m. m" "''''" ?svc world0] s0
    unfolding t by (simp add: book_answer_def u)
  moreover have "tb_Bid (top_of dec_int u) = Fin 9" by (simp add: top_of_def best_price_def u dec_int_def)
  ultimately show ?thesis unfolding Let_def using s0 steps by blast
qed

text \<open>One tick for one pair, stored; and the next update after it.\<close>

definition ticked :: "string \<Rightarrow> int tick_feed" where
  "ticked p = tick_start\<lparr>tf_pc := Building [], tf_ticks := 1,
     tf_emitted := [Dummy_tick dec_int 0 1 p (NewDummyVenueConnector dec_int '''')],
     tf_taken := [Dummy_tick dec_int 0 1 p (NewDummyVenueConnector dec_int '''')],
     tf_agg := consume_one dec_int (Dummy_tick dec_int 0 1 p (NewDummyVenueConnector dec_int '''')) \<lparr>ba_latest = [], ba_cancelled = False\<rparr>\<rparr>"

lemma ticked_reachable:
  "(tick_step dec_int (NewDummyVenueConnector dec_int '''') [p])\<^sup>*\<^sup>* tick_start (ticked p)"
proof -
  let ?d = "NewDummyVenueConnector dec_int ''''"
  let ?u = "Dummy_tick dec_int 0 1 p ?d" and ?step = "tick_step dec_int ?d [p]"
  let ?s1 = "tick_start\<lparr>tf_pc := Building [p], tf_ticks := 1\<rparr>"
  let ?s2 = "?s1\<lparr>tf_pc := Offering ?u []\<rparr>"
  let ?s3 = "?s2\<lparr>tf_chan := [?u], tf_emitted := [?u], tf_pc := Building []\<rparr>"
  let ?s4 = "?s3\<lparr>tf_chan := [], tf_hand := Some ?u\<rparr>"
  have "?step tick_start ?s1" by (rule tick_produce [where g = Tick]) (simp add: Dummy_goroutine_def tick_start_def)
  moreover have "?step ?s1 ?s2" by (rule tick_produce [where g = "Build 0 1"]) (simp add: Dummy_goroutine_def)
  moreover have "?step ?s2 ?s3" by (rule tick_produce [where g = Send]) (simp add: Dummy_goroutine_def tick_start_def)
  moreover have "?step ?s3 ?s4" by (rule tick_receive) (simp_all add: tick_start_def)
  moreover have "?step ?s4 (?s4\<lparr>tf_hand := None, tf_agg := consume_one dec_int ?u (tf_agg ?s4), tf_taken := tf_taken ?s4 @ [?u]\<rparr>)"
    by (rule tick_deposit) simp
  moreover have "?s4\<lparr>tf_hand := None, tf_agg := consume_one dec_int ?u (tf_agg ?s4), tf_taken := tf_taken ?s4 @ [?u]\<rparr> = ticked p"
    by (simp add: ticked_def tick_start_def)
  ultimately show ?thesis by (metis (no_types, lifting) converse_rtranclp_into_rtranclp r_into_rtranclp)
qed

theorem dummy_feed_round_robin_witness:
  "\<exists>u. handleBook (book_get ''BTCUSDT'') ((sample_service (COtc sample_otc))\<lparr>sv_book := tf_agg (ticked ''BTCUSDT'')\<rparr>) world0 =
     ((200, BTop (top_of dec_int u)), [], (sample_service (COtc sample_otc))\<lparr>sv_book := tf_agg (ticked ''BTCUSDT'')\<rparr>, world0)"
proof -
  have p: "''BTCUSDT'' \<in> set [''BTCUSDT'']" "''BTCUSDT'' \<noteq> ''''" "last ''BTCUSDT'' \<noteq> CHR ''/''" by simp_all
  have "length [''BTCUSDT''] \<le> length (tf_taken (ticked ''BTCUSDT''))" by (simp add: ticked_def)
  with dummy_feed_round_robin [OF ticked_reachable p, of "sample_service (COtc sample_otc)" world0]
  show ?thesis by blast
qed

theorem dummy_feed_progress_witness:
  "\<exists>t u. (tick_step dec_int (NewDummyVenueConnector dec_int '''') [''BTCUSDT''])\<^sup>*\<^sup>* (ticked ''BTCUSDT'') t \<and>
     length (tf_emitted t) = 2"
proof -
  have "tf_pc (ticked ''BTCUSDT'') \<noteq> TickClosed" "[''BTCUSDT''] \<noteq> []" by (simp_all add: ticked_def)
  from dummy_feed_progress [OF ticked_reachable this] show ?thesis by (auto simp: ticked_def)
qed

end
