(* ===== verification/Observability.thy ===== *)
theory Observability
  imports Event_Bus
begin

text \<open>
  The collectors of \<open>internal/metrics/metrics.go\<close> and the telemetry set-up of
  \<open>internal/otel/otel.go\<close>.

  A Prometheus registry is the list of the collectors registered in it: registering a name twice
  panics, as does \<open>WithLabelValues\<close> with a number of values that is not the number of labels. The
  OpenTelemetry constructors are arguments: the results of the resource merge and of the two
  exporters for an endpoint.
\<close>

section \<open>Metrics\<close>

datatype metric_kind = CounterVec | GaugeVec | HistogramVec "rat list"

record collector =
  co_Name :: string
  co_Kind :: metric_kind
  co_Labels :: "string list"

text \<open>\<open>prometheus.ExponentialBuckets\<close>, with exact numbers.\<close>

fun ExponentialBuckets :: "rat \<Rightarrow> rat \<Rightarrow> nat \<Rightarrow> rat list" where
  "ExponentialBuckets start factor 0 = []"
| "ExponentialBuckets start factor (Suc n) = start # ExponentialBuckets (start * factor) factor n"

definition WSReconnectCount :: collector where
  "WSReconnectCount = \<lparr>co_Name = ''ws_reconnect_count'', co_Kind = CounterVec, co_Labels = [''venue'']\<rparr>"

definition WSGapCount :: collector where
  "WSGapCount = \<lparr>co_Name = ''ws_gap_count'', co_Kind = CounterVec, co_Labels = [''venue'']\<rparr>"

definition WSBookLagSeconds :: collector where
  "WSBookLagSeconds = \<lparr>co_Name = ''ws_book_lag_seconds'', co_Kind = GaugeVec, co_Labels = [''venue'', ''pair'']\<rparr>"

definition RateLimitHeadroom :: collector where
  "RateLimitHeadroom = \<lparr>co_Name = ''rate_limit_headroom'', co_Kind = GaugeVec, co_Labels = [''venue'']\<rparr>"

definition FillLatencySeconds :: collector where
  "FillLatencySeconds = \<lparr>co_Name = ''fill_latency_seconds'',
     co_Kind = HistogramVec (ExponentialBuckets (1 / 1000) 2 12), co_Labels = [''venue'']\<rparr>"

definition BalanceSyncLagSeconds :: collector where
  "BalanceSyncLagSeconds = \<lparr>co_Name = ''balance_sync_lag_seconds'',
     co_Kind = HistogramVec (ExponentialBuckets (1 / 1000) 2 12), co_Labels = [''venue'']\<rparr>"

definition EventsPublishedTotal :: collector where
  "EventsPublishedTotal = \<lparr>co_Name = ''events_published_total'', co_Kind = CounterVec,
     co_Labels = [''venue'', ''type'', ''status'']\<rparr>"

definition AuditEventsEmittedTotal :: collector where
  "AuditEventsEmittedTotal = \<lparr>co_Name = ''audit_events_emitted_total'', co_Kind = CounterVec,
     co_Labels = [''venue'', ''type'']\<rparr>"

definition AuditDroppedTotal :: collector where
  "AuditDroppedTotal = \<lparr>co_Name = ''audit_dropped_total'', co_Kind = CounterVec, co_Labels = [''venue'', ''type'']\<rparr>"

lemmas collector_defs = WSReconnectCount_def WSGapCount_def WSBookLagSeconds_def RateLimitHeadroom_def
  FillLatencySeconds_def BalanceSyncLagSeconds_def EventsPublishedTotal_def AuditEventsEmittedTotal_def
  AuditDroppedTotal_def

definition metrics_collectors :: "collector list" where
  "metrics_collectors =
     [WSReconnectCount, WSGapCount, WSBookLagSeconds, RateLimitHeadroom, FillLatencySeconds, BalanceSyncLagSeconds,
      EventsPublishedTotal, AuditEventsEmittedTotal, AuditDroppedTotal]"

text \<open>\<open>None\<close> is the panic.\<close>

fun MustRegister :: "collector list \<Rightarrow> collector list \<Rightarrow> collector list option" where
  "MustRegister [] reg = Some reg"
| "MustRegister (c # cs) reg =
     (if co_Name c \<in> co_Name ` set reg then None else MustRegister cs (reg @ [c]))"

definition WithLabelValues :: "collector \<Rightarrow> string list \<Rightarrow> (string \<times> string) list option" where
  "WithLabelValues c vals = (if length vals = length (co_Labels c) then Some (zip (co_Labels c) vals) else None)"

text \<open>
  \<open>promauto\<close> registers every collector in the default registry when its variable is initialised;
  \<open>init\<close> then registers them in \<open>Registry\<close>. The result is the two registries.
\<close>

definition metrics_init :: "collector list \<Rightarrow> (collector list \<times> collector list) option" where
  "metrics_init dflt =
     (case MustRegister metrics_collectors dflt of
        None \<Rightarrow> None
      | Some d \<Rightarrow> (case MustRegister metrics_collectors [] of None \<Rightarrow> None | Some reg \<Rightarrow> Some (d, reg)))"

section \<open>Telemetry\<close>

datatype telemetry = NoTelemetry | Exporting string string   \<comment> \<open>endpoint and service name\<close>

record otel_env =
  oe_resource :: "string \<Rightarrow> go_error option"
  oe_trace_exporter :: "string \<Rightarrow> go_error option"
  oe_metric_exporter :: "string \<Rightarrow> go_error option"

definition otel_endpoint :: "string \<Rightarrow> string" where
  "otel_endpoint e = trim_prefix (trim_prefix e ''http://'') ''grpc://''"

definition Otel_Init :: "(string \<Rightarrow> string) \<Rightarrow> otel_env \<Rightarrow> string \<Rightarrow> go_error + telemetry" where
  "Otel_Init getenv X serviceName0 =
     (let endpoint0 = trim_space (getenv ''OTEL_EXPORTER_OTLP_ENDPOINT'') in
      if endpoint0 = '''' then Inr NoTelemetry
      else
        (let name = trim_space (getenv ''OTEL_SERVICE_NAME'');
             serviceName = (if name \<noteq> '''' then name else serviceName0);
             endpoint = otel_endpoint endpoint0
         in case oe_resource X serviceName of
              Some err \<Rightarrow> Inl (ErrWrap ''otel resource: '' err)
            | None \<Rightarrow>
            (case oe_trace_exporter X endpoint of
               Some err \<Rightarrow> Inl (ErrWrap ''otel trace exporter: '' err)
             | None \<Rightarrow>
             (case oe_metric_exporter X endpoint of
                Some err \<Rightarrow> Inl (ErrWrap ''otel metric exporter: '' err)
              | None \<Rightarrow> Inr (Exporting endpoint serviceName)))))"

text \<open>The shutdown function \<open>Init\<close> returns; \<open>tp\<close> and \<open>mp\<close> are what the two \<open>Shutdown\<close> calls return.\<close>

definition Otel_Shutdown :: "go_error option \<Rightarrow> go_error option \<Rightarrow> telemetry \<Rightarrow> go_error option" where
  "Otel_Shutdown tp mp t =
     (case t of
        NoTelemetry \<Rightarrow> None
      | Exporting _ _ \<Rightarrow>
          (let traceErr = map_option (ErrWrap ''trace shutdown: '') tp;
               metricErr = map_option (ErrWrap ''metric shutdown: '') mp
           in if traceErr \<noteq> None then traceErr else metricErr))"

section \<open>Properties\<close>

lemma MustRegister_ok:
  "MustRegister cs reg = (if distinct (map co_Name cs) \<and> co_Name ` set cs \<inter> co_Name ` set reg = {} then Some (reg @ cs) else None)"
  by (induction cs arbitrary: reg) auto

text \<open>
  In a process whose default registry has none of these names both registrations succeed, and
  \<open>Registry\<close> gathers exactly the nine collectors.
\<close>

lemma metrics_init_ok:
  assumes "co_Name ` set dflt \<inter> co_Name ` set metrics_collectors = {}"
  shows "metrics_init dflt = Some (dflt @ metrics_collectors, metrics_collectors)"
proof -
  have "distinct (map co_Name metrics_collectors)" by (simp add: metrics_collectors_def collector_defs)
  then show ?thesis using assms by (auto simp: metrics_init_def MustRegister_ok)
qed

text \<open>
  The collector's address may be written with ASCII blanks around it and with the scheme \<open>http://\<close>
  or \<open>grpc://\<close> in front; \<open>Init\<close> then does what it does for the address alone.
\<close>

theorem otel_endpoint_scheme:
  assumes "\<forall>c \<in> set l. is_space c" "\<forall>c \<in> set r. is_space c" "scheme = '''' \<or> scheme = ''http://'' \<or> scheme = ''grpc://''"
    and "host \<noteq> ''''" "plain_byte (hd host)" "plain_byte (List.last host)"
    and "\<not> prefix ''http://'' host" "\<not> prefix ''grpc://'' host"
    and "getenv ''OTEL_EXPORTER_OTLP_ENDPOINT'' = l @ scheme @ host @ r"
  shows "Otel_Init getenv X name = Otel_Init (getenv(''OTEL_EXPORTER_OTLP_ENDPOINT'' := host)) X name"
proof -
  let ?s = "scheme @ host"
  have "hd ?s = hd host \<or> hd ?s = CHR ''h'' \<or> hd ?s = CHR ''g''" using assms(3) by auto
  then have h: "plain_byte (hd ?s)" using assms(5) by (auto simp: is_space_def char_code_def)
  have "trim_space (l @ ?s @ r) = ?s"
    by (rule trim_space_around) (use assms(1,2,4,6) h in simp_all)
  then have e: "trim_space (getenv ''OTEL_EXPORTER_OTLP_ENDPOINT'') = ?s" using assms(9) by simp
  have host: "trim_space host = host" using trim_space_around [of "[]" "[]" host] assms(4-6) by simp
  have ends: "otel_endpoint ?s = host" "otel_endpoint host = host"
    using assms(3,7,8) by (auto simp: otel_endpoint_def trim_prefix_def)
  show ?thesis using assms(4) by (simp add: Otel_Init_def Let_def e host ends)
qed

theorem otel_endpoint_scheme_witness:
  "Otel_Init ((\<lambda>k. '''')(''OTEL_EXPORTER_OTLP_ENDPOINT'' := '' http://otel:4317 ''))
     \<lparr>oe_resource = \<lambda>s. None, oe_trace_exporter = \<lambda>s. None, oe_metric_exporter = \<lambda>s. None\<rparr> ''svc'' =
   Inr (Exporting ''otel:4317'' ''svc'')"
proof -
  let ?env = "(\<lambda>k. '''')(''OTEL_EXPORTER_OTLP_ENDPOINT'' := '' http://otel:4317 '')"
  show ?thesis
    using otel_endpoint_scheme [of "'' ''" "'' ''" "''http://''" "''otel:4317''" ?env
        "\<lparr>oe_resource = \<lambda>s. None, oe_trace_exporter = \<lambda>s. None, oe_metric_exporter = \<lambda>s. None\<rparr>" "''svc''"]
    by (simp add: is_space_def char_code_def Otel_Init_def trim_space_def space_runes_def otel_endpoint_def trim_prefix_def)
qed

end
