(* ===== verification/Wiring.thy ===== *)
theory Wiring
  imports Http_Server Venue_Books Observability
begin

text \<open>
  The composition root, \<open>cmd/exchange-connectors/main.go\<close>: from the environment variables to the
  service that is served, or to the \<open>log.Fatalf\<close> that ends the process.

  \<open>getenv\<close> is \<open>os.Getenv\<close>, \<open>openPg\<close> gives the result of \<open>postgres.Open\<close>, \<open>now1\<close> and \<open>now2\<close> are the
  clock readings of a connector's constructor. Of the listener only its end matters: an error, or
  the signal that starts the shutdown.
\<close>

section \<open>Definitions\<close>

datatype fatal =
    OtelInit go_error
  | NotRealVenue string
  | SecretsURLRequired
  | SecretsNotWired
  | KafkaBrokersUnset
  | AuditKafkaInit go_error
  | PostgresOpen go_error
  | DBURLRequired
  | ServerFailed go_error
  | ListenFailed go_error

text \<open>
  \<open>range\<close> over a string decodes UTF-8. \<open>utf8_more c s\<close> is the number of bytes of \<open>s\<close> that follow the
  first byte \<open>c\<close> in a well-formed encoding, and \<open>None\<close> when there is none: overlong forms,
  surrogates and values above U+10FFFF are not well-formed. The rune of such a byte is U+FFFD, and
  the loop goes on after that one byte.
\<close>

definition byte_in :: "nat \<Rightarrow> nat \<Rightarrow> char \<Rightarrow> bool" where
  "byte_in lo hi c \<longleftrightarrow> lo \<le> char_code c \<and> char_code c \<le> hi"

abbreviation cont_byte :: "char \<Rightarrow> bool" where
  "cont_byte \<equiv> byte_in 0x80 0xBF"

definition second_byte :: "char \<Rightarrow> char \<Rightarrow> bool" where
  "second_byte c d =
     (if c = CHR 0xE0 then byte_in 0xA0 0xBF d
      else if c = CHR 0xED then byte_in 0x80 0x9F d
      else if c = CHR 0xF0 then byte_in 0x90 0xBF d
      else if c = CHR 0xF4 then byte_in 0x80 0x8F d
      else cont_byte d)"

definition utf8_more :: "char \<Rightarrow> string \<Rightarrow> nat option" where
  "utf8_more c s =
     (if byte_in 0 0x7F c then Some 0
      else if byte_in 0xC2 0xDF c then
        (case s of d # _ \<Rightarrow> if cont_byte d then Some 1 else None | _ \<Rightarrow> None)
      else if byte_in 0xE0 0xEF c then
        (case s of d # e # _ \<Rightarrow> if second_byte c d \<and> cont_byte e then Some 2 else None | _ \<Rightarrow> None)
      else if byte_in 0xF0 0xF4 c then
        (case s of d # e # f # _ \<Rightarrow> if second_byte c d \<and> cont_byte e \<and> cont_byte f then Some 3 else None | _ \<Rightarrow> None)
      else None)"

text \<open>The runes, each as the bytes that \<open>string(c)\<close> gives back.\<close>

fun runes :: "string \<Rightarrow> string list" where
  "runes [] = []"
| "runes (c # s) =
     (case utf8_more c s of
        Some n \<Rightarrow> (c # take n s) # runes (drop n s)
      | None \<Rightarrow> [CHR 0xEF, CHR 0xBF, CHR 0xBD] # runes s)"

text \<open>The loop over the runes, with the field being read and the fields so far.\<close>

fun splitCSV_loop :: "string list \<Rightarrow> string \<Rightarrow> string list \<Rightarrow> string list" where
  "splitCSV_loop out cur [] = (if cur \<noteq> '''' then out @ [cur] else out)"
| "splitCSV_loop out cur (c # cs) =
     (if c = '','' then splitCSV_loop (if cur \<noteq> '''' then out @ [cur] else out) '''' cs
      else splitCSV_loop out (cur @ c) cs)"

definition splitCSV :: "string \<Rightarrow> string list" where
  "splitCSV s = splitCSV_loop [] '''' (runes s)"

definition loadExchangeCreds :: "(string \<Rightarrow> string) \<Rightarrow> string \<Rightarrow> bool \<Rightarrow> fatal + (string \<times> string)" where
  "loadExchangeCreds getenv venue devMode =
     (if devMode then Inr (getenv (to_upper venue @ ''_API_KEY''), getenv (to_upper venue @ ''_API_SECRET''))
      else if getenv ''SECRETS_MANAGER_URL'' = '''' then Inl SecretsURLRequired
      else Inl SecretsNotWired)"

definition selectConnector ::
  "(string \<Rightarrow> string) \<Rightarrow> 'd dec_ops \<Rightarrow> gotime \<Rightarrow> gotime \<Rightarrow> string \<Rightarrow> bool \<Rightarrow> fatal + 'd connector"
where
  "selectConnector getenv D now1 now2 name devMode =
     (if name = ''binance'' then
        (case loadExchangeCreds getenv ''binance'' devMode of
           Inl e \<Rightarrow> Inl e
         | Inr (key, secret) \<Rightarrow>
             Inr (CBinance (Binance_NewConnector (getenv ''BINANCE_REST_URL'') (getenv ''BINANCE_WS_URL'')
                    (getenv ''RATE_LIMIT_WEIGHT_BUDGET'') now1 now2 key secret None)))
      else if name = ''kraken'' then
        (case loadExchangeCreds getenv ''kraken'' devMode of
           Inl e \<Rightarrow> Inl e
         | Inr (key, secret) \<Rightarrow>
             Inr (CKraken (Kraken_NewConnector (getenv ''KRAKEN_REST_URL'') (getenv ''KRAKEN_WS_URL'')
                    now1 now2 key secret None)))
      else if name = ''otc'' then
        (case loadExchangeCreds getenv ''otc'' devMode of
           Inl e \<Rightarrow> Inl e
         | Inr (key, _) \<Rightarrow>
             Inr (COtc (Otc_NewConnector (getenv ''OTC_DESK_URL'') (getenv ''RATE_LIMIT_WEIGHT_BUDGET'')
                    (getenv ''OTC_SFTP_PATH'') now1 key None)))
      else if \<not> devMode then Inl (NotRealVenue name)
      else Inr (CDummy (NewDummyVenueConnector D (getenv ''DUMMY_PRICE''))))"

text \<open>\<open>SubscribeBook\<close> of the interface: an error, or the channel, here that one exists.\<close>

fun conn_SubscribeBook :: "string list \<Rightarrow> 'd connector \<Rightarrow> go_error + unit" where
  "conn_SubscribeBook pairs (CDummy d) = Inr ()"
| "conn_SubscribeBook pairs (CBinance c) = map_sum id (\<lambda>_. ())
     (Binance_SubscribeBook (vc_WSBase (bn_cfg c)) pairs :: go_error + (string \<times> 'd book_sub))"
| "conn_SubscribeBook pairs (CKraken c) = map_sum id (\<lambda>_. ()) (Kraken_SubscribeBook pairs :: go_error + 'd book_sub)"
| "conn_SubscribeBook pairs (COtc c) = Otc_SubscribeBook pairs"

datatype audit_choice = AuditMemory | AuditKafka kafka_sink

definition newAuditSink :: "(string \<Rightarrow> string) \<Rightarrow> string \<Rightarrow> bool \<Rightarrow> fatal + audit_choice" where
  "newAuditSink getenv venue devMode =
     (let brokers = getenv ''KAFKA_BROKERS'' in
      if brokers = '''' then (if devMode then Inr AuditMemory else Inl KafkaBrokersUnset)
      else
        (case NewKafkaSink (splitCSV brokers) venue of
           Inl err \<Rightarrow> if devMode then Inr AuditMemory else Inl (AuditKafkaInit err)
         | Inr ks \<Rightarrow> Inr (AuditKafka ks)))"

datatype store_choice = StoreMemory | StorePostgres

definition newStore :: "(string \<Rightarrow> string) \<Rightarrow> (string \<Rightarrow> go_error + unit) \<Rightarrow> bool \<Rightarrow> fatal + store_choice" where
  "newStore getenv openPg devMode =
     (let dsn = getenv ''DB_URL'' in
      if dsn \<noteq> '''' then (case openPg dsn of Inl err \<Rightarrow> Inl (PostgresOpen err) | Inr _ \<Rightarrow> Inr StorePostgres)
      else if devMode then Inr StoreMemory
      else Inl DBURLRequired)"

definition newBus :: "(string \<Rightarrow> string) \<Rightarrow> (kafka_publisher \<times> bus) option" where
  "newBus getenv =
     (let busURL = getenv ''EVENT_BUS_URL'' in
      if busURL \<noteq> '''' then
        (case NewKafkaPublisherFromURL busURL of Inl _ \<Rightarrow> None | Inr p \<Rightarrow> Some (p, NewBus ''recon''))
      else None)"

definition main_venue :: "(string \<Rightarrow> string) \<Rightarrow> string" where
  "main_venue getenv = (if getenv ''VENUE_FAMILY'' = '''' then ''dummy'' else getenv ''VENUE_FAMILY'')"

definition main_pairs :: "(string \<Rightarrow> string) \<Rightarrow> string list" where
  "main_pairs getenv = (if getenv ''PAIRS'' \<noteq> '''' then splitCSV (getenv ''PAIRS'') else [''BTCUSDT'', ''ETHUSDT''])"

definition main_addr :: "(string \<Rightarrow> string) \<Rightarrow> string" where
  "main_addr getenv = (if getenv ''ADDR'' = '''' then '':8080'' else getenv ''ADDR'')"

text \<open>Lines 33--76, up to the server with its address.\<close>

definition main_start ::
  "(string \<Rightarrow> string) \<Rightarrow> 'd dec_ops \<Rightarrow> gotime \<Rightarrow> gotime \<Rightarrow> (string \<Rightarrow> go_error + unit) \<Rightarrow>
   fatal + (string \<times> 'd service \<times> audit_choice \<times> store_choice \<times> (kafka_publisher \<times> bus) option)"
where
  "main_start getenv D now1 now2 openPg =
     (let devMode = (getenv ''DEV_MODE'' = ''1''); venueName = main_venue getenv; pairs = main_pairs getenv in
      case selectConnector getenv D now1 now2 venueName devMode of
        Inl e \<Rightarrow> Inl e
      | Inr conn \<Rightarrow>
      (case newAuditSink getenv venueName devMode of
         Inl e \<Rightarrow> Inl e
       | Inr sink \<Rightarrow>
       (let bus = newBus getenv in
        case newStore getenv openPg devMode of
          Inl e \<Rightarrow> Inl e
        | Inr st \<Rightarrow>
        (case NewService conn True venueName (bus \<noteq> None) (conn_SubscribeBook pairs conn) of
           Inl err \<Rightarrow> Inl (ServerFailed err)
         | Inr (svc, _) \<Rightarrow> Inr (main_addr getenv, svc, sink, st, bus)))))"

text \<open>
  The whole of \<open>main\<close>. \<open>listen\<close> is an error of \<open>ListenAndServe\<close> other than \<open>ErrServerClosed\<close>, or \<open>None\<close>
  when a signal arrives first; then the steps of the shutdown are the result, the deferred one
  last. A \<open>log.Fatalf\<close> exits at once and runs none of them.
\<close>

datatype shutdown_step = StopHTTP | ClosePublisher | StopTelemetry

definition main_run ::
  "(string \<Rightarrow> string) \<Rightarrow> 'd dec_ops \<Rightarrow> gotime \<Rightarrow> gotime \<Rightarrow> (string \<Rightarrow> go_error + unit) \<Rightarrow> otel_env \<Rightarrow>
   (string \<Rightarrow> go_error option) \<Rightarrow> fatal + shutdown_step list"
where
  "main_run getenv D now1 now2 openPg X listen =
     (case Otel_Init getenv X ''exchange-connectors'' of
        Inl err \<Rightarrow> Inl (OtelInit err)
      | Inr tel \<Rightarrow>
          (case main_start getenv D now1 now2 openPg of
             Inl e \<Rightarrow> Inl e
           | Inr (addr, svc, sink, st, bus) \<Rightarrow>
               (case listen addr of
                  Some err \<Rightarrow> Inl (ListenFailed err)
                | None \<Rightarrow> Inr (StopHTTP # (if bus \<noteq> None then [ClosePublisher] else []) @ [StopTelemetry]))))"

section \<open>Lemmas\<close>

subsection \<open>Fields\<close>

lemma second_byte_cont: "second_byte c d \<Longrightarrow> cont_byte d"
  by (auto simp: second_byte_def byte_in_def split: if_splits)

lemma utf8_more_le: "utf8_more c s = Some n \<Longrightarrow> n \<le> length s"
  by (auto simp: utf8_more_def split: if_splits list.splits)

lemma utf8_more_append: "\<not> cont_byte d \<Longrightarrow> utf8_more c (s @ d # b) = utf8_more c s"
  using second_byte_cont [of c] by (auto simp: utf8_more_def split: list.split)

lemma utf8_more_multi: "utf8_more c s = Some n \<Longrightarrow> n \<noteq> 0 \<Longrightarrow> \<not> byte_in 0 0x7F c \<and> (\<forall>d \<in> set (take n s). cont_byte d)"
  by (auto simp: utf8_more_def second_byte_cont split: if_splits list.splits)

lemma comma_byte [simp]: "\<not> cont_byte (CHR '','')" "byte_in 0 0x7F (CHR '','')"
  by (simp_all add: byte_in_def char_code_def)

lemma runes_comma: "runes (a @ CHR '','' # b) = runes a @ '','' # runes b"
proof (induction a rule: runes.induct)
  case (2 c s)
  show ?case
  proof (cases "utf8_more c s")
    case (Some n)
    then show ?thesis using 2(2) [OF Some] utf8_more_le [OF Some] by (simp add: utf8_more_append)
  qed (use 2(1) in \<open>simp add: utf8_more_append\<close>)
qed (simp add: utf8_more_def)

lemma runes_no_comma: "CHR '','' \<notin> set s \<Longrightarrow> \<forall>r \<in> set (runes s). r \<noteq> '''' \<and> r \<noteq> '',''"
proof (induction s rule: runes.induct)
  case (2 c s)
  show ?case
  proof (cases "utf8_more c s")
    case (Some n)
    have "CHR '','' \<notin> set (drop n s)" using 2(3) by (auto dest: in_set_dropD)
    with 2(2) [OF Some] 2(3) Some show ?thesis by auto
  qed (use 2(1,3) in simp)
qed simp

lemma splitCSV_loop_field:
  "\<forall>r \<in> set rs. r \<noteq> '','' \<Longrightarrow> splitCSV_loop out cur (rs @ rs') = splitCSV_loop out (cur @ concat rs) rs'"
  by (induction rs arbitrary: cur) simp_all

lemma concat_runes_Nil [simp]: "concat (runes s) = '''' \<longleftrightarrow> s = ''''" and runes_Nil [simp]: "runes s = [] \<longleftrightarrow> s = ''''"
  by (cases s; simp split: option.split)+

lemma splitCSV_loop_runes:
  "splitCSV_loop out '''' (runes s) = out @ map (\<lambda>f. concat (runes f)) (filter (\<lambda>f. f \<noteq> '''') (split_at (CHR '','') s))"
proof (induction "length s" arbitrary: out s rule: less_induct)
  case less
  show ?case
  proof (cases "CHR '','' \<in> set s")
    case True
    then obtain a b where s: "s = a @ CHR '','' # b" "CHR '','' \<notin> set a" by (meson split_list_first)
    have "splitCSV_loop out '''' (runes s) = splitCSV_loop (out @ (if a \<noteq> '''' then [concat (runes a)] else [])) '''' (runes b)"
      using runes_no_comma [OF s(2)] by (simp add: s(1) runes_comma splitCSV_loop_field)
    then show ?thesis using less [of b "out @ (if a \<noteq> '''' then [concat (runes a)] else [])"] split_at_append [OF s(2), of b]
      by (simp add: s(1))
  next
    case False
    from runes_no_comma [OF this] show ?thesis using splitCSV_loop_field [of "runes s" out "''''" "[]"]
      by (simp add: split_at_no_sep [OF False])
  qed
qed

lemma runes_ascii: "\<forall>c \<in> set s. byte_in 0 0x7F c \<Longrightarrow> concat (runes s) = s"
  by (induction s) (simp_all add: utf8_more_def)

subsection \<open>Starting\<close>

lemma subscribe_ok_iff:
  "(\<exists>u. conn_SubscribeBook pairs c = Inr u) \<longleftrightarrow>
     (case c of CDummy _ \<Rightarrow> True | COtc _ \<Rightarrow> False | _ \<Rightarrow> pairs \<noteq> [])"
  by (cases c) (auto simp: Binance_SubscribeBook_def Kraken_SubscribeBook_def Otc_SubscribeBook_def)

lemma NewService_ok_iff:
  "NewService conn sink name bus sub = Inr (svc, ch) \<longleftrightarrow> sub = Inr ch \<and>
     svc = \<lparr>sv_connector = conn, sv_book = \<lparr>ba_latest = [], ba_cancelled = False\<rparr>, sv_audit = sink, sv_events = bus,
            sv_venueName = name, sv_ready = True, sv_store = True\<rparr>"
  by (auto simp: NewService_def NewBookAggregator_def split: sum.splits)

lemma dev_sink: "\<exists>k. newAuditSink getenv v True = Inr k"
  by (auto simp: newAuditSink_def Let_def split: sum.split)

lemma dev_store: "(\<exists>k. newStore getenv openPg True = Inr k) \<longleftrightarrow>
    getenv ''DB_URL'' = '''' \<or> (\<exists>u. openPg (getenv ''DB_URL'') = Inr u)"
  by (auto simp: newStore_def Let_def split: sum.split)

lemma prod_connector: "\<exists>e. selectConnector getenv D now1 now2 name False = Inl e"
  by (auto simp: selectConnector_def loadExchangeCreds_def)

lemma dev_connector:
  "\<exists>c. selectConnector getenv D now1 now2 name True = Inr c \<and>
     ((\<exists>u. conn_SubscribeBook pairs c = Inr u) \<longleftrightarrow>
       name \<noteq> ''otc'' \<and> (name \<in> {''binance'', ''kraken''} \<longrightarrow> pairs \<noteq> []))"
  unfolding subscribe_ok_iff by (auto simp: selectConnector_def loadExchangeCreds_def)

lemma main_start_ok:
  "(\<exists>x. main_start getenv D now1 now2 openPg = Inr x) \<longleftrightarrow>
     getenv ''DEV_MODE'' = ''1'' \<and> main_venue getenv \<noteq> ''otc'' \<and>
     (main_venue getenv \<in> {''binance'', ''kraken''} \<longrightarrow> main_pairs getenv \<noteq> []) \<and>
     (getenv ''DB_URL'' = '''' \<or> (\<exists>u. openPg (getenv ''DB_URL'') = Inr u))"
proof (cases "getenv ''DEV_MODE'' = ''1''")
  case True
  obtain c where c: "selectConnector getenv D now1 now2 (main_venue getenv) True = Inr c"
    and sub: "(\<exists>u. conn_SubscribeBook (main_pairs getenv) c = Inr u) \<longleftrightarrow>
       main_venue getenv \<noteq> ''otc'' \<and> (main_venue getenv \<in> {''binance'', ''kraken''} \<longrightarrow> main_pairs getenv \<noteq> [])"
    using dev_connector by blast
  obtain k where k: "newAuditSink getenv (main_venue getenv) True = Inr k" using dev_sink by blast
  have "(\<exists>x. main_start getenv D now1 now2 openPg = Inr x) \<longleftrightarrow>
      (\<exists>st. newStore getenv openPg True = Inr st) \<and> (\<exists>u. conn_SubscribeBook (main_pairs getenv) c = Inr u)"
    by (auto simp: main_start_def Let_def True c k NewService_def NewBookAggregator_def split: sum.split)
  then show ?thesis unfolding sub dev_store using True by blast
next
  case False
  then show ?thesis
    using prod_connector [of getenv D now1 now2 "main_venue getenv"] by (auto simp: main_start_def Let_def)
qed

lemma main_start_parts: "main_start getenv D now1 now2 openPg = Inr (addr, svc, sink, st, bus) \<Longrightarrow> addr = main_addr getenv \<and> bus = newBus getenv"
  by (auto simp: main_start_def Let_def split: sum.splits)

lemma otel_ok:
  "(\<exists>tel. Otel_Init getenv X svc = Inr tel) \<longleftrightarrow>
     (let e = trim_space (getenv ''OTEL_EXPORTER_OTLP_ENDPOINT''); name = trim_space (getenv ''OTEL_SERVICE_NAME'')
      in e = '''' \<or> oe_resource X (if name = '''' then svc else name) = None \<and>
           oe_trace_exporter X (otel_endpoint e) = None \<and> oe_metric_exporter X (otel_endpoint e) = None)"
  by (auto simp: Otel_Init_def Let_def split: option.splits)

lemma newBus_ok:
  "newBus getenv \<noteq> None \<longleftrightarrow> getenv ''EVENT_BUS_URL'' \<noteq> '''' \<and> (\<exists>p. NewKafkaPublisherFromURL (getenv ''EVENT_BUS_URL'') = Inr p)"
  by (auto simp: newBus_def Let_def split: sum.split)

lemma main_run_start:
  "main_run getenv D now1 now2 openPg X listen = Inr steps \<longleftrightarrow>
     (\<exists>tel. Otel_Init getenv X ''exchange-connectors'' = Inr tel) \<and> (\<exists>x. main_start getenv D now1 now2 openPg = Inr x) \<and>
     listen (main_addr getenv) = None \<and> steps = StopHTTP # (if newBus getenv \<noteq> None then [ClosePublisher] else []) @ [StopTelemetry]"
proof (cases "main_start getenv D now1 now2 openPg")
  case (Inr x)
  obtain addr svc sink st bus where x: "x = (addr, svc, sink, st, bus)" by (cases x) auto
  show ?thesis using Inr main_start_parts [OF Inr [unfolded x]] by (auto simp: main_run_def x split: sum.split option.split)
qed (auto simp: main_run_def split: sum.split)

section \<open>Properties\<close>

text \<open>
  C39: \<open>splitCSV\<close> returns the non-empty fields between the commas, in order, each with its ill-formed
  bytes replaced by U+FFFD; and so it reads back any list of non-empty fields without commas, in
  well-formed UTF-8, that is joined with commas.
\<close>

theorem splitCSV_fields:
  "splitCSV s = map (\<lambda>f. concat (runes f)) (filter (\<lambda>f. f \<noteq> '''') (split_at (CHR '','') s)) \<and>
   ((\<forall>w \<in> set ws. w \<noteq> '''' \<and> CHR '','' \<notin> set w \<and> concat (runes w) = w) \<longrightarrow> splitCSV (join_with '','' ws) = ws)"
proof -
  have 1: "splitCSV s = map (\<lambda>f. concat (runes f)) (filter (\<lambda>f. f \<noteq> '''') (split_at (CHR '','') s))" for s
    by (simp add: splitCSV_def splitCSV_loop_runes)
  have "map (\<lambda>f. concat (runes f)) (filter (\<lambda>f. f \<noteq> '''') ws) = ws"
    if "\<forall>w \<in> set ws. w \<noteq> '''' \<and> CHR '','' \<notin> set w \<and> concat (runes w) = w"
    using that by (induction ws) simp_all
  then show ?thesis by (cases "ws = []") (simp_all add: 1 split_join)
qed

theorem splitCSV_fields_witness:
  "splitCSV (CHR '','' # CHR 0xFF # '',,b'') = [[CHR 0xEF, CHR 0xBF, CHR 0xBD], ''b''] \<and>
   splitCSV ([CHR 0xC3, CHR 0xA9] @ '',BTCUSDT'') = [[CHR 0xC3, CHR 0xA9], ''BTCUSDT'']"
  using splitCSV_fields [of "CHR '','' # CHR 0xFF # '',,b''" "[[CHR 0xC3, CHR 0xA9], ''BTCUSDT'']"]
  by (simp add: utf8_more_def byte_in_def char_code_def)

text \<open>
  C36: exactly when the process serves until it is told to stop, and what it then does. Telemetry is
  off, or its resource and its two exporters can be set up; \<open>DEV_MODE\<close> is 1, since every real venue needs
  credentials that are not wired and the dummy connector is refused in production; the venue is not
  \<open>otc\<close>, whose connector has no book to subscribe to; \<open>PAIRS\<close> names a pair if it is Binance or
  Kraken; the database can be opened if \<open>DB_URL\<close> is set; and the listener does not fail on its
  address. The shutdown stops the HTTP server, closes the event publisher if \<open>EVENT_BUS_URL\<close> gave
  one, and stops the telemetry, in this order. In every other case the process ends in a \<open>log.Fatalf\<close>.
\<close>

theorem main_starts_iff:
  "main_run getenv D now1 now2 openPg X listen = Inr steps \<longleftrightarrow>
     (let e = trim_space (getenv ''OTEL_EXPORTER_OTLP_ENDPOINT''); name = trim_space (getenv ''OTEL_SERVICE_NAME'')
      in e = '''' \<or> oe_resource X (if name = '''' then ''exchange-connectors'' else name) = None \<and>
           oe_trace_exporter X (otel_endpoint e) = None \<and> oe_metric_exporter X (otel_endpoint e) = None) \<and>
     getenv ''DEV_MODE'' = ''1'' \<and> main_venue getenv \<noteq> ''otc'' \<and>
     (main_venue getenv \<in> {''binance'', ''kraken''} \<longrightarrow> main_pairs getenv \<noteq> []) \<and>
     (getenv ''DB_URL'' = '''' \<or> (\<exists>u. openPg (getenv ''DB_URL'') = Inr u)) \<and>
     listen (main_addr getenv) = None \<and>
     steps = StopHTTP # (if getenv ''EVENT_BUS_URL'' \<noteq> '''' \<and> (\<exists>p. NewKafkaPublisherFromURL (getenv ''EVENT_BUS_URL'') = Inr p)
                         then [ClosePublisher] else []) @ [StopTelemetry]"
  unfolding main_run_start otel_ok main_start_ok newBus_ok by blast

text \<open>
  An environment without \<open>DEV_MODE\<close>, one for a development run with an event bus, the same with a
  collector that cannot be reached, and the same on an address that is taken.
\<close>

theorem main_starts_iff_witness:
  "let dev = (\<lambda>k. if k = ''DEV_MODE'' then ''1'' else '''');
       off = \<lparr>oe_resource = \<lambda>s. None, oe_trace_exporter = \<lambda>s. Some (ErrMsg ''refused''), oe_metric_exporter = \<lambda>s. None\<rparr>
   in (\<forall>steps. main_run (\<lambda>k. '''') dec_int 1 1 (\<lambda>s. Inr ()) off (\<lambda>a. None) \<noteq> Inr steps) \<and>
      main_run dev dec_int 1 1 (\<lambda>s. Inr ()) off (\<lambda>a. None) = Inr [StopHTTP, StopTelemetry] \<and>
      (\<forall>steps. main_run (dev(''OTEL_EXPORTER_OTLP_ENDPOINT'' := ''otel'')) dec_int 1 1 (\<lambda>s. Inr ()) off (\<lambda>a. None) \<noteq> Inr steps) \<and>
      (\<forall>steps. main_run dev dec_int 1 1 (\<lambda>s. Inr ()) off (\<lambda>a. if a = '':8080'' then Some (ErrMsg ''refused'') else None) \<noteq> Inr steps)"
  unfolding Let_def main_starts_iff by (simp add: main_venue_def main_addr_def trim_space_def space_runes_def)

text \<open>What the process serves once it has started.\<close>

lemma main_started:
  assumes "main_start getenv D now1 now2 openPg = Inr (addr, svc, sink, st, bus)"
  shows "sv_ready svc \<and> sv_audit svc \<and> sv_store svc \<and> sv_venueName svc = main_venue getenv \<and>
    (sv_events svc \<longleftrightarrow> bus \<noteq> None) \<and>
    (is_dummy (sv_connector svc) \<longleftrightarrow> main_venue getenv \<notin> {''binance'', ''kraken'', ''otc''})"
proof -
  obtain c where c: "selectConnector getenv D now1 now2 (main_venue getenv) (getenv ''DEV_MODE'' = ''1'') = Inr c"
    and svc: "svc = \<lparr>sv_connector = c, sv_book = \<lparr>ba_latest = [], ba_cancelled = False\<rparr>, sv_audit = True,
      sv_events = (bus \<noteq> None), sv_venueName = main_venue getenv, sv_ready = True, sv_store = True\<rparr>"
    using assms
    by (auto simp: main_start_def Let_def NewService_def NewBookAggregator_def split: sum.splits prod.splits)
  have "is_dummy c \<longleftrightarrow> main_venue getenv \<notin> {''binance'', ''kraken'', ''otc''}"
    using c by (auto simp: selectConnector_def loadExchangeCreds_def is_dummy_def split: if_splits)
  then show ?thesis by (simp add: svc)
qed

end
