(* ===== verification/Sql_Migrations.thy ===== *)
theory Sql_Migrations
  imports Go_Prelude
begin

text \<open>
  The schema migrations of \<open>internal/store/migrations/migrations.go\<close>: collecting the embedded
  \<open>.sql\<close> files into versions, and running them up and down.

  The embedded directory is the list of its entries (\<open>fs.ReadDir\<close> or its error), each with
  whether it is a directory and what \<open>fs.ReadFile\<close> gives. The runner's two functions are
  arguments that thread the state of the database; every statement they are given is logged, and
  a clock reading is an argument of \<open>Up\<close> per recorded version.
\<close>

section \<open>Definitions\<close>

record migration =
  mi_Version :: string
  mi_Up :: string
  mi_Down :: string

record dir_entry =
  en_name :: string
  en_is_dir :: bool
  en_content :: "go_error + string"

definition has_suffix :: "string \<Rightarrow> string \<Rightarrow> bool" where
  "has_suffix s p = suffix p s"

text \<open>\<open>byVersion[version]\<close>, made when absent, and one of its texts set.\<close>

definition set_migration ::
  "string \<Rightarrow> (migration \<Rightarrow> migration) \<Rightarrow> (string, migration) gomap \<Rightarrow> (string, migration) gomap"
where
  "set_migration version upd m =
     AList.update version
       (upd (case map_of m version of None \<Rightarrow> \<lparr>mi_Version = version, mi_Up = '''', mi_Down = ''''\<rparr> | Some x \<Rightarrow> x)) m"

fun collect_files :: "dir_entry list \<Rightarrow> (string, migration) gomap \<Rightarrow> go_error + (string, migration) gomap" where
  "collect_files [] m = Inr m"
| "collect_files (e # es) m =
     (if en_is_dir e then collect_files es m
      else if has_suffix (en_name e) ''_up.sql'' then
        (case en_content e of
           Inl err \<Rightarrow> Inl err
         | Inr b \<Rightarrow>
             collect_files es (set_migration (trim_suffix (en_name e) ''_up.sql'') (\<lambda>x. x\<lparr>mi_Up := b\<rparr>) m))
      else if has_suffix (en_name e) ''_down.sql'' then
        (case en_content e of
           Inl err \<Rightarrow> Inl err
         | Inr b \<Rightarrow>
             collect_files es (set_migration (trim_suffix (en_name e) ''_down.sql'') (\<lambda>x. x\<lparr>mi_Down := b\<rparr>) m))
      else collect_files es m)"

text \<open>The loop over the sorted versions.\<close>

fun complete_versions :: "(string, migration) gomap \<Rightarrow> string list \<Rightarrow> go_error + migration list" where
  "complete_versions m [] = Inr []"
| "complete_versions m (v # vs) =
     (case map_of m v of
        None \<Rightarrow> Inl (ErrMsg ''nil migration'')   \<comment> \<open>unreachable: the versions are the keys\<close>
      | Some x \<Rightarrow>
          if mi_Up x = '''' \<or> mi_Down x = ''''
          then Inl (ErrMsg (''migrations: version '' @ v @ '' missing up or down''))
          else (case complete_versions m vs of Inl err \<Rightarrow> Inl err | Inr out \<Rightarrow> Inr (x # out)))"

definition All_migrations :: "go_error + dir_entry list \<Rightarrow> go_error + migration list" where
  "All_migrations dir =
     (case dir of
        Inl err \<Rightarrow> Inl err
      | Inr entries \<Rightarrow>
          (case collect_files entries [] of
             Inl err \<Rightarrow> Inl err
           | Inr byVersion \<Rightarrow> complete_versions byVersion (sort (map fst byVersion))))"

subsection \<open>Runner\<close>

text \<open>The statements of the runner, with their arguments; white space in the texts is immaterial.\<close>

datatype statement =
    CreateMigrationsTable
  | Script string
  | InsertVersion string gotime
  | DeleteVersion string

record 's runner =
  rn_exec :: "statement \<Rightarrow> 's \<Rightarrow> go_error option \<times> 's"
  rn_query :: "(string \<Rightarrow> 's \<Rightarrow> (go_error + bool) \<times> 's) option"

text \<open>\<open>if r.query != nil\<close>: whether the version counts as applied, \<open>dflt\<close> without a query function.\<close>

definition is_applied :: "'s runner \<Rightarrow> bool \<Rightarrow> string \<Rightarrow> 's \<Rightarrow> (go_error + bool) \<times> 's" where
  "is_applied R dflt v s = (case rn_query R of None \<Rightarrow> (Inr dflt, s) | Some q \<Rightarrow> q v s)"

fun up_loop :: "'s runner \<Rightarrow> (nat \<Rightarrow> gotime) \<Rightarrow> migration list \<Rightarrow> 's \<Rightarrow> go_error option \<times> 's" where
  "up_loop R clock [] s = (None, s)"
| "up_loop R clock (m # ms) s =
     (case is_applied R False (mi_Version m) s of
        (Inl err, s1) \<Rightarrow> (Some err, s1)
      | (Inr True, s1) \<Rightarrow> up_loop R clock ms s1
      | (Inr False, s1) \<Rightarrow>
          (case rn_exec R (Script (mi_Up m)) s1 of
             (Some err, s2) \<Rightarrow> (Some (ErrWrap (''migrations: apply '' @ mi_Version m @ '': '') err), s2)
           | (None, s2) \<Rightarrow>
               (case rn_exec R (InsertVersion (mi_Version m) (clock (length ms))) s2 of
                  (Some err, s3) \<Rightarrow> (Some (ErrWrap (''migrations: record '' @ mi_Version m @ '': '') err), s3)
                | (None, s3) \<Rightarrow> up_loop R clock ms s3)))"

definition Runner_Up :: "go_error + dir_entry list \<Rightarrow> 's runner \<Rightarrow> (nat \<Rightarrow> gotime) \<Rightarrow> 's \<Rightarrow> go_error option \<times> 's" where
  "Runner_Up dir R clock s =
     (case rn_exec R CreateMigrationsTable s of
        (Some err, s1) \<Rightarrow> (Some (ErrWrap ''migrations: create schema_migrations: '' err), s1)
      | (None, s1) \<Rightarrow>
          (case All_migrations dir of
             Inl err \<Rightarrow> (Some err, s1)
           | Inr migs \<Rightarrow> up_loop R clock migs s1))"

text \<open>The loop of \<open>Down\<close>, on the reversed list.\<close>

fun down_loop :: "'s runner \<Rightarrow> migration list \<Rightarrow> 's \<Rightarrow> go_error option \<times> 's" where
  "down_loop R [] s = (None, s)"
| "down_loop R (m # ms) s =
     (case is_applied R True (mi_Version m) s of
        (Inl err, s1) \<Rightarrow> (Some err, s1)
      | (Inr False, s1) \<Rightarrow> down_loop R ms s1
      | (Inr True, s1) \<Rightarrow>
          (case rn_exec R (Script (mi_Down m)) s1 of
             (Some err, s2) \<Rightarrow> (Some (ErrWrap (''migrations: revert '' @ mi_Version m @ '': '') err), s2)
           | (None, s2) \<Rightarrow>
               (case rn_exec R (DeleteVersion (mi_Version m)) s2 of
                  (Some err, s3) \<Rightarrow> (Some err, s3)
                | (None, s3) \<Rightarrow> down_loop R ms s3)))"

definition Runner_Down :: "go_error + dir_entry list \<Rightarrow> 's runner \<Rightarrow> 's \<Rightarrow> go_error option \<times> 's" where
  "Runner_Down dir R s =
     (case All_migrations dir of
        Inl err \<Rightarrow> (Some err, s)
      | Inr migs \<Rightarrow> down_loop R (rev migs) s)"

section \<open>The version table\<close>

text \<open>
  \<open>tracks_versions migs R V\<close>: what the runner relies on of the database and of the scripts of \<open>migs\<close>,
  where \<open>V s\<close> is the set of versions in \<open>schema_migrations\<close>. The query, when it does not fail, tells
  whether a version is in the table and changes nothing; a successful \<open>INSERT\<close> or \<open>DELETE\<close> adds or
  removes its version; the statement that creates the table, the scripts of \<open>migs\<close> and a statement
  that fails leave the table as it is. Nothing is said about other scripts.
\<close>

fun after_statement :: "statement \<Rightarrow> string set \<Rightarrow> string set" where
  "after_statement (InsertVersion v t) vs = insert v vs"
| "after_statement (DeleteVersion v) vs = vs - {v}"
| "after_statement _ vs = vs"

fun statement_of :: "migration list \<Rightarrow> statement \<Rightarrow> bool" where
  "statement_of migs (Script x) \<longleftrightarrow> x \<in> mi_Up ` set migs \<union> mi_Down ` set migs"
| "statement_of migs _ \<longleftrightarrow> True"

definition tracks_versions :: "migration list \<Rightarrow> 's runner \<Rightarrow> ('s \<Rightarrow> string set) \<Rightarrow> bool" where
  "tracks_versions migs R V \<longleftrightarrow>
     (\<exists>q. rn_query R = Some q \<and> (\<forall>v s. snd (q v s) = s \<and> (\<forall>b. fst (q v s) = Inr b \<longrightarrow> b = (v \<in> V s)))) \<and>
     (\<forall>st s s'. statement_of migs st \<longrightarrow> rn_exec R st s = (None, s') \<longrightarrow> V s' = after_statement st (V s)) \<and>
     (\<forall>st s err s'. statement_of migs st \<longrightarrow> rn_exec R st s = (Some err, s') \<longrightarrow> V s' = V s)"

text \<open>The runner that also logs the statements it is given, each with its error.\<close>

definition logged :: "'s runner \<Rightarrow> ((statement \<times> go_error option) list \<times> 's) runner" where
  "logged R =
     \<lparr>rn_exec = \<lambda>st (l, s). case rn_exec R st s of (err, s') \<Rightarrow> (err, l @ [(st, err)], s'),
      rn_query = map_option (\<lambda>q v (l, s). case q v s of (res, s') \<Rightarrow> (res, l, s')) (rn_query R)\<rparr>"

text \<open>At most the last statement of a log failed.\<close>

abbreviation failed_last :: "(statement \<times> go_error option) list \<Rightarrow> bool" where
  "failed_last l \<equiv> (\<forall>x \<in> set (butlast l). snd x = None)"

fun up_statements :: "string set \<Rightarrow> (nat \<Rightarrow> gotime) \<Rightarrow> migration list \<Rightarrow> statement list" where
  "up_statements vs clock [] = []"
| "up_statements vs clock (m # ms) =
     (if mi_Version m \<in> vs then up_statements vs clock ms
      else Script (mi_Up m) # InsertVersion (mi_Version m) (clock (length ms)) # up_statements vs clock ms)"

fun down_statements :: "string set \<Rightarrow> migration list \<Rightarrow> statement list" where
  "down_statements vs [] = []"
| "down_statements vs (m # ms) =
     (if mi_Version m \<in> vs then Script (mi_Down m) # DeleteVersion (mi_Version m) # down_statements vs ms
      else down_statements vs ms)"

section \<open>Lemmas\<close>

lemma is_applied_logged:
  assumes "tracks_versions migs R V"
  obtains (failed) err where "is_applied (logged R) dflt v (l, s) = (Inl err, l, s)"
    | (known) "is_applied (logged R) dflt v (l, s) = (Inr (v \<in> V s), l, s)"
proof -
  from assms obtain q where q: "rn_query R = Some q"
    and 1: "snd (q v s) = s" "\<And>b. fst (q v s) = Inr b \<Longrightarrow> b = (v \<in> V s)"
    by (auto simp: tracks_versions_def)
  have e: "is_applied (logged R) dflt v (l, s) = (fst (q v s), l, s)"
    using q 1(1) by (simp add: is_applied_def logged_def split_beta)
  show thesis
  proof (cases "fst (q v s)")
    case (Inl err)
    then show thesis using failed e by simp
  next
    case (Inr b)
    then show thesis using known e 1(2) by simp
  qed
qed

lemma exec_logged:
  assumes "tracks_versions migs R V" "statement_of migs st"
  obtains (ok) s' where "rn_exec (logged R) st (l, s) = (None, l @ [(st, None)], s')" "V s' = after_statement st (V s)"
    | (failed) err s' where "rn_exec (logged R) st (l, s) = (Some err, l @ [(st, Some err)], s')" "V s' = V s"
  using assms by (cases "rn_exec R st s"; cases "fst (rn_exec R st s)") (auto simp: logged_def tracks_versions_def)

lemma up_statements_insert:
  "v \<notin> mi_Version ` set ms \<Longrightarrow> up_statements (insert v vs) clock ms = up_statements vs clock ms"
  by (induction ms) auto

lemma down_statements_remove:
  "v \<notin> mi_Version ` set ms \<Longrightarrow> down_statements (vs - {v}) ms = down_statements vs ms"
  by (induction ms) auto

text \<open>One turn of each loop: it stops with an error, skips the version, or carries it out.\<close>

lemma up_turn:
  assumes "tracks_versions migs R V" "m \<in> set migs"
  obtains (stop) err dn s1 where "up_loop (logged R) clock (m # ms) (l, s) = (Some err, l @ dn, s1)"
      "prefix (map fst dn) (up_statements (V s) clock (m # ms))" "failed_last dn" "V s1 = V s"
    | (skip) "mi_Version m \<in> V s" "up_loop (logged R) clock (m # ms) (l, s) = up_loop (logged R) clock ms (l, s)"
    | (run) s1 where "mi_Version m \<notin> V s" "V s1 = insert (mi_Version m) (V s)"
      "up_loop (logged R) clock (m # ms) (l, s) = up_loop (logged R) clock ms
         (l @ [(Script (mi_Up m), None), (InsertVersion (mi_Version m) (clock (length ms)), None)], s1)"
proof (cases rule: is_applied_logged [OF assms(1), of False "mi_Version m" l s])
  case (1 err)
  then show thesis by (intro stop [of err "[]" s]) simp_all
next
  case a: 2
  let ?ins = "InsertVersion (mi_Version m) (clock (length ms))"
  have st: "statement_of migs (Script (mi_Up m))" "statement_of migs ?ins" using assms(2) by auto
  show thesis
  proof (cases "mi_Version m \<in> V s")
    case True
    then show thesis using a by (intro skip) simp_all
  next
    case False
    show thesis
    proof (cases rule: exec_logged [OF assms(1) st(1), of l s])
      case (2 err s1)
      then show thesis using a False by (intro stop [of _ "[(Script (mi_Up m), Some err)]" s1]) simp_all
    next
      case s1: (1 s1)
      show thesis
      proof (cases rule: exec_logged [OF assms(1) st(2), of "l @ [(Script (mi_Up m), None)]" s1])
        case (2 err s2)
        then show thesis using a False s1 by (intro stop [of _ "[(Script (mi_Up m), None), (?ins, Some err)]" s2]) simp_all
      next
        case (1 s2)
        then show thesis using a False s1 by (intro run [of s2]) simp_all
      qed
    qed
  qed
qed

lemma down_turn:
  assumes "tracks_versions migs R V" "m \<in> set migs"
  obtains (stop) err dn s1 where "down_loop (logged R) (m # ms) (l, s) = (Some err, l @ dn, s1)"
      "prefix (map fst dn) (down_statements (V s) (m # ms))" "failed_last dn" "V s1 = V s"
    | (skip) "mi_Version m \<notin> V s" "down_loop (logged R) (m # ms) (l, s) = down_loop (logged R) ms (l, s)"
    | (run) s1 where "mi_Version m \<in> V s" "V s1 = V s - {mi_Version m}"
      "down_loop (logged R) (m # ms) (l, s) =
         down_loop (logged R) ms (l @ [(Script (mi_Down m), None), (DeleteVersion (mi_Version m), None)], s1)"
proof (cases rule: is_applied_logged [OF assms(1), of True "mi_Version m" l s])
  case (1 err)
  then show thesis by (intro stop [of err "[]" s]) simp_all
next
  case a: 2
  let ?del = "DeleteVersion (mi_Version m)"
  have st: "statement_of migs (Script (mi_Down m))" "statement_of migs ?del" using assms(2) by auto
  show thesis
  proof (cases "mi_Version m \<in> V s")
    case False
    then show thesis using a by (intro skip) simp_all
  next
    case True
    show thesis
    proof (cases rule: exec_logged [OF assms(1) st(1), of l s])
      case (2 err s1)
      then show thesis using a True by (intro stop [of _ "[(Script (mi_Down m), Some err)]" s1]) simp_all
    next
      case s1: (1 s1)
      show thesis
      proof (cases rule: exec_logged [OF assms(1) st(2), of "l @ [(Script (mi_Down m), None)]" s1])
        case (2 err s2)
        then show thesis using a True s1 by (intro stop [of _ "[(Script (mi_Down m), None), (?del, Some err)]" s2]) simp_all
      next
        case (1 s2)
        then show thesis using a True s1 by (intro run [of s2]) simp_all
      qed
    qed
  qed
qed

text \<open>
  What a run of a loop does: the statements are a prefix of the expected ones, none after a failed
  one, all of them and none failed on success; and the table changes by the versions whose \<open>INSERT\<close> or
  \<open>DELETE\<close> succeeded.
\<close>

lemma up_loop_logged:
  assumes "tracks_versions migs R V" "distinct (map mi_Version ms)" "set ms \<subseteq> set migs"
    and "up_loop (logged R) clock ms (l, s) = (res, l', s')"
  shows "\<exists>dn. l' = l @ dn \<and> prefix (map fst dn) (up_statements (V s) clock ms) \<and> failed_last dn \<and> V s \<subseteq> V s' \<and>
    (\<forall>v \<in> V s' - V s. \<exists>t. (InsertVersion v t, None) \<in> set dn) \<and>
    (res = None \<longrightarrow> map fst dn = up_statements (V s) clock ms \<and> (\<forall>x \<in> set dn. snd x = None) \<and> V s' = V s \<union> mi_Version ` set ms)"
  using assms(2-4)
proof (induction ms arbitrary: l s)
  case (Cons m ms)
  let ?do = "[(Script (mi_Up m), None), (InsertVersion (mi_Version m) (clock (length ms)), None)]"
  have m: "m \<in> set migs" using Cons.prems(2) by simp
  show ?case
  proof (cases rule: up_turn [OF assms(1) m, of clock ms l s])
    case (1 err dn s1)
    then show ?thesis using Cons.prems by auto
  next
    case 2
    with Cons.IH [of l s] Cons.prems show ?thesis by (auto simp: insert_absorb)
  next
    case (3 s1)
    have u: "up_statements (V s1) clock ms = up_statements (V s) clock ms"
      unfolding 3(2) using Cons.prems(1) by (intro up_statements_insert) simp
    from Cons.IH [of "l @ ?do" s1] Cons.prems 3(3) obtain dn where
      "l' = (l @ ?do) @ dn" "prefix (map fst dn) (up_statements (V s) clock ms)" "failed_last dn" "V s1 \<subseteq> V s'"
      "\<forall>v \<in> V s' - V s1. \<exists>t. (InsertVersion v t, None) \<in> set dn"
      "res = None \<longrightarrow> map fst dn = up_statements (V s) clock ms \<and> (\<forall>x \<in> set dn. snd x = None) \<and> V s' = V s1 \<union> mi_Version ` set ms"
      unfolding u by auto
    then show ?thesis using 3(1,2) by (intro exI [of _ "?do @ dn"]) (auto simp: butlast_append)
  qed
qed auto

lemma down_loop_logged:
  assumes "tracks_versions migs R V" "distinct (map mi_Version ms)" "set ms \<subseteq> set migs"
    and "down_loop (logged R) ms (l, s) = (res, l', s')"
  shows "\<exists>dn. l' = l @ dn \<and> prefix (map fst dn) (down_statements (V s) ms) \<and> failed_last dn \<and> V s' \<subseteq> V s \<and>
    (\<forall>v \<in> V s - V s'. (DeleteVersion v, None) \<in> set dn) \<and>
    (res = None \<longrightarrow> map fst dn = down_statements (V s) ms \<and> (\<forall>x \<in> set dn. snd x = None) \<and> V s' = V s - mi_Version ` set ms)"
  using assms(2-4)
proof (induction ms arbitrary: l s)
  case (Cons m ms)
  let ?do = "[(Script (mi_Down m), None), (DeleteVersion (mi_Version m), None)]"
  have m: "m \<in> set migs" using Cons.prems(2) by simp
  show ?case
  proof (cases rule: down_turn [OF assms(1) m, of ms l s])
    case (1 err dn s1)
    then show ?thesis using Cons.prems by auto
  next
    case 2
    with Cons.IH [of l s] Cons.prems show ?thesis by auto
  next
    case (3 s1)
    have u: "down_statements (V s1) ms = down_statements (V s) ms"
      unfolding 3(2) using Cons.prems(1) by (intro down_statements_remove) simp
    from Cons.IH [of "l @ ?do" s1] Cons.prems 3(3) obtain dn where
      "l' = (l @ ?do) @ dn" "prefix (map fst dn) (down_statements (V s) ms)" "failed_last dn" "V s' \<subseteq> V s1"
      "\<forall>v \<in> V s1 - V s'. (DeleteVersion v, None) \<in> set dn"
      "res = None \<longrightarrow> map fst dn = down_statements (V s) ms \<and> (\<forall>x \<in> set dn. snd x = None) \<and> V s' = V s1 - mi_Version ` set ms"
      unfolding u by auto
    then show ?thesis using 3(1,2) by (intro exI [of _ "?do @ dn"]) (auto simp: butlast_append)
  qed
qed auto

subsection \<open>Collecting the files\<close>

definition keyed :: "(string, migration) gomap \<Rightarrow> bool" where
  "keyed m \<longleftrightarrow> wf_map m \<and> (\<forall>v x. map_of m v = Some x \<longrightarrow> mi_Version x = v)"

lemma keyed_set_migration:
  "keyed m \<Longrightarrow> (\<And>x. mi_Version (upd x) = mi_Version x) \<Longrightarrow> keyed (set_migration v upd m)"
  by (auto simp: keyed_def set_migration_def split: option.splits)

lemma collect_files_keyed: "keyed m \<Longrightarrow> collect_files es m = Inr m' \<Longrightarrow> keyed m'"
  by (induction es m rule: collect_files.induct)
    (auto simp: keyed_set_migration split: if_splits sum.splits)

lemma complete_versions_ok:
  "complete_versions m vs = Inr out \<Longrightarrow> keyed m \<Longrightarrow>
    map mi_Version out = vs \<and> (\<forall>x \<in> set out. map_of m (mi_Version x) = Some x \<and> mi_Up x \<noteq> '''' \<and> mi_Down x \<noteq> '''')"
proof (induction vs arbitrary: out)
  case (Cons v vs)
  then obtain x out' where x: "map_of m v = Some x" "mi_Up x \<noteq> ''''" "mi_Down x \<noteq> ''''"
    and out: "complete_versions m vs = Inr out'" "out = x # out'"
    by (auto split: option.splits if_splits sum.splits)
  have "mi_Version x = v" using x(1) Cons.prems(2) unfolding keyed_def by blast
  then show ?case using Cons.IH [OF out(1) Cons.prems(2)] x out(2) by simp
qed simp

lemma All_migrations_ok:
  assumes "All_migrations dir = Inr migs"
  obtains es m where "dir = Inr es" "collect_files es [] = Inr m" "keyed m"
    "map mi_Version migs = sort (map fst m)"
    "\<forall>x \<in> set migs. map_of m (mi_Version x) = Some x \<and> mi_Up x \<noteq> '''' \<and> mi_Down x \<noteq> ''''"
proof -
  from assms obtain es m where 1: "dir = Inr es" "collect_files es [] = Inr m"
    "complete_versions m (sort (map fst m)) = Inr migs"
    by (auto simp: All_migrations_def split: sum.splits)
  have "keyed m" using collect_files_keyed [OF _ 1(2)] by (simp add: keyed_def)
  then show thesis using that 1 complete_versions_ok [OF 1(3)] by blast
qed

lemma All_migrations_distinct: "All_migrations dir = Inr migs \<Longrightarrow> distinct (map mi_Version migs)"
  by (elim All_migrations_ok) (simp add: keyed_def wf_map_def)

text \<open>The files the collected texts come from, and that no version is missed.\<close>

definition from_files :: "dir_entry list \<Rightarrow> (string, migration) gomap \<Rightarrow> bool" where
  "from_files es m \<longleftrightarrow> (\<forall>v x. map_of m v = Some x \<longrightarrow>
     (mi_Up x \<noteq> '''' \<longrightarrow> (\<exists>e \<in> set es. \<not> en_is_dir e \<and> en_name e = v @ ''_up.sql'' \<and> en_content e = Inr (mi_Up x))) \<and>
     (mi_Down x \<noteq> '''' \<longrightarrow> (\<exists>e \<in> set es. \<not> en_is_dir e \<and> en_name e = v @ ''_down.sql'' \<and> en_content e = Inr (mi_Down x))))"

lemma trim_suffix_append: "suffix p s \<Longrightarrow> trim_suffix s p @ p = s"
  by (auto simp: trim_suffix_def suffix_def)

lemma trim_suffix_append_same [simp]: "trim_suffix (v @ p) p = v"
  by (simp add: trim_suffix_def suffix_def)

lemma from_files_set_up:
  assumes "from_files es m" "e \<in> set es" "\<not> en_is_dir e" "has_suffix (en_name e) ''_up.sql''" "en_content e = Inr b"
  shows "from_files es (set_migration (trim_suffix (en_name e) ''_up.sql'') (\<lambda>x. x\<lparr>mi_Up := b\<rparr>) m)"
proof -
  have "en_name e = trim_suffix (en_name e) ''_up.sql'' @ ''_up.sql''"
    using assms(4) trim_suffix_append by (metis has_suffix_def)
  then show ?thesis using assms unfolding from_files_def set_migration_def
    by (auto split: option.splits if_splits)
qed

lemma from_files_set_down:
  assumes "from_files es m" "e \<in> set es" "\<not> en_is_dir e" "has_suffix (en_name e) ''_down.sql''" "en_content e = Inr b"
  shows "from_files es (set_migration (trim_suffix (en_name e) ''_down.sql'') (\<lambda>x. x\<lparr>mi_Down := b\<rparr>) m)"
proof -
  have "en_name e = trim_suffix (en_name e) ''_down.sql'' @ ''_down.sql''"
    using assms(4) trim_suffix_append by (metis has_suffix_def)
  then show ?thesis using assms unfolding from_files_def set_migration_def
    by (auto split: option.splits if_splits)
qed

lemma collect_files_from:
  assumes "collect_files es m = Inr m'" "set es \<subseteq> set all" "from_files all m"
  shows "from_files all m'"
  using assms
proof (induction es m rule: collect_files.induct)
  case (2 e es m)
  then show ?case using from_files_set_up [of all m e] from_files_set_down [of all m e]
    by (auto split: if_splits sum.splits)
qed simp

lemma dom_set_migration: "dom (map_of (set_migration v upd m)) = insert v (dom (map_of m))"
  by (auto simp: set_migration_def)

lemma collect_files_versions:
  "collect_files es m = Inr m' \<Longrightarrow> dom (map_of m) \<subseteq> dom (map_of m') \<and>
    (\<forall>e \<in> set es. \<forall>v. \<not> en_is_dir e \<and> (en_name e = v @ ''_up.sql'' \<or> en_name e = v @ ''_down.sql'') \<longrightarrow> v \<in> dom (map_of m'))"
proof (induction es m rule: collect_files.induct)
  case (2 e es m)
  have no: "\<not> suffix ''_up.sql'' (v @ ''_down.sql'')" for v :: string by (auto simp: suffix_def append_eq_append_conv2 Cons_eq_append_conv)
  show ?case
  proof (cases "en_is_dir e")
    case True
    then show ?thesis using 2 by auto
  next
    case False
    have yes: "suffix p (v @ p)" for v p :: string by (simp add: suffix_def)
    show ?thesis using False 2 no yes by (auto simp: dom_set_migration has_suffix_def split: if_splits sum.splits)
  qed
qed simp

lemma up_statements_applied: "mi_Version ` set ms \<subseteq> vs \<Longrightarrow> up_statements vs clock ms = []"
  by (induction ms) auto

lemma Runner_Up_logged:
  assumes t: "tracks_versions migs R V" and r: "Runner_Up dir (logged R) clock ([], s) = (res, l, s')"
    and m: "All_migrations dir = Inr migs"
  shows "prefix (map fst l) (CreateMigrationsTable # up_statements (V s) clock migs) \<and> failed_last l \<and> V s \<subseteq> V s' \<and>
    (\<forall>v \<in> V s' - V s. \<exists>t. (InsertVersion v t, None) \<in> set l) \<and>
    (res = None \<longrightarrow> map fst l = CreateMigrationsTable # up_statements (V s) clock migs \<and> (\<forall>x \<in> set l. snd x = None) \<and>
      V s' = V s \<union> mi_Version ` set migs)"
proof (cases rule: exec_logged [OF t statement_of.simps(2) [THEN iffD2, OF TrueI], of "[]" s])
  case (1 s1)
  have V: "V s1 = V s" using 1(2) by simp
  have "up_loop (logged R) clock migs ([(CreateMigrationsTable, None)], s1) = (res, l, s')"
    using r 1(1) by (simp add: Runner_Up_def m)
  from up_loop_logged [OF t All_migrations_distinct [OF m] order_refl this] show ?thesis unfolding V by (auto split: if_splits)
next
  case (2 err s1)
  then show ?thesis using r by (auto simp: Runner_Up_def)
qed

lemma Runner_Down_logged:
  assumes t: "tracks_versions migs R V" and r: "Runner_Down dir (logged R) ([], s) = (res, l, s')"
    and m: "All_migrations dir = Inr migs"
  shows "prefix (map fst l) (down_statements (V s) (rev migs)) \<and> failed_last l \<and> V s' \<subseteq> V s \<and>
    (res = None \<longrightarrow> map fst l = down_statements (V s) (rev migs) \<and> (\<forall>x \<in> set l. snd x = None) \<and> V s' = V s - mi_Version ` set migs)"
proof -
  have "distinct (map mi_Version (rev migs))" using All_migrations_distinct [OF m] by (simp add: rev_map [symmetric])
  moreover have "down_loop (logged R) (rev migs) ([], s) = (res, l, s')" using r by (simp add: Runner_Down_def m)
  ultimately show ?thesis using down_loop_logged [OF t, of "rev migs" "[]" s res l s'] by fastforce
qed

section \<open>Properties\<close>

text \<open>
  C24: What \<open>All\<close> collects. The versions come out in strictly increasing order; the two texts of
  each are not empty and are the contents of the files \<open><version>_up.sql\<close> and
  \<open><version>_down.sql\<close>; and no file with such a name is left out.
\<close>

theorem migrations_collected:
  assumes "All_migrations (Inr es) = Inr migs"
  shows "sorted_wrt (<) (map mi_Version migs) \<and>
    (\<forall>m \<in> set migs. mi_Up m \<noteq> '''' \<and> mi_Down m \<noteq> '''' \<and>
      (\<exists>e \<in> set es. \<not> en_is_dir e \<and> en_name e = mi_Version m @ ''_up.sql'' \<and> en_content e = Inr (mi_Up m)) \<and>
      (\<exists>e \<in> set es. \<not> en_is_dir e \<and> en_name e = mi_Version m @ ''_down.sql'' \<and> en_content e = Inr (mi_Down m))) \<and>
    (\<forall>e \<in> set es. \<forall>v. \<not> en_is_dir e \<and> (en_name e = v @ ''_up.sql'' \<or> en_name e = v @ ''_down.sql'') \<longrightarrow>
      v \<in> mi_Version ` set migs)"
proof -
  obtain m where m: "collect_files es [] = Inr m" "keyed m" "map mi_Version migs = sort (map fst m)"
    "\<forall>x \<in> set migs. map_of m (mi_Version x) = Some x \<and> mi_Up x \<noteq> '''' \<and> mi_Down x \<noteq> ''''"
    using All_migrations_ok [OF assms] by (metis sum.inject(2))
  have "distinct (map mi_Version migs)" by (rule All_migrations_distinct [OF assms])
  then have 1: "sorted_wrt (<) (map mi_Version migs)" by (simp add: m(3) strict_sorted_iff)
  have "from_files es m" by (rule collect_files_from [OF m(1)]) (simp_all add: from_files_def)
  with m(4) have 2: "\<forall>m \<in> set migs. mi_Up m \<noteq> '''' \<and> mi_Down m \<noteq> '''' \<and>
      (\<exists>e \<in> set es. \<not> en_is_dir e \<and> en_name e = mi_Version m @ ''_up.sql'' \<and> en_content e = Inr (mi_Up m)) \<and>
      (\<exists>e \<in> set es. \<not> en_is_dir e \<and> en_name e = mi_Version m @ ''_down.sql'' \<and> en_content e = Inr (mi_Down m))"
    unfolding from_files_def by blast
  have "mi_Version ` set migs = dom (map_of m)"
    using arg_cong [OF m(3), of set] by (simp add: dom_map_of_conv_image_fst)
  with collect_files_versions [OF m(1)] 1 2 show ?thesis by blast
qed

text \<open>
  C25: running the migrations up. On a database that keeps the version table as \<open>tracks_versions\<close>
  says, the statements given to it are, in order, the creation of the table and then, for each
  version not yet in the table, its script followed by its record; a run that fails has given a
  prefix of these, nothing after a statement that failed, and a version is in the table only if it was
  before or its record succeeded. A run that succeeds has given all of them, none failed and every
  version is recorded, and a second successful one then only creates the table again.
\<close>

theorem migrate_up_once:
  assumes "tracks_versions migs R V" "All_migrations dir = Inr migs"
    and "Runner_Up dir (logged R) clock ([], s) = (res, l, s')"
  shows "prefix (map fst l) (CreateMigrationsTable # up_statements (V s) clock migs) \<and>
    (\<forall>x \<in> set (butlast l). snd x = None) \<and> V s \<subseteq> V s' \<and>
    (\<forall>v \<in> V s' - V s. \<exists>t. (InsertVersion v t, None) \<in> set l) \<and>
    (res = None \<longrightarrow> map fst l = CreateMigrationsTable # up_statements (V s) clock migs \<and> (\<forall>x \<in> set l. snd x = None) \<and>
      V s' = V s \<union> mi_Version ` set migs \<and>
      (\<forall>clock' l' s''. Runner_Up dir (logged R) clock' ([], s') = (None, l', s'') \<longrightarrow>
        l' = [(CreateMigrationsTable, None)] \<and> V s'' = V s'))"
proof -
  note up = Runner_Up_logged [OF assms(1,3,2)]
  have "l' = [(CreateMigrationsTable, None)] \<and> V s'' = V s'"
    if "res = None" and r: "Runner_Up dir (logged R) clock' ([], s') = (None, l', s'')" for clock' l' s''
  proof -
    have sub: "mi_Version ` set migs \<subseteq> V s'" using up that(1) by auto
    with Runner_Up_logged [OF assms(1) r assms(2)] up_statements_applied [OF sub, of clock']
    show ?thesis by (cases l') auto
  qed
  then have again: "res = None \<longrightarrow> (\<forall>clock' l' s''. Runner_Up dir (logged R) clock' ([], s') = (None, l', s'') \<longrightarrow>
      l' = [(CreateMigrationsTable, None)] \<and> V s'' = V s')" by blast
  show ?thesis by (intro conjI impI) (use up again in simp_all)
qed

text \<open>
  C26: up and down are inverse on the version table. If none of the versions is in the table and
  both runs succeed, the table is back to what it was, and \<open>Down\<close> has reverted the scripts in the
  opposite order to the one in which \<open>Up\<close> applied them; no statement of the two runs failed.
\<close>

theorem migrate_down_inverse:
  assumes "tracks_versions migs R V" "All_migrations dir = Inr migs" "V s \<inter> mi_Version ` set migs = {}"
    and "Runner_Up dir (logged R) clock ([], s) = (None, l1, s1)" "Runner_Down dir (logged R) ([], s1) = (None, l2, s2)"
  shows "V s2 = V s \<and> [x. Script x \<leftarrow> map fst l1] = map mi_Up migs \<and> [x. Script x \<leftarrow> map fst l2] = map mi_Down (rev migs) \<and>
    (\<forall>x \<in> set (l1 @ l2). snd x = None)"
proof -
  have up: "map fst l1 = CreateMigrationsTable # up_statements (V s) clock migs" "V s1 = V s \<union> mi_Version ` set migs"
    "\<forall>x \<in> set l1. snd x = None"
    using Runner_Up_logged [OF assms(1,4,2)] by auto
  have down: "map fst l2 = down_statements (V s1) (rev migs)" "V s2 = V s1 - mi_Version ` set migs" "\<forall>x \<in> set l2. snd x = None"
    using Runner_Down_logged [OF assms(1,5,2)] by auto
  have "V s \<inter> mi_Version ` set ms = {} \<Longrightarrow> [x. Script x \<leftarrow> up_statements (V s) clock ms] = map mi_Up ms" for ms
    by (induction ms) auto
  moreover have "mi_Version ` set ms \<subseteq> V s1 \<Longrightarrow> [x. Script x \<leftarrow> down_statements (V s1) ms] = map mi_Down ms" for ms
    by (induction ms) auto
  ultimately show ?thesis unfolding up(1) down(1) using up(2,3) down(2,3) assms(3) by auto
qed

text \<open>A database with a version table and no other state, and the embedded directory of the repository.\<close>

definition table_runner :: "string list runner" where
  "table_runner =
     \<lparr>rn_exec = \<lambda>st vs. (None, case st of InsertVersion v t \<Rightarrow> List.insert v vs | DeleteVersion v \<Rightarrow> removeAll v vs | _ \<Rightarrow> vs),
      rn_query = Some (\<lambda>v vs. (Inr (v \<in> set vs), vs))\<rparr>"

lemma table_runner_tracks: "tracks_versions migs table_runner set"
proof -
  have "set (case st of InsertVersion v t \<Rightarrow> List.insert v vs | DeleteVersion v \<Rightarrow> removeAll v vs | _ \<Rightarrow> vs) =
      after_statement st (set vs)" for st vs
    by (cases st) auto
  then show ?thesis by (auto simp: tracks_versions_def table_runner_def)
qed

definition sample_dir :: "dir_entry list" where
  "sample_dir =
     [\<lparr>en_name = ''0001_init_down.sql'', en_is_dir = False, en_content = Inr ''DROP''\<rparr>,
      \<lparr>en_name = ''0001_init_up.sql'', en_is_dir = False, en_content = Inr ''CREATE''\<rparr>,
      \<lparr>en_name = ''migrations.go'', en_is_dir = False, en_content = Inr ''package''\<rparr>]"

definition sample_migration :: migration where
  "sample_migration = \<lparr>mi_Version = ''0001_init'', mi_Up = ''CREATE'', mi_Down = ''DROP''\<rparr>"

lemma sample_dir_collected: "All_migrations (Inr sample_dir) = Inr [sample_migration]"
  by (simp add: All_migrations_def sample_dir_def sample_migration_def has_suffix_def suffix_def trim_suffix_def set_migration_def)

theorem migrations_collected_witness:
  "\<exists>migs. All_migrations (Inr sample_dir) = Inr migs \<and> ''0001_init'' \<in> mi_Version ` set migs"
proof -
  note c = migrations_collected [OF sample_dir_collected]
  have "\<lparr>en_name = ''0001_init_up.sql'', en_is_dir = False, en_content = Inr ''CREATE''\<rparr> \<in> set sample_dir"
    by (simp add: sample_dir_def)
  with c have "''0001_init'' \<in> mi_Version ` set [sample_migration]" by fastforce
  then show ?thesis using sample_dir_collected by blast
qed

theorem migrate_up_once_witness:
  "\<exists>l s'. Runner_Up (Inr sample_dir) (logged table_runner) (\<lambda>i. 7) ([], []) = (None, l, s') \<and>
     map fst l = [CreateMigrationsTable, Script ''CREATE'', InsertVersion ''0001_init'' 7] \<and> set s' = {''0001_init''}"
proof -
  obtain res l s' where r: "Runner_Up (Inr sample_dir) (logged table_runner) (\<lambda>i. 7) ([], []) = (res, l, s')"
    by (metis surj_pair)
  have "res = None"
    using r by (auto simp: Runner_Up_def sample_dir_collected sample_migration_def logged_def table_runner_def is_applied_def)
  with migrate_up_once [OF table_runner_tracks sample_dir_collected r] r show ?thesis
    by (simp add: sample_migration_def)
qed

theorem migrate_down_inverse_witness:
  "\<exists>l1 s1 l2 s2. Runner_Up (Inr sample_dir) (logged table_runner) (\<lambda>i. 7) ([], []) = (None, l1, s1) \<and>
     Runner_Down (Inr sample_dir) (logged table_runner) ([], s1) = (None, l2, s2) \<and> set s2 = {} \<and>
     [x. Script x \<leftarrow> map fst l2] = [''DROP'']"
proof -
  let ?l1 = "[(CreateMigrationsTable, None), (Script ''CREATE'', None), (InsertVersion ''0001_init'' 7, None)]"
  let ?l2 = "[(Script ''DROP'', None), (DeleteVersion ''0001_init'', None)]"
  have u: "Runner_Up (Inr sample_dir) (logged table_runner) (\<lambda>i. 7) ([], []) = (None, ?l1, [''0001_init''])"
    by (simp add: Runner_Up_def sample_dir_collected sample_migration_def logged_def table_runner_def is_applied_def)
  have d: "Runner_Down (Inr sample_dir) (logged table_runner) ([], [''0001_init'']) = (None, ?l2, [])"
    by (simp add: Runner_Down_def sample_dir_collected sample_migration_def logged_def table_runner_def is_applied_def)
  from migrate_down_inverse [OF table_runner_tracks sample_dir_collected _ u d] u d show ?thesis by auto
qed

end
