(* ===== verification/Pg_Store.thy ===== *)
theory Pg_Store
  imports Order_Store Sql_Migrations
begin

text \<open>
  The PostgreSQL store of \<open>internal/store/postgres/postgres.go\<close>.

  The pool of pgx is the argument \<open>pool\<close>: its functions take a statement text, the arguments and
  the state of the database. What the definitions model is the code around it: which statement is
  given which arguments, how rows are scanned, how results and errors are returned. What the
  lemmas assume of the database is \<open>pg_laws\<close>, in terms of the rows of the two tables: the unique
  constraints of \<open>0001_init_up.sql\<close>, \<open>ON CONFLICT DO NOTHING\<close>, and the microsecond resolution of
  \<open>TIMESTAMPTZ\<close>. Decimals travel as text, which a \<open>NUMERIC\<close> column gives back as it was given.
  Line breaks in statement texts are written as blanks.
\<close>

section \<open>Definitions\<close>

datatype sql_val = VText string | VTime gotime | VBool bool

type_synonym sql_row = "sql_val list"

text \<open>\<open>Exec\<close> with the rows affected, \<open>QueryRow\<close>, and \<open>Query\<close> with the rows and \<open>rows.Err()\<close>.\<close>

record 's pool =
  pp_Exec :: "string \<Rightarrow> sql_val list \<Rightarrow> 's \<Rightarrow> (go_error + int64) \<times> 's"
  pp_QueryRow :: "string \<Rightarrow> sql_val list \<Rightarrow> 's \<Rightarrow> go_error + sql_row"
  pp_Query :: "string \<Rightarrow> sql_val list \<Rightarrow> 's \<Rightarrow> go_error + (sql_row list \<times> go_error option)"

subsection \<open>Open\<close>

definition version_exists_sql :: string where
  "version_exists_sql = ''SELECT EXISTS(SELECT 1 FROM schema_migrations WHERE version=$1)''"

fun statement_sql :: "statement \<Rightarrow> string" where
  "statement_sql CreateMigrationsTable =
     ''CREATE TABLE IF NOT EXISTS schema_migrations ( version TEXT PRIMARY KEY, '' @
     ''applied_at TIMESTAMPTZ NOT NULL DEFAULT now() )''"
| "statement_sql (Script q) = q"
| "statement_sql (InsertVersion v t) =
     ''INSERT INTO schema_migrations(version, applied_at) VALUES ($1, $2) ON CONFLICT (version) DO NOTHING''"
| "statement_sql (DeleteVersion v) = ''DELETE FROM schema_migrations WHERE version=$1''"

fun statement_args :: "statement \<Rightarrow> sql_val list" where
  "statement_args (InsertVersion v t) = [VText v, VTime t]"
| "statement_args (DeleteVersion v) = [VText v]"
| "statement_args _ = []"

text \<open>The runner that \<open>Open\<close> makes of the pool; a row that is not one boolean does not scan.\<close>

definition pool_runner :: "'s pool \<Rightarrow> 's runner" where
  "pool_runner P =
     \<lparr>rn_exec = \<lambda>st s. (case pp_Exec P (statement_sql st) (statement_args st) s of
                          (Inl err, s') \<Rightarrow> (Some err, s') | (Inr _, s') \<Rightarrow> (None, s')),
      rn_query = Some (\<lambda>v s. (case pp_QueryRow P version_exists_sql [VText v] s of
                                Inl err \<Rightarrow> Inl err
                              | Inr [VBool b] \<Rightarrow> Inr b
                              | Inr _ \<Rightarrow> Inl (ErrMsg ''scan''), s))\<rparr>"

text \<open>
  \<open>connect\<close> is the result of \<open>pgxpool.New\<close>, \<open>ping\<close> of \<open>pool.Ping\<close>. The result is the error or the
  open pool, with whether \<open>pool.Close()\<close> was called.
\<close>

definition Pg_Open ::
  "go_error + dir_entry list \<Rightarrow> (nat \<Rightarrow> gotime) \<Rightarrow> go_error + 's pool \<Rightarrow> go_error option \<Rightarrow> 's \<Rightarrow>
   (go_error + 's pool) \<times> bool \<times> 's"
where
  "Pg_Open dir clock connect ping s =
     (case connect of
        Inl err \<Rightarrow> (Inl err, False, s)
      | Inr P \<Rightarrow>
          (case ping of
             Some err \<Rightarrow> (Inl err, True, s)
           | None \<Rightarrow>
               (case Runner_Up dir (pool_runner P) clock s of
                  (Some err, s') \<Rightarrow> (Inl (ErrWrap ''migrate: '' err), True, s')
                | (None, s') \<Rightarrow> (Inr P, False, s'))))"

subsection \<open>Orders\<close>

definition insert_order_sql :: string where
  "insert_order_sql =
     ''INSERT INTO orders (venue_order_id, client_order_id, venue, pair, side, order_type, status, '' @
     ''filled_qty, avg_price, quantity, price, created_at, updated_at) '' @
     ''VALUES ($1,$2,$3,$4,$5,$6,$7,$8,$9,$10,$11,$12,$13) ON CONFLICT (venue, client_order_id) DO NOTHING''"

definition orderSelectSQL :: string where
  "orderSelectSQL =
     ''SELECT venue_order_id, client_order_id, venue, pair, side, order_type, status, '' @
     ''filled_qty, avg_price, quantity, price, created_at, updated_at FROM orders''"

definition order_args :: "'d dec_ops \<Rightarrow> 'd store_order \<Rightarrow> sql_val list" where
  "order_args D r =
     [VText (so_VenueOrderID r), VText (so_ClientOrderID r), VText (so_Venue r), VText (so_Pair r), VText (so_Side r),
      VText (so_OrderType r), VText (so_Status r), VText (dec_string D (so_FilledQty r)),
      VText (dec_string D (so_AvgPrice r)), VText (dec_string D (so_Quantity r)), VText (dec_string D (so_Price r)),
      VTime (so_CreatedAt r), VTime (so_UpdatedAt r)]"

definition Pg_RecordOrder ::
  "'d dec_ops \<Rightarrow> 's pool \<Rightarrow> gotime \<Rightarrow> gotime \<Rightarrow> 'd store_order \<Rightarrow> 's \<Rightarrow> 's \<times> (go_error + bool)"
where
  "Pg_RecordOrder D P now1 now2 r s =
     (case pp_Exec P insert_order_sql (order_args D (stamp_order now1 now2 r)) s of
        (Inl err, s') \<Rightarrow> (s', Inl err)
      | (Inr n, s') \<Rightarrow> (s', Inr (n > 0)))"

text \<open>\<open>Scan\<close>: the columns must have the types of the destinations.\<close>

fun text_of :: "sql_val \<Rightarrow> string option" where
  "text_of (VText t) = Some t"
| "text_of _ = None"

fun time_of :: "sql_val \<Rightarrow> gotime option" where
  "time_of (VTime t) = Some t"
| "time_of _ = None"

definition scannable :: "nat \<Rightarrow> nat \<Rightarrow> sql_row \<Rightarrow> bool" where
  "scannable nt nm row \<longleftrightarrow>
     length row = nt + nm \<and> list_all (\<lambda>v. text_of v \<noteq> None) (take nt row) \<and>
     list_all (\<lambda>v. time_of v \<noteq> None) (drop nt row)"

definition col_text :: "sql_row \<Rightarrow> nat \<Rightarrow> string" where
  "col_text row i = (case text_of (row ! i) of Some t \<Rightarrow> t | None \<Rightarrow> '''')"

definition col_time :: "sql_row \<Rightarrow> nat \<Rightarrow> gotime" where
  "col_time row i = (case time_of (row ! i) of Some t \<Rightarrow> t | None \<Rightarrow> 0)"

definition scanOrder :: "'d dec_ops \<Rightarrow> go_error + sql_row \<Rightarrow> go_error + 'd store_order" where
  "scanOrder D res =
     (case res of
        Inl err \<Rightarrow> Inl err
      | Inr row \<Rightarrow>
          if \<not> scannable 11 2 row then Inl (ErrMsg ''scan'')
          else Inr \<lparr>so_VenueOrderID = col_text row 0, so_ClientOrderID = col_text row 1, so_Venue = col_text row 2,
                    so_Pair = col_text row 3, so_Side = col_text row 4, so_OrderType = col_text row 5,
                    so_Status = col_text row 6, so_FilledQty = dec_parse D (col_text row 7),
                    so_AvgPrice = dec_parse D (col_text row 8), so_Quantity = dec_parse D (col_text row 9),
                    so_Price = dec_parse D (col_text row 10), so_CreatedAt = col_time row 11,
                    so_UpdatedAt = col_time row 12\<rparr>)"

definition Pg_GetOrderByClientID :: "'d dec_ops \<Rightarrow> 's pool \<Rightarrow> string \<Rightarrow> 's \<Rightarrow> 'd store_order option" where
  "Pg_GetOrderByClientID D P cid s =
     (case scanOrder D (pp_QueryRow P (orderSelectSQL @ '' WHERE client_order_id=$1'') [VText cid] s) of
        Inl _ \<Rightarrow> None
      | Inr r \<Rightarrow> Some r)"

subsection \<open>Fills\<close>

definition insert_fill_sql :: string where
  "insert_fill_sql =
     ''INSERT INTO fills (venue_order_id, trade_id, venue, pair, price, quantity, fee, fee_asset, ts) '' @
     ''VALUES ($1,$2,$3,$4,$5,$6,$7,$8,$9) ON CONFLICT (venue, trade_id) DO NOTHING''"

definition fills_select_sql :: string where
  "fills_select_sql =
     ''SELECT venue_order_id, trade_id, venue, pair, price, quantity, fee, fee_asset, ts FROM fills '' @
     ''WHERE venue_order_id=$1 ORDER BY ts ASC''"

definition fill_args :: "'d dec_ops \<Rightarrow> 'd store_fill \<Rightarrow> sql_val list" where
  "fill_args D f =
     [VText (sf_VenueOrderID f), VText (sf_TradeID f), VText (sf_Venue f), VText (sf_Pair f),
      VText (dec_string D (sf_Price f)), VText (dec_string D (sf_Quantity f)), VText (dec_string D (sf_Fee f)),
      VText (sf_FeeAsset f), VTime (sf_Timestamp f)]"

definition Pg_RecordFill ::
  "'d dec_ops \<Rightarrow> 's pool \<Rightarrow> gotime \<Rightarrow> 'd store_fill \<Rightarrow> 's \<Rightarrow> 's \<times> (go_error + bool)"
where
  "Pg_RecordFill D P now f s =
     (case pp_Exec P insert_fill_sql (fill_args D (stamp_fill now f)) s of
        (Inl err, s') \<Rightarrow> (s', Inl err)
      | (Inr n, s') \<Rightarrow> (s', Inr (n > 0)))"

definition scanFill :: "'d dec_ops \<Rightarrow> sql_row \<Rightarrow> go_error + 'd store_fill" where
  "scanFill D row =
     (if \<not> scannable 8 1 row then Inl (ErrMsg ''scan'')
      else Inr \<lparr>sf_VenueOrderID = col_text row 0, sf_TradeID = col_text row 1, sf_Venue = col_text row 2,
                sf_Pair = col_text row 3, sf_Price = dec_parse D (col_text row 4),
                sf_Quantity = dec_parse D (col_text row 5), sf_Fee = dec_parse D (col_text row 6),
                sf_FeeAsset = col_text row 7, sf_Timestamp = col_time row 8\<rparr>)"

text \<open>The loop over the rows, then \<open>rows.Err()\<close>; the list that comes with an error is dropped.\<close>

fun scan_rows :: "'d dec_ops \<Rightarrow> go_error option \<Rightarrow> sql_row list \<Rightarrow> 'd store_fill list \<Rightarrow> go_error + 'd store_fill list" where
  "scan_rows D rows_err [] out = (case rows_err of None \<Rightarrow> Inr out | Some err \<Rightarrow> Inl err)"
| "scan_rows D rows_err (row # rows) out =
     (case scanFill D row of Inl err \<Rightarrow> Inl err | Inr f \<Rightarrow> scan_rows D rows_err rows (out @ [f]))"

definition Pg_FillsForOrder :: "'d dec_ops \<Rightarrow> 's pool \<Rightarrow> string \<Rightarrow> 's \<Rightarrow> go_error + 'd store_fill list" where
  "Pg_FillsForOrder D P venueOrderID s =
     (case pp_Query P fills_select_sql [VText venueOrderID] s of
        Inl err \<Rightarrow> Inl err
      | Inr (rows, rows_err) \<Rightarrow> scan_rows D rows_err rows [])"

section \<open>The database\<close>

text \<open>
  The rows of the two tables (the columns of the statements, in their order), and the value a
  column gives back: a \<open>TIMESTAMPTZ\<close> counts microseconds.
\<close>

record pg_tables =
  tb_orders :: "sql_row list"
  tb_fills :: "sql_row list"

fun stored_val :: "sql_val \<Rightarrow> sql_val" where
  "stored_val (VTime t) = VTime (t div 1000 * 1000)"
| "stored_val v = v"

definition stored :: "sql_row \<Rightarrow> sql_row" where
  "stored row = map stored_val row"

text \<open>
  \<open>pg_laws P T\<close>: the statements on a working database, whose tables are \<open>T s\<close>. An order whose
  venue and client id are known is not inserted, and no row is affected; one whose venue order
  id, the primary key, is known is refused; otherwise the row is added. A fill whose venue and
  trade id are known is not inserted, any other is. Reading an order by its client id gives some
  row with that id; reading the fills of an order gives them ordered by time.

  The laws are what the keys of the two tables and the \<open>ON CONFLICT\<close> clauses of the SQL texts mean,
  idealised: every row of the right length is taken to fit its columns, whereas PostgreSQL refuses
  a text with a zero byte, a number beyond the range of \<open>NUMERIC\<close> and a value of another type. The
  rows that the store builds have the columns' types.
\<close>

definition insert_order_law :: "'s pool \<Rightarrow> ('s \<Rightarrow> pg_tables) \<Rightarrow> bool" where
  "insert_order_law P T \<longleftrightarrow> (\<forall>row s. length row = 13 \<longrightarrow>
     (let known = (\<exists>r \<in> set (tb_orders (T s)). r ! 1 = row ! 1 \<and> r ! 2 = row ! 2);
          pkey = (\<exists>r \<in> set (tb_orders (T s)). r ! 0 = row ! 0)
      in \<exists>s' err. pp_Exec P insert_order_sql row s =
           (if known then Inr 0 else if pkey then Inl err else Inr 1, s') \<and>
         T s' = (if known \<or> pkey then T s else (T s)\<lparr>tb_orders := tb_orders (T s) @ [stored row]\<rparr>)))"

definition insert_fill_law :: "'s pool \<Rightarrow> ('s \<Rightarrow> pg_tables) \<Rightarrow> bool" where
  "insert_fill_law P T \<longleftrightarrow> (\<forall>row s. length row = 9 \<longrightarrow>
     (let known = (\<exists>r \<in> set (tb_fills (T s)). r ! 1 = row ! 1 \<and> r ! 2 = row ! 2)
      in \<exists>s'. pp_Exec P insert_fill_sql row s = (Inr (if known then 0 else 1), s') \<and>
         T s' = (if known then T s else (T s)\<lparr>tb_fills := tb_fills (T s) @ [stored row]\<rparr>)))"

definition select_order_law :: "'s pool \<Rightarrow> ('s \<Rightarrow> pg_tables) \<Rightarrow> bool" where
  "select_order_law P T \<longleftrightarrow> (\<forall>cid s.
     (case pp_QueryRow P (orderSelectSQL @ '' WHERE client_order_id=$1'') [VText cid] s of
        Inl err \<Rightarrow> \<forall>r \<in> set (tb_orders (T s)). r ! 1 \<noteq> VText cid
      | Inr r \<Rightarrow> r \<in> set (tb_orders (T s)) \<and> r ! 1 = VText cid))"

definition select_fills_law :: "'s pool \<Rightarrow> ('s \<Rightarrow> pg_tables) \<Rightarrow> bool" where
  "select_fills_law P T \<longleftrightarrow> (\<forall>oid s. \<exists>rows.
     pp_Query P fills_select_sql [VText oid] s = Inr (rows, None) \<and>
     mset rows = mset (filter (\<lambda>r. r ! 0 = VText oid) (tb_fills (T s))) \<and>
     sorted (map (\<lambda>r. col_time r 8) rows))"

definition pg_laws :: "'s pool \<Rightarrow> ('s \<Rightarrow> pg_tables) \<Rightarrow> bool" where
  "pg_laws P T \<longleftrightarrow> insert_order_law P T \<and> insert_fill_law P T \<and> select_order_law P T \<and> select_fills_law P T"

text \<open>An order and a fill as they are read back: decimals by their text, times to the microsecond.\<close>

definition reread_order :: "'d dec_ops \<Rightarrow> 'd store_order \<Rightarrow> 'd store_order" where
  "reread_order D r =
     (let dec = \<lambda>d. dec_parse D (dec_string D d) in
      r\<lparr>so_FilledQty := dec (so_FilledQty r), so_AvgPrice := dec (so_AvgPrice r), so_Quantity := dec (so_Quantity r),
        so_Price := dec (so_Price r), so_CreatedAt := so_CreatedAt r div 1000 * 1000,
        so_UpdatedAt := so_UpdatedAt r div 1000 * 1000\<rparr>)"

definition reread_fill :: "'d dec_ops \<Rightarrow> 'd store_fill \<Rightarrow> 'd store_fill" where
  "reread_fill D f =
     (let dec = \<lambda>d. dec_parse D (dec_string D d) in
      f\<lparr>sf_Price := dec (sf_Price f), sf_Quantity := dec (sf_Quantity f), sf_Fee := dec (sf_Fee f),
        sf_Timestamp := sf_Timestamp f div 1000 * 1000\<rparr>)"

definition order_row :: "'d dec_ops \<Rightarrow> 'd store_order \<Rightarrow> sql_row" where
  "order_row D r = stored (order_args D r)"

definition fill_row :: "'d dec_ops \<Rightarrow> 'd store_fill \<Rightarrow> sql_row" where
  "fill_row D f = stored (fill_args D f)"

section \<open>Lemmas\<close>

lemma order_row_cols:
  "order_row D r ! 0 = VText (so_VenueOrderID r)" "order_row D r ! 1 = VText (so_ClientOrderID r)"
  "order_row D r ! 2 = VText (so_Venue r)" "order_row D r ! Suc 0 = VText (so_ClientOrderID r)"
  by (simp_all add: order_row_def stored_def order_args_def)

lemma order_args_cols:
  "order_args D r ! 0 = VText (so_VenueOrderID r)" "order_args D r ! 1 = VText (so_ClientOrderID r)"
  "order_args D r ! 2 = VText (so_Venue r)" "order_args D r ! Suc 0 = VText (so_ClientOrderID r)"
  "length (order_args D r) = 13"
  by (simp_all add: order_args_def)

lemma fill_row_cols:
  "fill_row D f ! 0 = VText (sf_VenueOrderID f)" "fill_row D f ! 1 = VText (sf_TradeID f)"
  "fill_row D f ! 2 = VText (sf_Venue f)" "fill_row D f ! Suc 0 = VText (sf_TradeID f)"
  "col_time (fill_row D f) 8 = sf_Timestamp f div 1000 * 1000"
  by (simp_all add: fill_row_def stored_def fill_args_def col_time_def)

lemma fill_args_cols:
  "fill_args D f ! 0 = VText (sf_VenueOrderID f)" "fill_args D f ! 1 = VText (sf_TradeID f)"
  "fill_args D f ! 2 = VText (sf_Venue f)" "fill_args D f ! Suc 0 = VText (sf_TradeID f)" "length (fill_args D f) = 9"
  by (simp_all add: fill_args_def)

lemma scan_order_row: "scanOrder D (Inr (order_row D r)) = Inr (reread_order D r)"
  by (simp add: scanOrder_def order_row_def stored_def order_args_def scannable_def col_text_def col_time_def
      reread_order_def Let_def)

lemma scan_fill_row: "scanFill D (fill_row D f) = Inr (reread_fill D f)"
  by (simp add: scanFill_def fill_row_def stored_def fill_args_def scannable_def col_text_def col_time_def
      reread_fill_def Let_def)

lemma scan_rows_map: "scan_rows D None (map (fill_row D) fs) out = Inr (out @ map (reread_fill D) fs)"
  by (induction fs arbitrary: out) (simp_all add: scan_fill_row)

lemma mset_eq_map: "mset xs = mset (map f ys) \<Longrightarrow> \<exists>zs. xs = map f zs \<and> mset zs = mset ys"
proof (induction xs arbitrary: ys)
  case (Cons x xs)
  have "x \<in> set (map f ys)" using Cons.prems by (metis list.set_intros(1) set_mset_mset)
  then obtain y where y: "y \<in> set ys" "x = f y" by auto
  have "mset (map f ys) = add_mset x (mset (map f (remove1 y ys)))" using y by (simp add: image_mset_add_mset [symmetric])
  with Cons.prems have "mset xs = mset (map f (remove1 y ys))" by simp
  from Cons.IH [OF this] obtain zs where "xs = map f zs" "mset zs = mset (remove1 y ys)" by blast
  then show ?case using y by (intro exI [of _ "y # zs"]) simp
qed simp

subsection \<open>Simulation of the in-memory store\<close>

text \<open>The two stores hold the same orders, all of one venue, and the same fills, in the same order.\<close>

definition same_rows :: "'d dec_ops \<Rightarrow> string \<Rightarrow> pg_tables \<Rightarrow> 'd mem_store \<Rightarrow> bool" where
  "same_rows D v tb ms \<longleftrightarrow> mem_ok ms \<and>
     tb_orders tb = map (\<lambda>(c, r). order_row D r) (ms_orders ms) \<and> tb_fills tb = map (fill_row D) (ms_fills ms) \<and>
     (\<forall>(c, r) \<in> set (ms_orders ms). so_ClientOrderID r = c \<and> so_Venue r = v)"

lemma same_rows_known:
  assumes "same_rows D v tb ms" "so_Venue r = v"
  shows "(\<exists>x \<in> set (tb_orders tb). x ! 1 = order_args D r ! 1 \<and> x ! 2 = order_args D r ! 2) \<longleftrightarrow>
    so_ClientOrderID r \<in> dom (map_of (ms_orders ms))" (is "?L \<longleftrightarrow> ?R")
proof -
  have o: "set (tb_orders tb) = (\<lambda>(c, r). order_row D r) ` set (ms_orders ms)"
    and k: "\<And>c r'. (c, r') \<in> set (ms_orders ms) \<Longrightarrow> so_ClientOrderID r' = c \<and> so_Venue r' = v"
    using assms(1) by (auto simp: same_rows_def)
  have "?L \<longleftrightarrow> (\<exists>(c, r') \<in> set (ms_orders ms). so_ClientOrderID r' = so_ClientOrderID r \<and> so_Venue r' = so_Venue r)"
    by (simp add: o order_row_cols order_args_cols split_beta)
  also have "\<dots> \<longleftrightarrow> so_ClientOrderID r \<in> fst ` set (ms_orders ms)" using k assms(2) by force
  finally show ?thesis by (simp add: dom_map_of_conv_image_fst)
qed

lemma same_rows_pkey:
  assumes "same_rows D v tb ms"
  shows "(\<exists>x \<in> set (tb_orders tb). x ! 0 = order_args D r ! 0) \<longleftrightarrow>
    (\<exists>(c, r') \<in> set (ms_orders ms). so_VenueOrderID r' = so_VenueOrderID r)"
proof -
  have "set (tb_orders tb) = (\<lambda>(c, r). order_row D r) ` set (ms_orders ms)" using assms by (simp add: same_rows_def)
  then show ?thesis by (simp add: order_row_cols order_args_cols split_beta)
qed

lemma same_rows_fill_known:
  assumes "same_rows D v tb ms"
  shows "(\<exists>x \<in> set (tb_fills tb). x ! 1 = fill_args D f ! 1 \<and> x ! 2 = fill_args D f ! 2) \<longleftrightarrow>
    fill_key f \<in> fill_key ` set (ms_fills ms)"
proof -
  have "set (tb_fills tb) = fill_row D ` set (ms_fills ms)" using assms by (simp add: same_rows_def)
  then have "(\<exists>x \<in> set (tb_fills tb). x ! 1 = fill_args D f ! 1 \<and> x ! 2 = fill_args D f ! 2) \<longleftrightarrow>
      (\<exists>g \<in> set (ms_fills ms). sf_TradeID g = sf_TradeID f \<and> sf_Venue g = sf_Venue f)"
    by (simp add: fill_row_cols fill_args_cols)
  also have "\<dots> \<longleftrightarrow> (\<exists>g \<in> set (ms_fills ms). sf_Venue g = sf_Venue f \<and> sf_TradeID g = sf_TradeID f)" by blast
  also have "\<dots> \<longleftrightarrow> fill_key f \<in> fill_key ` set (ms_fills ms)" by (rule fill_known_iff)
  finally show ?thesis .
qed

lemma AList_update_new: "k \<notin> dom (map_of m) \<Longrightarrow> AList.update k x m = m @ [(k, x)]"
  by (induction m) (auto simp: dom_map_of_conv_image_fst)

lemma stamp_order_keys [simp]:
  "so_ClientOrderID (stamp_order t1 t2 r) = so_ClientOrderID r" "so_Venue (stamp_order t1 t2 r) = so_Venue r"
  "so_VenueOrderID (stamp_order t1 t2 r) = so_VenueOrderID r"
  by (simp_all add: stamp_order_def)

lemma stamp_fill_keys [simp]:
  "sf_Venue (stamp_fill t f) = sf_Venue f" "sf_TradeID (stamp_fill t f) = sf_TradeID f"
  "sf_VenueOrderID (stamp_fill t f) = sf_VenueOrderID f"
  by (simp_all add: stamp_fill_def)

text \<open>The laws, at the row of an order and of a fill.\<close>

lemma exec_order:
  assumes "pg_laws P T" "same_rows D v (T s) ms" "so_Venue r = v"
    and "known \<longleftrightarrow> so_ClientOrderID r \<in> dom (map_of (ms_orders ms))"
    and "pkey \<longleftrightarrow> (\<exists>(c, r') \<in> set (ms_orders ms). so_VenueOrderID r' = so_VenueOrderID r)"
  obtains s' err where
    "pp_Exec P insert_order_sql (order_args D r) s = (if known then Inr 0 else if pkey then Inl err else Inr 1, s')"
    "T s' = (if known \<or> pkey then T s else (T s)\<lparr>tb_orders := tb_orders (T s) @ [order_row D r]\<rparr>)"
proof -
  have "insert_order_law P T" using assms(1) by (simp add: pg_laws_def)
  from this [unfolded insert_order_law_def, rule_format, OF order_args_cols(5) [of D r], of s]
  show thesis
    unfolding Let_def same_rows_known [OF assms(2,3)] same_rows_pkey [OF assms(2)] assms(4,5) [symmetric]
      order_row_def [symmetric]
    by (elim exE conjE) (rule that)
qed

lemma exec_fill:
  assumes "pg_laws P T" "same_rows D v (T s) ms" "known \<longleftrightarrow> fill_key f \<in> fill_key ` set (ms_fills ms)"
  obtains s' where "pp_Exec P insert_fill_sql (fill_args D f) s = (Inr (if known then 0 else 1), s')"
    "T s' = (if known then T s else (T s)\<lparr>tb_fills := tb_fills (T s) @ [fill_row D f]\<rparr>)"
proof -
  have "insert_fill_law P T" using assms(1) by (simp add: pg_laws_def)
  from this [unfolded insert_fill_law_def, rule_format, OF fill_args_cols(5) [of D f], of s]
  show thesis
    unfolding Let_def same_rows_fill_known [OF assms(2)] assms(3) [symmetric] fill_row_def [symmetric]
    by (elim exE conjE) (rule that)
qed

lemma record_order_sim:
  assumes P: "pg_laws P T" and s: "same_rows D v (T s) ms" and v: "so_Venue r = v"
    and pkey: "\<forall>(c, r') \<in> set (ms_orders ms). so_VenueOrderID r' = so_VenueOrderID r \<longrightarrow> c = so_ClientOrderID r"
  shows "\<exists>s'. Pg_RecordOrder D P t1 t2 r s = (s', snd (MemStore_RecordOrder t1 t2 r ms)) \<and>
    same_rows D v (T s') (fst (MemStore_RecordOrder t1 t2 r ms))"
proof (cases "map_of (ms_orders ms) (so_ClientOrderID r)")
  case (Some r')
  obtain s' err where "pp_Exec P insert_order_sql (order_args D (stamp_order t1 t2 r)) s = (Inr 0, s')" "T s' = T s"
    using exec_order [OF P s, of "stamp_order t1 t2 r" True] v Some by (auto simp: dom_def)
  then show ?thesis using s Some by (simp add: Pg_RecordOrder_def MemStore_RecordOrder_def)
next
  case None
  let ?r = "stamp_order t1 t2 r"
  have new: "so_ClientOrderID r \<notin> dom (map_of (ms_orders ms))" using None by (simp add: domIff)
  have "(so_ClientOrderID r, r') \<notin> set (ms_orders ms)" for r'
    using new by (metis fst_conv dom_map_of_conv_image_fst image_eqI)
  then have "\<not> (\<exists>(c, r') \<in> set (ms_orders ms). so_VenueOrderID r' = so_VenueOrderID ?r)"
    using pkey by (metis (mono_tags, lifting) case_prodE case_prodD stamp_order_keys(3))
  then have no: "False \<longleftrightarrow> (\<exists>(c, r') \<in> set (ms_orders ms). so_VenueOrderID r' = so_VenueOrderID ?r)" by simp
  have nk: "False \<longleftrightarrow> so_ClientOrderID ?r \<in> dom (map_of (ms_orders ms))" using new by simp
  have vr: "so_Venue ?r = v" using v by simp
  obtain s' where e: "pp_Exec P insert_order_sql (order_args D ?r) s = (Inr 1, s')"
    "T s' = (T s)\<lparr>tb_orders := tb_orders (T s) @ [order_row D ?r]\<rparr>"
    by (rule exec_order [OF P s vr nk no]) simp
  have m: "MemStore_RecordOrder t1 t2 r ms = (ms\<lparr>ms_orders := ms_orders ms @ [(so_ClientOrderID r, ?r)]\<rparr>, Inr True)"
    using None AList_update_new [OF new, of ?r] by (simp add: MemStore_RecordOrder_def)
  have "wf_map (ms_orders ms @ [(so_ClientOrderID r, ?r)])"
    using wf_map_update [of "ms_orders ms" "so_ClientOrderID r" ?r] s AList_update_new [OF new, of ?r]
    by (simp add: same_rows_def mem_ok_def)
  then have "same_rows D v (T s') (fst (MemStore_RecordOrder t1 t2 r ms))"
    using s v unfolding same_rows_def m e(2) by (simp add: mem_ok_def)
  then show ?thesis using e(1) by (simp add: Pg_RecordOrder_def m)
qed

lemma record_fill_sim:
  assumes P: "pg_laws P T" and s: "same_rows D v (T s) ms"
  shows "\<exists>s'. Pg_RecordFill D P t f s = (s', snd (MemStore_RecordFill t f ms)) \<and>
    same_rows D v (T s') (fst (MemStore_RecordFill t f ms))"
proof (cases "fill_key f \<in> fill_key ` set (ms_fills ms)")
  case True
  then obtain s' where "pp_Exec P insert_fill_sql (fill_args D (stamp_fill t f)) s = (Inr 0, s')" "T s' = T s"
    using exec_fill [OF P s, of True "stamp_fill t f"] by auto
  then show ?thesis using s mem.fill_dup [OF True] by (simp add: Pg_RecordFill_def)
next
  case False
  then obtain s' where e: "pp_Exec P insert_fill_sql (fill_args D (stamp_fill t f)) s = (Inr 1, s')"
    "T s' = (T s)\<lparr>tb_fills := tb_fills (T s) @ [fill_row D (stamp_fill t f)]\<rparr>"
    using exec_fill [OF P s, of False "stamp_fill t f"] by auto
  have m: "MemStore_RecordFill t f ms = (ms\<lparr>ms_fills := ms_fills ms @ [stamp_fill t f]\<rparr>, Inr True)"
    using False by (simp add: MemStore_RecordFill_def fill_known_iff)
  have "same_rows D v (T s') (fst (MemStore_RecordFill t f ms))"
    using s False unfolding same_rows_def m e(2) by (simp add: mem_ok_def)
  then show ?thesis using e(1) by (simp add: Pg_RecordFill_def m)
qed

lemma get_order_sim:
  assumes P: "pg_laws P T" and s: "same_rows D v (T s) ms"
  shows "Pg_GetOrderByClientID D P cid s = map_option (reread_order D) (MemStore_GetOrderByClientID cid ms)"
proof -
  let ?q = "pp_QueryRow P (orderSelectSQL @ '' WHERE client_order_id=$1'') [VText cid] s"
  have law: "case ?q of Inl err \<Rightarrow> \<forall>x \<in> set (tb_orders (T s)). x ! 1 \<noteq> VText cid
      | Inr x \<Rightarrow> x \<in> set (tb_orders (T s)) \<and> x ! 1 = VText cid"
    using P unfolding pg_laws_def select_order_law_def by blast
  have o: "set (tb_orders (T s)) = (\<lambda>(c, r). order_row D r) ` set (ms_orders ms)"
    and k: "\<And>c r. (c, r) \<in> set (ms_orders ms) \<Longrightarrow> so_ClientOrderID r = c"
    and d: "distinct (map fst (ms_orders ms))"
    using s by (auto simp: same_rows_def mem_ok_def wf_map_def)
  show ?thesis
  proof (cases ?q)
    case (Inl err)
    then have "\<forall>(c, r) \<in> set (ms_orders ms). so_ClientOrderID r \<noteq> cid" using law by (auto simp: o order_row_cols)
    then have "map_of (ms_orders ms) cid = None" using k by (fastforce simp: map_of_eq_None_iff)
    then show ?thesis by (simp add: Pg_GetOrderByClientID_def MemStore_GetOrderByClientID_def Inl scanOrder_def)
  next
    case (Inr x)
    then obtain c r where cr: "(c, r) \<in> set (ms_orders ms)" "x = order_row D r" "so_ClientOrderID r = cid"
      using law by (auto simp: o order_row_cols)
    then have "map_of (ms_orders ms) cid = Some r" using k [OF cr(1)] d by (simp add: map_of_eq_Some_iff)
    then show ?thesis
      by (simp add: Pg_GetOrderByClientID_def MemStore_GetOrderByClientID_def Inr cr(2) scan_order_row)
  qed
qed

lemma fills_sim:
  assumes P: "pg_laws P T" and s: "same_rows D v (T s) ms"
  shows "\<exists>fs. Pg_FillsForOrder D P oid s = Inr (map (reread_fill D) fs) \<and>
    mset fs = mset (filter (\<lambda>f. sf_VenueOrderID f = oid) (ms_fills ms)) \<and>
    sorted (map (\<lambda>f. sf_Timestamp f div 1000) fs)"
proof -
  obtain rows where rows: "pp_Query P fills_select_sql [VText oid] s = Inr (rows, None)"
    "mset rows = mset (filter (\<lambda>r. r ! 0 = VText oid) (tb_fills (T s)))" "sorted (map (\<lambda>r. col_time r 8) rows)"
    using P unfolding pg_laws_def select_fills_law_def by blast
  have "filter (\<lambda>r. r ! 0 = VText oid) (tb_fills (T s)) =
      map (fill_row D) (filter (\<lambda>f. sf_VenueOrderID f = oid) (ms_fills ms))"
    using s by (simp add: same_rows_def filter_map o_def fill_row_cols)
  with rows(2) have "mset rows = mset (map (fill_row D) (filter (\<lambda>f. sf_VenueOrderID f = oid) (ms_fills ms)))" by simp
  from mset_eq_map [OF this] obtain fs where fs: "rows = map (fill_row D) fs"
    "mset fs = mset (filter (\<lambda>f. sf_VenueOrderID f = oid) (ms_fills ms))" by blast
  have "sorted (map (\<lambda>f. sf_Timestamp f div 1000 * 1000) fs)"
    using rows(3) by (simp add: fs(1) o_def fill_row_cols)
  then have "sorted (map (\<lambda>f. sf_Timestamp f div 1000) fs)" by (simp add: sorted_map)
  then show ?thesis using rows(1) fs by (intro exI [of _ fs]) (simp add: Pg_FillsForOrder_def scan_rows_map)
qed

text \<open>The orders of a history, and what each of its calls returns.\<close>

fun call_orders :: "'d store_call list \<Rightarrow> 'd store_order list" where
  "call_orders [] = []"
| "call_orders (CallOrder t1 t2 r # cs) = r # call_orders cs"
| "call_orders (CallFill t f # cs) = call_orders cs"

fun call_results ::
  "(gotime \<Rightarrow> gotime \<Rightarrow> 'd store_order \<Rightarrow> 's \<Rightarrow> 's \<times> (go_error + bool)) \<Rightarrow>
   (gotime \<Rightarrow> 'd store_fill \<Rightarrow> 's \<Rightarrow> 's \<times> (go_error + bool)) \<Rightarrow> 'd store_call list \<Rightarrow> 's \<Rightarrow> (go_error + bool) list"
where
  "call_results ro rf [] s = []"
| "call_results ro rf (CallOrder t1 t2 r # cs) s = snd (ro t1 t2 r s) # call_results ro rf cs (fst (ro t1 t2 r s))"
| "call_results ro rf (CallFill t f # cs) s = snd (rf t f s) # call_results ro rf cs (fst (rf t f s))"

definition ids_agree :: "'d store_order list \<Rightarrow> bool" where
  "ids_agree rs \<longleftrightarrow> (\<forall>r \<in> set rs. \<forall>r' \<in> set rs. so_VenueOrderID r = so_VenueOrderID r' \<longrightarrow> so_ClientOrderID r = so_ClientOrderID r')"

lemma ids_agree_tail: "ids_agree (r # rs) \<Longrightarrow> ids_agree rs"
  unfolding ids_agree_def by (meson list.set_intros(2))

lemma ids_agree_head:
  "ids_agree (r # rs) \<Longrightarrow> x \<in> set rs \<Longrightarrow> so_VenueOrderID r = so_VenueOrderID x \<Longrightarrow> so_ClientOrderID r = so_ClientOrderID x"
  unfolding ids_agree_def by (meson list.set_intros)

lemma RecordOrder_orders:
  "(c, x) \<in> set (ms_orders (fst (MemStore_RecordOrder t1 t2 r ms))) \<Longrightarrow>
    (c, x) \<in> set (ms_orders ms) \<or> (c, x) = (so_ClientOrderID r, stamp_order t1 t2 r)"
  by (cases "map_of (ms_orders ms) (so_ClientOrderID r)")
    (auto simp: MemStore_RecordOrder_def AList_update_new domIff)

lemma RecordFill_orders [simp]: "ms_orders (fst (MemStore_RecordFill t f ms)) = ms_orders ms"
  by (simp add: MemStore_RecordFill_def)

lemma replay_sim:
  assumes P: "pg_laws P T"
  shows "same_rows D v (T s) ms \<Longrightarrow> \<forall>r \<in> set (call_orders cs). so_Venue r = v \<Longrightarrow> ids_agree (call_orders cs) \<Longrightarrow>
    \<forall>(c, r') \<in> set (ms_orders ms). \<forall>r \<in> set (call_orders cs). so_VenueOrderID r' = so_VenueOrderID r \<longrightarrow> c = so_ClientOrderID r \<Longrightarrow>
    same_rows D v (T (replay (Pg_RecordOrder D P) (Pg_RecordFill D P) cs s)) (replay MemStore_RecordOrder MemStore_RecordFill cs ms) \<and>
    call_results (Pg_RecordOrder D P) (Pg_RecordFill D P) cs s = call_results MemStore_RecordOrder MemStore_RecordFill cs ms"
proof (induction cs arbitrary: s ms)
  case (Cons call cs)
  show ?case
  proof (cases call)
    case (CallOrder t1 t2 r)
    let ?ms = "fst (MemStore_RecordOrder t1 t2 r ms)"
    have pk: "\<forall>(c, r') \<in> set (ms_orders ms). so_VenueOrderID r' = so_VenueOrderID r \<longrightarrow> c = so_ClientOrderID r"
      using Cons.prems(4) CallOrder by fastforce
    have vr: "so_Venue r = v" using Cons.prems(2) CallOrder by simp
    obtain s' where s': "Pg_RecordOrder D P t1 t2 r s = (s', snd (MemStore_RecordOrder t1 t2 r ms))"
      "same_rows D v (T s') ?ms"
      using record_order_sim [OF P Cons.prems(1) vr pk, of t1 t2] by blast
    have ids: "ids_agree (r # call_orders cs)" using Cons.prems(3) unfolding CallOrder call_orders.simps .
    note agree = ids_agree_tail [OF ids]
    have cross: "\<forall>(c, r') \<in> set (ms_orders ?ms). \<forall>x \<in> set (call_orders cs).
        so_VenueOrderID r' = so_VenueOrderID x \<longrightarrow> c = so_ClientOrderID x"
    proof clarify
      fix c r' x assume a: "(c, r') \<in> set (ms_orders ?ms)" "x \<in> set (call_orders cs)" "so_VenueOrderID r' = so_VenueOrderID x"
      from RecordOrder_orders [OF a(1)] show "c = so_ClientOrderID x"
      proof
        assume "(c, r') \<in> set (ms_orders ms)"
        then show ?thesis using Cons.prems(4) a(2,3) CallOrder by fastforce
      next
        assume "(c, r') = (so_ClientOrderID r, stamp_order t1 t2 r)"
        then show ?thesis using ids_agree_head [OF ids a(2)] a(3) by simp
      qed
    qed
    show ?thesis using Cons.IH [OF s'(2) _ agree cross] Cons.prems(2) CallOrder s'(1) by simp
  next
    case (CallFill t f)
    obtain s' where "Pg_RecordFill D P t f s = (s', snd (MemStore_RecordFill t f ms))"
      "same_rows D v (T s') (fst (MemStore_RecordFill t f ms))"
      using record_fill_sim [OF P Cons.prems(1)] by blast
    then show ?thesis using Cons.IH [of s' "fst (MemStore_RecordFill t f ms)"] Cons.prems CallFill by simp
  qed
qed simp

subsection \<open>Opening\<close>

lemma exec_forget: "rn_exec (logged R) st (l, s) = (fst (rn_exec R st s), l @ [(st, fst (rn_exec R st s))], snd (rn_exec R st s))"
  by (simp add: logged_def split_beta)

lemma query_forget: "is_applied (logged R) d v (l, s) = (fst (is_applied R d v s), l, snd (is_applied R d v s))"
  by (simp add: is_applied_def logged_def split_beta split: option.split)

lemma up_loop_forget:
  "\<exists>l'. up_loop (logged R) clock ms (l, s) = (fst (up_loop R clock ms s), l', snd (up_loop R clock ms s))"
proof (induction ms arbitrary: l s)
  case (Cons m ms)
  let ?ins = "InsertVersion (mi_Version m) (clock (length ms))"
  obtain a s1 where a: "is_applied R False (mi_Version m) s = (a, s1)" by (cases "is_applied R False (mi_Version m) s")
  obtain e s2 where e: "rn_exec R (Script (mi_Up m)) s1 = (e, s2)" by (cases "rn_exec R (Script (mi_Up m)) s1")
  obtain e' s3 where e': "rn_exec R ?ins s2 = (e', s3)" by (cases "rn_exec R ?ins s2")
  show ?case
    using Cons.IH [of "l @ [(Script (mi_Up m), None), (?ins, None)]" s3] Cons.IH [of l s1] a e e'
    by (simp add: query_forget exec_forget split: sum.split bool.split option.split)
qed simp

lemma Runner_Up_forget:
  "\<exists>l'. Runner_Up dir (logged R) clock (l, s) = (fst (Runner_Up dir R clock s), l', snd (Runner_Up dir R clock s))"
proof (cases "rn_exec R CreateMigrationsTable s")
  case (Pair e s1)
  then show ?thesis using up_loop_forget [of R clock _ "l @ [(CreateMigrationsTable, None)]" s1]
    by (cases e; cases "All_migrations dir") (simp_all add: Runner_Up_def exec_forget)
qed

lemma pg_simulates_mem_lemma:
  assumes "pg_laws P T" "T s = \<lparr>tb_orders = [], tb_fills = []\<rparr>"
    and "\<forall>r \<in> set (call_orders cs). so_Venue r = v" "ids_agree (call_orders cs)"
  shows "call_results (Pg_RecordOrder D P) (Pg_RecordFill D P) cs s =
      call_results MemStore_RecordOrder MemStore_RecordFill cs NewMemStore \<and>
    Pg_GetOrderByClientID D P cid (replay (Pg_RecordOrder D P) (Pg_RecordFill D P) cs s) = map_option (reread_order D) (MemStore_GetOrderByClientID cid (replay MemStore_RecordOrder MemStore_RecordFill cs NewMemStore)) \<and>
    (\<exists>fs mfs. Pg_FillsForOrder D P oid (replay (Pg_RecordOrder D P) (Pg_RecordFill D P) cs s) = Inr (map (reread_fill D) fs) \<and> MemStore_FillsForOrder oid (replay MemStore_RecordOrder MemStore_RecordFill cs NewMemStore) = Inr mfs \<and>
      mset fs = mset mfs \<and> sorted (map (\<lambda>f. sf_Timestamp f div 1000) fs))"
proof -
  have start: "same_rows D v (T s) NewMemStore"
    using assms(2) by (simp add: same_rows_def mem_ok_def NewMemStore_def)
  have none: "\<forall>(c, r') \<in> set (ms_orders NewMemStore). \<forall>r \<in> set (call_orders cs).
      so_VenueOrderID r' = so_VenueOrderID r \<longrightarrow> c = so_ClientOrderID r"
    by (simp add: NewMemStore_def)
  note sim = replay_sim [OF assms(1) start assms(3,4) none]
  then show ?thesis
    using get_order_sim [OF assms(1) conjunct1 [OF sim], of cid] fills_sim [OF assms(1) conjunct1 [OF sim], of oid]
    by (simp add: MemStore_FillsForOrder_def)
qed

section \<open>Properties\<close>

text \<open>
  C4: the database store behaves as the in-memory store. On a database that follows \<open>pg_laws\<close>,
  start both empty and make the same calls, all orders being of one venue (the service writes
  its own name into every order) and equal venue order ids coming with equal client ids: every
  call returns the same; every client id then finds the same order, decimals read back from
  their text and times to the microsecond; and the fills of an order are the same fills, ordered
  by time.
\<close>

theorem pg_simulates_mem:
  assumes "pg_laws P T" "T s = \<lparr>tb_orders = [], tb_fills = []\<rparr>"
    and "\<forall>r \<in> set (call_orders cs). so_Venue r = v" "ids_agree (call_orders cs)"
    and "s' = replay (Pg_RecordOrder D P) (Pg_RecordFill D P) cs s"
    and "ms = replay MemStore_RecordOrder MemStore_RecordFill cs NewMemStore"
  shows "call_results (Pg_RecordOrder D P) (Pg_RecordFill D P) cs s =
      call_results MemStore_RecordOrder MemStore_RecordFill cs NewMemStore \<and>
    Pg_GetOrderByClientID D P cid s' = map_option (reread_order D) (MemStore_GetOrderByClientID cid ms) \<and>
    (\<exists>fs mfs. Pg_FillsForOrder D P oid s' = Inr (map (reread_fill D) fs) \<and> MemStore_FillsForOrder oid ms = Inr mfs \<and>
      mset fs = mset mfs \<and> sorted (map (\<lambda>f. sf_Timestamp f div 1000) fs))"
  unfolding assms(5,6) by (rule pg_simulates_mem_lemma [OF assms(1-4)])

text \<open>
  What \<open>RecordOrder\<close> does on every state of the tables. An order whose venue and client id are
  recorded is left alone and reported as not new; an order that is new by that key but carries a
  venue order id that is recorded, be it by another venue, is an error and is not recorded; any
  other order is recorded, and is then the one found by its client id when no other venue uses
  that id.
\<close>

theorem pg_record_order_cases:
  assumes "pg_laws P T" "row = order_args D (stamp_order t1 t2 r)"
  shows "\<exists>s' err.
    Pg_RecordOrder D P t1 t2 r s =
      (s', if \<exists>x \<in> set (tb_orders (T s)). x ! 1 = row ! 1 \<and> x ! 2 = row ! 2 then Inr False
           else if \<exists>x \<in> set (tb_orders (T s)). x ! 0 = row ! 0 then Inl err else Inr True) \<and>
    (if snd (Pg_RecordOrder D P t1 t2 r s) = Inr True
     then tb_orders (T s') = tb_orders (T s) @ [stored row] \<and>
       ((\<forall>x \<in> set (tb_orders (T s)). x ! 1 \<noteq> VText (so_ClientOrderID r)) \<longrightarrow>
         Pg_GetOrderByClientID D P (so_ClientOrderID r) s' = Some (reread_order D (stamp_order t1 t2 r)))
     else T s' = T s)"
proof -
  let ?known = "\<exists>x \<in> set (tb_orders (T s)). x ! 1 = row ! 1 \<and> x ! 2 = row ! 2"
  let ?pkey = "\<exists>x \<in> set (tb_orders (T s)). x ! 0 = row ! 0"
  have len: "length row = 13" unfolding assms(2) by (rule order_args_cols)
  have "insert_order_law P T" using assms(1) by (simp add: pg_laws_def)
  from this [unfolded insert_order_law_def Let_def, rule_format, OF len, of s] obtain s' err where
    e: "pp_Exec P insert_order_sql row s = (if ?known then Inr 0 else if ?pkey then Inl err else Inr 1, s')"
    and T': "T s' = (if ?known \<or> ?pkey then T s else (T s)\<lparr>tb_orders := tb_orders (T s) @ [stored row]\<rparr>)"
    by (elim exE conjE)
  have r: "Pg_RecordOrder D P t1 t2 r s = (s', if ?known then Inr False else if ?pkey then Inl err else Inr True)"
    using e by (simp add: Pg_RecordOrder_def assms(2) [symmetric] split: if_splits)
  have "Pg_GetOrderByClientID D P (so_ClientOrderID r) s' = Some (reread_order D (stamp_order t1 t2 r))"
    if "T s' = (T s)\<lparr>tb_orders := tb_orders (T s) @ [stored row]\<rparr>"
      "\<forall>x \<in> set (tb_orders (T s)). x ! 1 \<noteq> VText (so_ClientOrderID r)"
  proof -
    let ?q = "pp_QueryRow P (orderSelectSQL @ '' WHERE client_order_id=$1'') [VText (so_ClientOrderID r)] s'"
    have own: "stored row = order_row D (stamp_order t1 t2 r)" by (simp add: order_row_def assms(2))
    have "case ?q of Inl err \<Rightarrow> \<forall>x \<in> set (tb_orders (T s')). x ! 1 \<noteq> VText (so_ClientOrderID r)
        | Inr x \<Rightarrow> x \<in> set (tb_orders (T s')) \<and> x ! 1 = VText (so_ClientOrderID r)"
      using assms(1) unfolding pg_laws_def select_order_law_def by blast
    then have "?q = Inr (stored row)"
      using that order_row_cols(2) [of D "stamp_order t1 t2 r"] by (cases ?q) (auto simp: own)
    then show ?thesis by (simp add: Pg_GetOrderByClientID_def own scan_order_row)
  qed
  then show ?thesis using r T' by (intro exI [of _ s'] exI [of _ err]) (auto split: if_splits)
qed

text \<open>
  C40: A store is only opened on a migrated database. When \<open>Open\<close> returns a store its pool is open
  and every version of the embedded directory is in the version table; when it fails after
  connecting, the pool is closed.
\<close>

theorem pg_open_migrated:
  assumes "Pg_Open dir clock connect ping s = (res, shut, s')"
    and "\<forall>P migs. connect = Inr P \<longrightarrow> All_migrations dir = Inr migs \<longrightarrow> tracks_versions migs (pool_runner P) V"
  shows "case res of
      Inr P \<Rightarrow> \<not> shut \<and> connect = Inr P \<and>
        (\<exists>migs. All_migrations dir = Inr migs \<and> V s' = V s \<union> mi_Version ` set migs)
    | Inl err \<Rightarrow> shut \<longleftrightarrow> (\<exists>P. connect = Inr P)"
proof (cases connect)
  case (Inl err)
  then show ?thesis using assms(1) by (auto simp: Pg_Open_def)
next
  case (Inr P)
  show ?thesis
  proof (cases "ping = None \<and> fst (Runner_Up dir (pool_runner P) clock s) = None")
    case True
    then have up: "Runner_Up dir (pool_runner P) clock s = (None, s')" and res: "res = Inr P" "\<not> shut"
      using assms(1) Inr by (auto simp: Pg_Open_def split: prod.splits option.splits)
    obtain l where lg: "Runner_Up dir (logged (pool_runner P)) clock ([], s) = (None, l, s')"
      using Runner_Up_forget [of dir "pool_runner P" clock "[]" s] up by auto
    have "All_migrations dir \<noteq> Inl err" for err
      using up by (auto simp: Runner_Up_def split: prod.splits option.splits)
    then obtain migs where m: "All_migrations dir = Inr migs" by (cases "All_migrations dir") auto
    have "tracks_versions migs (pool_runner P) V" using assms(2) Inr m by blast
    from Runner_Up_logged [OF this lg m] show ?thesis using res Inr m by simp
  next
    case False
    then show ?thesis using assms(1) Inr by (auto simp: Pg_Open_def split: prod.splits option.splits)
  qed
qed

text \<open>The two tables as a database, for evaluation.\<close>

definition table_pool :: "pg_tables pool" where
  "table_pool =
     \<lparr>pp_Exec = \<lambda>q row tb.
        if q = insert_order_sql then
          (if \<exists>r \<in> set (tb_orders tb). r ! 1 = row ! 1 \<and> r ! 2 = row ! 2 then (Inr 0, tb)
           else if \<exists>r \<in> set (tb_orders tb). r ! 0 = row ! 0 then (Inl (ErrMsg ''duplicate key''), tb)
           else (Inr 1, tb\<lparr>tb_orders := tb_orders tb @ [stored row]\<rparr>))
        else if q = insert_fill_sql then
          (if \<exists>r \<in> set (tb_fills tb). r ! 1 = row ! 1 \<and> r ! 2 = row ! 2 then (Inr 0, tb)
           else (Inr 1, tb\<lparr>tb_fills := tb_fills tb @ [stored row]\<rparr>))
        else (Inr 0, tb),
      pp_QueryRow = \<lambda>q args tb.
        if q = version_exists_sql then Inr [VBool True]
        else (case find (\<lambda>r. r ! 1 = hd args) (tb_orders tb) of None \<Rightarrow> Inl (ErrMsg ''no rows'') | Some r \<Rightarrow> Inr r),
      pp_Query = \<lambda>q args tb. Inr (sort_key (\<lambda>r. col_time r 8) (filter (\<lambda>r. r ! 0 = hd args) (tb_fills tb)), None)\<rparr>"

lemma sql_texts_differ:
  "insert_fill_sql \<noteq> insert_order_sql" "orderSelectSQL @ '' WHERE client_order_id=$1'' \<noteq> version_exists_sql"
  by (simp_all add: insert_fill_sql_def insert_order_sql_def orderSelectSQL_def version_exists_sql_def)

lemma table_pool_laws: "pg_laws table_pool (\<lambda>tb. tb)"
  unfolding pg_laws_def
proof (intro conjI)
  show "insert_order_law table_pool (\<lambda>tb. tb)"
    by (simp add: insert_order_law_def table_pool_def Let_def)
  show "insert_fill_law table_pool (\<lambda>tb. tb)"
    by (simp add: insert_fill_law_def table_pool_def Let_def sql_texts_differ)
  show "select_order_law table_pool (\<lambda>tb. tb)"
    by (auto simp: select_order_law_def table_pool_def sql_texts_differ find_None_iff find_Some_iff split: option.split)
  show "select_fills_law table_pool (\<lambda>tb. tb)"
    by (simp add: select_fills_law_def table_pool_def)
qed

definition sample_stored :: "int store_order" where
  "sample_stored =
     \<lparr>so_VenueOrderID = ''v-1'', so_ClientOrderID = ''c-1'', so_Venue = ''dummy'', so_Pair = ''BTCUSDT'', so_Side = ''buy'',
      so_OrderType = ''market'', so_Status = ''filled'', so_FilledQty = 2, so_AvgPrice = 5, so_Quantity = 2, so_Price = 0,
      so_CreatedAt = 0, so_UpdatedAt = 0\<rparr>"

theorem pg_simulates_mem_witness:
  "let cs = [CallOrder 5001 5002 sample_stored, CallOrder 9001 9002 sample_stored];
       s' = replay (Pg_RecordOrder dec_int table_pool) (Pg_RecordFill dec_int table_pool) cs \<lparr>tb_orders = [], tb_fills = []\<rparr>
   in call_results (Pg_RecordOrder dec_int table_pool) (Pg_RecordFill dec_int table_pool) cs \<lparr>tb_orders = [], tb_fills = []\<rparr> =
        [Inr True, Inr False] \<and>
      map_option so_CreatedAt (Pg_GetOrderByClientID dec_int table_pool ''c-1'' s') = Some 5000"
proof -
  let ?cs = "[CallOrder 5001 5002 sample_stored, CallOrder 9001 9002 sample_stored]"
  have "\<forall>r \<in> set (call_orders ?cs). so_Venue r = ''dummy''" "ids_agree (call_orders ?cs)"
    by (simp_all add: sample_stored_def ids_agree_def)
  from pg_simulates_mem [OF table_pool_laws refl this refl refl, where cid = "''c-1''" and D = dec_int]
  show ?thesis
    by (simp add: Let_def MemStore_RecordOrder_def NewMemStore_def MemStore_GetOrderByClientID_def
        reread_order_def stamp_order_def) (simp add: sample_stored_def)
qed

theorem pg_record_order_cases_witness:
  "let r2 = sample_stored\<lparr>so_ClientOrderID := ''c-2'', so_Venue := ''kraken''\<rparr>;
       tb = \<lparr>tb_orders = [order_row dec_int sample_stored], tb_fills = []\<rparr>
   in \<exists>s' err. Pg_RecordOrder dec_int table_pool 1 1 r2 tb = (s', Inl err) \<and> s' = tb"
proof -
  let ?r2 = "sample_stored\<lparr>so_ClientOrderID := ''c-2'', so_Venue := ''kraken''\<rparr>"
  let ?tb = "\<lparr>tb_orders = [order_row dec_int sample_stored], tb_fills = []\<rparr>"
  show ?thesis
    using pg_record_order_cases [OF table_pool_laws refl, of dec_int 1 1 ?r2 ?tb]
    by (auto simp: Let_def order_row_cols order_args_cols sample_stored_def)
qed

definition version_pool :: "string list pool" where
  "version_pool =
     \<lparr>pp_Exec = \<lambda>q args vs. (Inr 1, case args of [VText v, VTime t] \<Rightarrow> List.insert v vs | [VText v] \<Rightarrow> removeAll v vs | _ \<Rightarrow> vs),
      pp_QueryRow = \<lambda>q args vs. Inr [VBool (list_ex (\<lambda>v. args = [VText v]) vs)],
      pp_Query = \<lambda>q args vs. Inr ([], None)\<rparr>"

lemma version_pool_tracks: "tracks_versions migs (pool_runner version_pool) set"
proof -
  have "set (case statement_args st of [VText v, VTime t] \<Rightarrow> List.insert v vs | [VText v] \<Rightarrow> removeAll v vs | _ \<Rightarrow> vs) =
      after_statement st (set vs)" for st vs
    by (cases st) auto
  then show ?thesis by (auto simp: tracks_versions_def pool_runner_def version_pool_def list_ex_iff)
qed

theorem pg_open_migrated_witness:
  "\<exists>s'. Pg_Open (Inr sample_dir) (\<lambda>i. 7) (Inr version_pool) None [] = (Inr version_pool, False, s') \<and> set s' = {''0001_init''}"
proof -
  have o: "Pg_Open (Inr sample_dir) (\<lambda>i. 7) (Inr version_pool) None [] = (Inr version_pool, False, [''0001_init''])"
    by (simp add: Pg_Open_def Runner_Up_def sample_dir_collected sample_migration_def is_applied_def pool_runner_def version_pool_def)
  have "\<forall>P migs. Inr version_pool = Inr P \<longrightarrow> All_migrations (Inr sample_dir) = Inr migs \<longrightarrow> tracks_versions migs (pool_runner P) set"
    using version_pool_tracks by simp
  from pg_open_migrated [OF o this] o show ?thesis by (simp add: sample_dir_collected sample_migration_def)
qed

end
