(* ===== verification/Service_Runs.thy ===== *)
theory Service_Runs
  imports Wiring Pg_Store
begin

text \<open>
  Sequences of requests on a running service: what the answers, the audit log and the store have
  to do with each other. Each request comes with its own environment, for the UUIDs and the map
  orders of that request; the network and the clock go on from one request to the next.
\<close>

section \<open>Definitions\<close>

fun serve_all ::
  "('d server_env \<times> request) list \<Rightarrow> 'd service \<Rightarrow> net_world \<Rightarrow> 'd answer list \<times> 'd effect list \<times> 'd service \<times> net_world"
where
  "serve_all [] s w = ([], [], s, w)"
| "serve_all ((S, r) # rs) s w =
     (case Routes S r s w of (a, es, s1, w1) \<Rightarrow>
      case serve_all rs s1 w1 of (as, es', s', w') \<Rightarrow> (a # as, es @ es', s', w'))"

text \<open>The orders that were answered as placed.\<close>

fun placed :: "'d answer list \<Rightarrow> 'd order_body list" where
  "placed [] = []"
| "placed ((st, BOrder ob) # as) = ob # placed as"
| "placed (_ # as) = placed as"

abbreviation logged_as :: "string \<Rightarrow> 'd audit_event list \<Rightarrow> 'd audit_event list" where
  "logged_as typ \<equiv> filter (\<lambda>e. ae_Type e = typ)"

definition detail_of :: "'d fill \<Rightarrow> 'd fill_detail" where
  "detail_of f = \<lparr>fd_TradeID = fl_TradeID f, fd_Price = fl_Price f, fd_Quantity = fl_Quantity f,
     fd_Fee = fl_Fee f, fd_FeeAsset = fl_FeeAsset f, fd_TS = fl_Timestamp f\<rparr>"

fun effect_orders :: "'d effect list \<Rightarrow> 'd store_order list" where
  "effect_orders [] = []"
| "effect_orders (EOrder r # es) = r # effect_orders es"
| "effect_orders (_ # es) = effect_orders es"

text \<open>The order that is recorded for an answer.\<close>

definition recorded_as :: "string \<Rightarrow> 'd order_body \<Rightarrow> 'd store_order \<Rightarrow> bool" where
  "recorded_as name ob r \<longleftrightarrow> so_VenueOrderID r = ob_VenueOrderID ob \<and> so_ClientOrderID r = ob_ClientOrderID ob \<and>
     so_Venue r = name \<and> so_Pair r = ob_Pair ob \<and> so_Status r = ob_Status ob \<and> so_FilledQty r = ob_FilledQty ob \<and>
     so_AvgPrice r = ob_AvgPrice ob"

section \<open>One request\<close>

text \<open>What the effects of requests record, in terms of their answers.\<close>

definition audited :: "'d answer list \<Rightarrow> 'd effect list \<Rightarrow> bool" where
  "audited as es \<longleftrightarrow>
     map ae_OrderID (logged_as EventOrderPlaced (audit_events es)) = map ob_VenueOrderID (placed as) \<and>
     map ae_Fill (logged_as EventFill (audit_events es)) = map (Some \<circ> detail_of) (concat (map ob_Fills (placed as)))"

definition stored_orders :: "string \<Rightarrow> 'd answer list \<Rightarrow> 'd effect list \<Rightarrow> bool" where
  "stored_orders name as es \<longleftrightarrow> list_all2 (recorded_as name) (placed as) (effect_orders es)"

lemma placed_append [simp]: "placed (as @ bs) = placed as @ placed bs"
  by (induction as rule: placed.induct) simp_all

lemma placed_Cons: "placed (a # as) = placed [a] @ placed as"
  using placed_append [of "[a]" as] by simp

lemma effect_orders_append [simp]: "effect_orders (es @ fs) = effect_orders es @ effect_orders fs"
  by (induction es rule: effect_orders.induct) simp_all

lemma effect_orders_calls: "call_orders (store_calls now es) = effect_orders es"
  by (induction now es rule: store_calls.induct) simp_all

lemma audited_append: "audited as es \<Longrightarrow> audited bs fs \<Longrightarrow> audited (as @ bs) (es @ fs)"
  by (simp add: audited_def)

lemma stored_orders_append:
  "stored_orders n as es \<Longrightarrow> stored_orders n bs fs \<Longrightarrow> stored_orders n (as @ bs) (es @ fs)"
  by (simp add: stored_orders_def list_all2_appendI)

text \<open>An answer that is no order, with effects that record none.\<close>

definition no_order :: "'d handled \<Rightarrow> bool" where
  "no_order h = (case h of (a, es, s', w') \<Rightarrow> placed [a] = [] \<and> effect_orders es = [] \<and>
     logged_as EventOrderPlaced (audit_events es) = [] \<and> logged_as EventFill (audit_events es) = [])"

lemma no_order_simps [simp]:
  "no_order ((st, BError msg), [], s', w')" "no_order ((st, BStatus x), [], s', w')"
  "no_order ((st, BAdmin x y), [], s', w')" "no_order ((st, BFills x fs), [], s', w')"
  "no_order ((st, BVenueOrder x1), [], s', w')" "no_order ((st, BTop tb), [], s', w')"
  "no_order ((st, BCanceled x), [], s', w')"
  by (simp_all add: no_order_def)

lemma no_order_events [simp]:
  "no_order ((st, BStatus x), [EAudit (blank_event D EventCredRotation v)], s', w')"
  "no_order ((st, BCanceled x), [EAudit ((blank_event D EventOrderCanceled v)\<lparr>ae_OrderID := x\<rparr>)], s', w')"
  by (simp_all add: no_order_def blank_event_def)

lemma no_order_sub: "no_order (handleOrderSub S r s w)"
  unfolding handleOrderSub_def Let_def by (auto split: sum.split prod.split option.split)

lemma no_order_plain:
  "no_order (handleHealthz s w)" "no_order (handleReadyz s w)" "no_order (handleAdminStatus s w)"
  "no_order (handleRotateCreds S s w)" "no_order (handleBook r s w)"
  by (simp_all add: handleHealthz_def handleReadyz_def handleAdminStatus_def handleRotateCreds_def
      handleBook_def Let_def split: option.split)

lemma balance_effects_no_order:
  "effect_orders (fst (balance_effects E s bs w)) = [] \<and>
   logged_as EventOrderPlaced (audit_events (fst (balance_effects E s bs w))) = [] \<and>
   logged_as EventFill (audit_events (fst (balance_effects E s bs w))) = []"
  by (induction bs arbitrary: w) (simp_all add: balance_audit_def blank_event_def split_beta)

lemma no_order_balances: "no_order (handleBalances S r s w)"
  using balance_effects_no_order [of "se_net S" s]
  by (auto simp: no_order_def handleBalances_def split: sum.split prod.split) (metis fst_conv)+

lemma order_effects_logged:
  assumes "sv_audit s"
  shows "map ae_OrderID (logged_as EventOrderPlaced (audit_events (order_effects D s req a p resp))) = [or_VenueOrderID resp] \<and>
    map ae_Fill (logged_as EventFill (audit_events (order_effects D s req a p resp))) = map (Some \<circ> detail_of) (or_Fills resp)"
proof -
  let ?es = "\<lambda>fs. concat (map (\<lambda>f. EAudit (fill_audit D (sv_venueName s) (oq_Pair req) (or_VenueOrderID resp) f) #
    (if sv_events s then [EPublishFill (FillFromVenue (sv_venueName s) (or_VenueOrderID resp) (oq_Pair req) f)] else [])) fs)"
  have "logged_as EventOrderPlaced (audit_events (?es fs)) = [] \<and>
      map ae_Fill (logged_as EventFill (audit_events (?es fs))) = map (Some \<circ> detail_of) fs" for fs
    by (induction fs) (simp_all add: fill_audit_def blank_event_def detail_of_def)
  moreover have "audit_events (map (\<lambda>f. EFill (g f)) fs) = []" for g :: "'a fill \<Rightarrow> 'a store_fill" and fs
    by (induction fs) simp_all
  ultimately show ?thesis using assms
    by (simp add: order_effects_def placed_event_def blank_event_def)
qed

lemma order_effects_orders:
  assumes "sv_store s"
  shows "effect_orders (order_effects D s req a p resp) = [order_record (sv_venueName s) req a p resp]"
proof -
  have "effect_orders (map (\<lambda>f. EFill (g f)) fs) = []" for g :: "'a fill \<Rightarrow> 'a store_fill" and fs
    by (induction fs) simp_all
  moreover have "effect_orders (concat (map (\<lambda>f. EAudit (h f) # (if b then [EPublishFill (k f)] else [])) fs)) = []"
    for h :: "'a fill \<Rightarrow> 'a audit_event" and k :: "'a fill \<Rightarrow> 'a fill_event" and b fs
    by (induction fs) simp_all
  ultimately show ?thesis using assms by (simp add: order_effects_def)
qed

lemma orders_recorded:
  assumes "handleOrdersRoot S r s w = (a, es, s', w')"
  shows "(sv_audit s \<longrightarrow> audited [a] es) \<and> (sv_store s \<longrightarrow> stored_orders (sv_venueName s) [a] es)"
  using assms
  by (auto simp: handleOrdersRoot_def order_effects_logged order_effects_orders audited_def stored_orders_def recorded_as_def order_record_def
      split: sum.splits prod.splits elim!: parse_order_InlE)

lemma no_order_recorded: "no_order (a, es, s', w') \<Longrightarrow> audited [a] es \<and> stored_orders n [a] es"
  by (simp add: no_order_def audited_def stored_orders_def)

lemma Routes_recorded:
  assumes "Routes S r s w = (a, es, s', w')"
  shows "(sv_audit s \<longrightarrow> audited [a] es) \<and> (sv_store s \<longrightarrow> stored_orders (sv_venueName s) [a] es)"
proof (cases "hr_path r = ''/v1/orders''")
  case True
  then show ?thesis using assms orders_recorded by (simp add: Routes_def)
next
  case False
  then have "no_order (Routes S r s w)"
    unfolding Routes_def Let_def by (auto intro: no_order_plain no_order_sub no_order_balances)
  then show ?thesis using no_order_recorded assms by metis
qed

lemma Routes_service:
  assumes "Routes S r s w = (a, es, s', w')"
  shows "sv_audit s' = sv_audit s" "sv_store s' = sv_store s" "sv_venueName s' = sv_venueName s"
proof -
  have "s' = s\<lparr>sv_connector := sv_connector s'\<rparr>"
    using route_ok_Routes [of s w S r] assms by (cases a) (simp add: route_ok_def)
  then have "sv_audit s' = sv_audit s \<and> sv_store s' = sv_store s \<and> sv_venueName s' = sv_venueName s"
    by (metis service.select_convs service.surjective service.update_convs(1))
  then show "sv_audit s' = sv_audit s" "sv_store s' = sv_store s" "sv_venueName s' = sv_venueName s" by simp_all
qed

section \<open>Many requests\<close>

lemma serve_all_recorded:
  "serve_all rs s w = (as, es, s', w') \<Longrightarrow>
    (sv_audit s \<longrightarrow> audited as es) \<and> (sv_store s \<longrightarrow> stored_orders (sv_venueName s) as es)"
proof (induction rs arbitrary: s w as es)
  case (Cons Sr rs)
  obtain S r where Sr: "Sr = (S, r)" by (cases Sr)
  obtain a e1 s1 w1 where 1: "Routes S r s w = (a, e1, s1, w1)" by (metis surj_pair)
  obtain as' es' where rest: "serve_all rs s1 w1 = (as', es', s', w')" "as = [a] @ as'" "es = e1 @ es'"
    using Cons.prems 1 Sr by (auto split: prod.splits)
  show ?case
    using Routes_recorded [OF 1] Cons.IH [OF rest(1)] Routes_service [OF 1]
    unfolding rest(2,3) by (simp add: audited_append stored_orders_append del: append_Cons append_Nil)
qed (simp add: audited_def stored_orders_def)

subsection \<open>On the dummy connector\<close>

text \<open>Everything an order with the dummy connector asks of the store, the sink and the bus.\<close>

lemma dummy_order_effects:
  assumes "sv_connector s = CDummy d" "parse_order S r = Inr (req, amount, price, vReq)" "sv_store s" "sv_audit s"
  shows "\<exists>ob f o1 f1 e1 e2 p s' w'.
    handleOrdersRoot S r s w =
      ((200, BOrder ob), [EOrder o1, EFill f1, EAudit e1, EAudit e2] @ (if sv_events s then [EPublishFill p] else []), s', w') \<and>
    nw_sent w' = nw_sent w \<and>
    ob_Status ob = OrderStatusFilled \<and> ob_FilledQty ob = amount \<and> ob_Fills ob = [f] \<and> fl_Quantity f = amount \<and>
    recorded_as (sv_venueName s) ob o1 \<and>
    sf_VenueOrderID f1 = ob_VenueOrderID ob \<and> sf_TradeID f1 = fl_TradeID f \<and> sf_Quantity f1 = amount \<and>
    ae_Type e1 = EventOrderPlaced \<and> ae_OrderID e1 = ob_VenueOrderID ob \<and>
    ae_Type e2 = EventFill \<and> ae_Fill e2 = Some (detail_of f) \<and>
    p = FillFromVenue (sv_venueName s) (ob_VenueOrderID ob) (oq_Pair req) f"
proof -
  let ?D = "ne_dec (se_net S)" and ?n = "sv_venueName s" and ?u = "se_uuid1 S"
  let ?p = "dummy_order_price ?D vReq d"
  let ?f = "dummy_fill ?D ?u (se_uuid2 S) ?p amount (ne_now (se_net S) (nw_reads w))"
  let ?resp = "dummy_response ?u ?p amount ?f"
  have es: "order_effects ?D s req amount price ?resp =
      [EOrder (order_record ?n req amount price ?resp), EFill (fill_record ?n (oq_Pair req) ?u ?f),
       EAudit (placed_event ?D ?n req amount price ?resp), EAudit (fill_audit ?D ?n (oq_Pair req) ?u ?f)] @
      (if sv_events s then [EPublishFill (FillFromVenue ?n ?u (oq_Pair req) ?f)] else [])"
    using assms(3,4) by (simp add: order_effects_def)
  obtain d' where h: "handleOrdersRoot S r s w =
      ((200, BOrder \<lparr>ob_VenueOrderID = ?u, ob_ClientOrderID = ?u, ob_Status = OrderStatusFilled, ob_FilledQty = amount,
                     ob_AvgPrice = or_AvgPrice ?resp, ob_Fills = [?f], ob_Venue = ?n, ob_Pair = oq_Pair req\<rparr>),
       order_effects ?D s req amount price ?resp, s\<lparr>sv_connector := CDummy d'\<rparr>, w\<lparr>nw_reads := nw_reads w + 1\<rparr>)"
    using handleOrdersRoot_dummy [OF assms(1,2) refl refl, of w] by blast
  show ?thesis
    by (rule exI, rule exI [of _ ?f], (rule exI)+, rule conjI, rule h [unfolded es])
      (simp add: recorded_as_def order_record_def fill_record_def placed_event_def fill_audit_def blank_event_def
        detail_of_def dummy_fill_def)
qed

lemma dummy_PlaceOrder_ids:
  "conn_PlaceOrder S q (CDummy d) w = (Inr resp, c, w') \<Longrightarrow> is_dummy c \<and> or_VenueOrderID resp = or_ClientOrderID resp"
  by (auto simp: Dummy_PlaceOrder_def Let_def is_dummy_def split: prod.splits)

lemma dummy_PlaceOrder_total: "conn_PlaceOrder S q (CDummy d) w \<noteq> (Inl err, c, w')"
  by (auto split: prod.splits)

lemma conn_kinds:
  "conn_PlaceOrder S oq c w = (p, c', w') \<Longrightarrow> is_dummy c' = is_dummy c"
  "conn_CancelOrder S q c w = (e, c', w') \<Longrightarrow> is_dummy c' = is_dummy c"
  "conn_GetFills S fq c w = (x, c', w') \<Longrightarrow> is_dummy c' = is_dummy c"
  "conn_GetOrder S oid c w = (y, c', w') \<Longrightarrow> is_dummy c' = is_dummy c"
  "conn_GetBalances S c w = (z, c', w') \<Longrightarrow> is_dummy c' = is_dummy c"
  by (cases c; auto simp: is_dummy_def with_conn_def split: prod.splits)+

text \<open>No request changes the kind of the connector.\<close>

definition same_kind :: "'d service \<Rightarrow> 'd handled \<Rightarrow> bool" where
  "same_kind s h = (case h of (a, es, s', w') \<Rightarrow> is_dummy (sv_connector s') = is_dummy (sv_connector s))"

lemma same_kind_simps [simp]:
  "same_kind s (a, es, s, w')"
  "same_kind s (a, es, s\<lparr>sv_connector := c\<rparr>, w') = (is_dummy c = is_dummy (sv_connector s))"
  by (simp_all add: same_kind_def)

lemma same_kind_orders: "same_kind s (handleOrdersRoot S r s w)"
  unfolding handleOrdersRoot_def by (auto split: sum.split prod.split dest: conn_kinds(1))

lemma same_kind_sub: "same_kind s (handleOrderSub S r s w)"
  unfolding handleOrderSub_def Let_def
  by (simp split: sum.split prod.split option.split) (blast dest: conn_kinds(2-4))

lemma same_kind_balances: "same_kind s (handleBalances S r s w)"
  unfolding handleBalances_def by (auto split: sum.split prod.split dest: conn_kinds(5))

lemma same_kind_plain:
  "same_kind s (handleHealthz s w)" "same_kind s (handleReadyz s w)" "same_kind s (handleAdminStatus s w)"
  "same_kind s (handleRotateCreds S s w)" "same_kind s (handleBook r s w)"
  by (simp_all add: handleHealthz_def handleReadyz_def handleAdminStatus_def handleRotateCreds_def
      handleBook_def Let_def split: option.split)

lemma same_kind_Routes: "same_kind s (Routes S r s w)"
  unfolding Routes_def Let_def
  by (auto intro: same_kind_orders same_kind_sub same_kind_balances same_kind_plain)

text \<open>The ids of the orders that a dummy service records.\<close>

lemma effect_orders_nil: "\<not> sv_store s \<Longrightarrow> effect_orders (order_effects D s req a p resp) = []"
proof -
  have "effect_orders (concat (map (\<lambda>f. EAudit (h f) # (if b then [EPublishFill (k f)] else [])) fs)) = []"
    for h :: "'a fill \<Rightarrow> 'a audit_event" and k :: "'a fill \<Rightarrow> 'a fill_event" and b fs
    by (induction fs) simp_all
  then show "\<not> sv_store s \<Longrightarrow> ?thesis" by (simp add: order_effects_def)
qed

lemma effect_orders_ids:
  assumes "x \<in> set (effect_orders (order_effects D s req a p resp))" "or_VenueOrderID resp = or_ClientOrderID resp"
  shows "so_VenueOrderID x = so_ClientOrderID x \<and> so_Venue x = sv_venueName s"
  using assms by (cases "sv_store s") (auto simp: order_effects_orders effect_orders_nil order_record_def)

definition own_ids :: "'d service \<Rightarrow> 'd effect list \<Rightarrow> bool" where
  "own_ids s es \<longleftrightarrow> (\<forall>x \<in> set (effect_orders es). so_VenueOrderID x = so_ClientOrderID x \<and> so_Venue x = sv_venueName s)"

lemma own_ids_orders:
  assumes "is_dummy (sv_connector s)" "handleOrdersRoot S r s w = (a, es, s', w')"
  shows "own_ids s es"
proof (cases "parse_order S r")
  case (Inl ans)
  then show ?thesis using assms(2) by (simp add: handleOrdersRoot_def own_ids_def)
next
  case (Inr p)
  obtain d where d: "sv_connector s = CDummy d" using assms(1) by (cases "sv_connector s") (simp_all add: is_dummy_def)
  obtain req amount price vReq where p: "p = (req, amount, price, vReq)" by (metis surj_pair)
  obtain res c w1 where c: "conn_PlaceOrder S vReq (sv_connector s) w = (res, c, w1)" by (metis surj_pair)
  obtain resp where resp: "res = Inr resp" using c d dummy_PlaceOrder_total [of S vReq d w] by (cases res) auto
  have "es = order_effects (ne_dec (se_net S)) s req amount price resp"
    using assms(2) by (simp add: handleOrdersRoot_def Inr p c resp)
  moreover have "or_VenueOrderID resp = or_ClientOrderID resp"
    using dummy_PlaceOrder_ids c unfolding d resp by blast
  ultimately show ?thesis using effect_orders_ids [of _ "ne_dec (se_net S)" s req amount price resp]
    unfolding own_ids_def by blast
qed

lemma own_ids_Routes:
  assumes "is_dummy (sv_connector s)" "Routes S r s w = (a, es, s', w')"
  shows "own_ids s es"
proof (cases "hr_path r = ''/v1/orders''")
  case True
  then show ?thesis using own_ids_orders [OF assms(1)] assms(2) by (simp add: Routes_def)
next
  case False
  then have "no_order (Routes S r s w)"
    unfolding Routes_def Let_def by (auto intro: no_order_plain no_order_sub no_order_balances)
  then show ?thesis by (simp add: assms(2) no_order_def own_ids_def)
qed

lemma serve_all_own_ids:
  "is_dummy (sv_connector s) \<Longrightarrow> serve_all rs s w = (as, es, s', w') \<Longrightarrow> own_ids s es"
proof (induction rs arbitrary: s w as es)
  case (Cons Sr rs)
  obtain S r where Sr: "Sr = (S, r)" by (cases Sr)
  obtain a e1 s1 w1 where 1: "Routes S r s w = (a, e1, s1, w1)" by (metis surj_pair)
  obtain as' es' where rest: "serve_all rs s1 w1 = (as', es', s', w')" "es = e1 @ es'"
    using Cons.prems(2) 1 Sr by (auto split: prod.splits)
  have "is_dummy (sv_connector s1)" using same_kind_Routes [of s S r w] Cons.prems(1) by (simp add: 1 same_kind_def)
  from own_ids_Routes [OF Cons.prems(1) 1] Cons.IH [OF this rest(1)] Routes_service(3) [OF 1]
  show ?case by (auto simp: own_ids_def rest(2))
qed (simp add: own_ids_def)

subsection \<open>Reading the store after the requests\<close>

lemma recorded_as_stamp [simp]: "recorded_as n ob (stamp_order t1 t2 r) = recorded_as n ob r"
  by (simp add: recorded_as_def stamp_order_def)

lemma first_order_recorded:
  assumes "list_all2 (recorded_as n) obs (call_orders cs)" "distinct (map ob_ClientOrderID obs)" "ob \<in> set obs"
  shows "\<exists>r. first_order (ob_ClientOrderID ob) cs = Some r \<and> recorded_as n ob r"
  using assms
proof (induction cs arbitrary: obs)
  case (Cons call cs)
  show ?case
  proof (cases call)
    case (CallOrder t1 t2 r)
    then obtain ob1 obs' where obs: "obs = ob1 # obs'" "recorded_as n ob1 r" "list_all2 (recorded_as n) obs' (call_orders cs)"
      using Cons.prems(1) by (auto simp: list_all2_Cons2)
    have key: "so_ClientOrderID r = ob_ClientOrderID ob1" using obs(2) by (simp add: recorded_as_def)
    show ?thesis
    proof (cases "ob = ob1")
      case True
      then show ?thesis using CallOrder key obs(2) by simp
    next
      case False
      then have in': "ob \<in> set obs'" using Cons.prems(3) obs(1) by simp
      have "ob_ClientOrderID ob1 \<notin> ob_ClientOrderID ` set obs'" using Cons.prems(2) obs(1) by simp
      then have "ob_ClientOrderID ob \<noteq> ob_ClientOrderID ob1" using in' by (metis imageI)
      with in' show ?thesis using Cons.IH [OF obs(3)] Cons.prems(2) obs(1) CallOrder key by simp
    qed
  next
    case (CallFill t f)
    then show ?thesis using Cons.IH [of obs] Cons.prems by simp
  qed
qed simp

lemma own_ids_agree:
  assumes "own_ids s es"
  shows "ids_agree (effect_orders es)" "\<forall>r \<in> set (effect_orders es). so_Venue r = sv_venueName s"
  using assms unfolding own_ids_def ids_agree_def by metis+

lemma mem_store_after:
  assumes "serve_all rs s w = (as, es, s', w')" "sv_store s" "distinct (map ob_ClientOrderID (placed as))" "ob \<in> set (placed as)"
  shows "\<exists>r. MemStore_GetOrderByClientID (ob_ClientOrderID ob) (apply_store now es NewMemStore) = Some r \<and>
    recorded_as (sv_venueName s) ob r"
proof -
  have "list_all2 (recorded_as (sv_venueName s)) (placed as) (call_orders (store_calls now es))"
    using serve_all_recorded [OF assms(1)] assms(2) by (simp add: stored_orders_def effect_orders_calls)
  from first_order_recorded [OF this assms(3,4)] show ?thesis
    using mem.replay_first_wins [OF mem_ok_New, where c = "ob_ClientOrderID ob" and cs = "store_calls now es"]
    by (simp add: apply_store_replay)
qed

end
