(* ===== verification/Spec2Isabelle.thy ===== *)
theory Spec2Isabelle
  imports Go_Prelude Rate_Limit Book_Recon Ws_Client Venue_Model Book_Agg Order_Store Vault_Secrets
    Audit_Log Event_Bus Go_Http Rest_Adapter Binance_Rest Kraken_Rest Otc_Rest Venue_Books Http_Server
    Book_Feeds Observability
    Wiring Sql_Migrations Pg_Store Service_Runs
begin

text \<open>
  Exchange Connectors: one process that places orders at one venue (Binance, Kraken, an OTC desk, or
  an in-memory dummy) for a crypto on-ramp, and records, audits and publishes what it did.

  \<^bold>\<open>The program and its parts.\<close> \<open>main\<close> reads the environment, picks a venue connector, an audit sink, an
  event bus and an order store, and serves HTTP. A request for an order is validated and handed to
  the connector; its answer is recorded in the store, audited and published, in that order. The REST
  connectors ask a rate limiter before each request, sign it, and decode the answer. A book
  subscription keeps a WebSocket open, reconstructs the order book from diffs, and sends the best
  levels over a channel to the aggregator that answers \<open>/v1/book\<close>. Credentials come from a
  vault and are rotated with a probe. Each theory models one part (sources below \<open>src/\<close>):

  \<^item> \<open>Go_Prelude\<close>, \<open>Go_Http\<close>: what the sources use of the Go language and its library: \<open>int64\<close> as
    \<open>int\<close> with the wrap-around written out, \<open>time.Time\<close> as nanoseconds with 0 the zero time, errors
    with their wrapping, maps as association lists, string functions, \<open>encoding/json\<close>, \<open>url.Values\<close>.
  \<^item> \<open>Rate_Limit\<close>: \<open>internal/ratelimit/ratelimit.go\<close>, the weighted window, the decaying counter and
    the requests-per-second window. Locales \<open>rate_limiter\<close> and \<open>window_limiter\<close>, interpreted on all three.
  \<^item> \<open>Ws_Client\<close>, \<open>Book_Recon\<close>: \<open>internal/ws/ws.go\<close>, the reconnecting client as a step relation and
    the book reconstruction.
  \<^item> \<open>Venue_Model\<close>: \<open>internal/venue\<close>, the shared types and the dummy connector, whose orders are
    pointers and hence a heap.
  \<^item> \<open>Book_Agg\<close>: \<open>internal/book/book.go\<close>. \<open>Vault_Secrets\<close>: \<open>internal/secrets/secrets.go\<close>.
  \<^item> \<open>Order_Store\<close>: \<open>internal/store/store.go\<close>; the interface \<open>Store\<close> is the locale \<open>order_store\<close>.
    \<open>Sql_Migrations\<close>: \<open>internal/store/migrations\<close>. \<open>Pg_Store\<close>: \<open>internal/store/postgres\<close>.
  \<^item> \<open>Audit_Log\<close>: \<open>internal/audit\<close>, with the asynchronous sink as a step relation of emitters, the
    drain goroutine and \<open>Close\<close>. \<open>Event_Bus\<close>: \<open>internal/events/events.go\<close>.
  \<^item> \<open>Rest_Adapter\<close>: the contract the adapters' transports share (locales \<open>gated_transport\<close> and
    \<open>metered_transport\<close>), interpreted in \<open>Binance_Rest\<close>, \<open>Kraken_Rest\<close> and \<open>Otc_Rest\<close>, which model
    \<open>internal/adapters/*\<close>. \<open>Venue_Books\<close>: their \<open>book.go\<close> files. \<open>Book_Feeds\<close>: the goroutines of the book
    subscriptions, the channel and the aggregator as step relations; locale \<open>feed_channel\<close>, interpreted
    on the two WebSocket feeds and on the ticker of the dummy connector.
  \<^item> \<open>Http_Server\<close>: \<open>internal/server/server.go\<close>. A handler is a function of the request, the service
    and the network; the calls on store, sink and bus, whose results it ignores, are a list of effects.
  \<^item> \<open>Observability\<close>: \<open>internal/metrics\<close> and \<open>internal/otel\<close>. \<open>Wiring\<close>: \<open>cmd/exchange-connectors/main.go\<close>.
  \<^item> \<open>Service_Runs\<close>: sequences of requests, for the theorems below.

  \<^bold>\<open>What the theorems show.\<close>
  \<^item> Limits: what a limiter admits in any interval is bounded (by the budget per window, by the bucket
    and its decay, by the rate), nothing is admitted during a back-off, and after it the limiters
    recover; and for the adapters, that what reaches the network obeys the same bounds.
  \<^item> Orders: Binance and Kraken are sent exactly one request for an order, with exactly its parameters,
    or none; an OTC quote is accepted only when the desk gave it and did not refuse it; with the dummy
    connector an order over HTTP is filled, recorded and audited, and can be read back.
  \<^item> Stores: the first order of a client id wins and fills are recorded once; the PostgreSQL store
    refines the in-memory one for one venue; migrations are applied once, in order, up to the first
    statement that fails, and reverted.
  \<^item> Audit and events: the queue of the asynchronous sink loses and invents nothing, whatever the
    interleaving; a fill is published at most once, with the documented back-off.
  \<^item> Books: a book without a gap is the fold of its diffs, a gap leads to a new snapshot, the top levels
    are the best ones; an update is lost only when the channel is full, the others reach the
    aggregator in order under every interleaving, and the service answers with the latest; the Kraken feed stays empty because it
    subscribes on a connection that is never read; the ticker serves every pair and never gets stuck.
  \<^item> Secrets: an old lease is revoked only after the probe accepted the new credentials, and redacted
    logs do not depend on the secrets.
  \<^item> Start: exactly which environments let the process serve, and how it shuts down.
  \<^item> Whole process (this theory): the audit log of any sequence of requests is complete, the
    database agrees with what was answered, and what a started process does with orders.

  \<^bold>\<open>Parameters.\<close> What is not in the repository is an argument of the definitions: the clock (a function
  from the number of the reading), the network (a function from the number of the request and the
  request), UUIDs, the iteration order of Go maps, JSON texts to values, decimals (\<open>dec_ops\<close>), hash
  functions and base64, the vault, the Kafka writer, the \<open>pgx\<close> pool, the OpenTelemetry SDK.
  Where a theorem needs something of them it is a hypothesis (\<open>pg_laws\<close>, \<open>tracks_versions\<close>, \<open>data_if_subscribed\<close>) with a
  concrete instance (\<open>table_pool\<close>, \<open>table_runner\<close>) in the witness. Every loop is structural or comes
  with a measure; the goroutines that run for ever are step relations, with no bound on the steps.

  \<^bold>\<open>Not modelled.\<close> \<open>ServeMux\<close> path cleaning, the five-second request contexts and the bytes of the answers
  (the handlers' results are the status and the value that is encoded); log lines and help texts;
  upper and lower case beyond ASCII; values a PostgreSQL column cannot hold (\<open>pg_laws\<close> takes every row);
  rounding of \<open>float64\<close> (exact rationals); the listener's I/O and the signal (one outcome each);
  the internals of the SDKs above; tests.
\<close>

section \<open>Properties that span components\<close>

text \<open>
  C2: the audit log is complete. For any sequence of requests on a service with an audit sink,
  whatever its connector and the network do, the placement events in the in-memory log are, in
  order, exactly the orders that were answered as placed, and the fill events are exactly the
  fills of those answers: nothing placed is missing and nothing else is logged as placed.
\<close>

theorem service_audit_complete:
  assumes "serve_all rs s w = (as, es, s', w')" "sv_audit s"
  shows "map ae_OrderID (logged_as EventOrderPlaced (MemorySink_Events (apply_audit now es []))) =
      map ob_VenueOrderID (placed as) \<and>
    map ae_Fill (logged_as EventFill (MemorySink_Events (apply_audit now es []))) =
      map (\<lambda>f. Some (detail_of f)) (concat (map ob_Fills (placed as)))"
proof -
  have st: "ae_Type (stamp_event now e) = ae_Type e" "ae_OrderID (stamp_event now e) = ae_OrderID e"
    "ae_Fill (stamp_event now e) = ae_Fill e" for e :: "'a audit_event"
    by (simp_all add: stamp_event_def)
  have "audited as es" using serve_all_recorded [OF assms(1)] assms(2) by simp
  then show ?thesis
    by (simp add: audited_def MemorySink_Events_def apply_audit_events filter_map st o_def)
qed

text \<open>
  C11: the service on the database. For any sequence of requests on a service with the dummy
  connector, recording into the PostgreSQL store (empty, and following \<open>pg_laws\<close>) returns at every
  call what the in-memory store would return, and if the client ids of the answers are different
  every order answered as placed is then found in the database under its client id, with the
  venue, pair, status, quantity and price of the answer, up to the texts of the decimals.
\<close>

theorem service_on_postgres:
  assumes "serve_all rs s w = (as, es, s', w')" "sv_store s" "is_dummy (sv_connector s)"
    and "pg_laws P T" "T t0 = \<lparr>tb_orders = [], tb_fills = []\<rparr>" "cs = store_calls now es"
    and "distinct (map ob_ClientOrderID (placed as))" "ob \<in> set (placed as)"
  shows "call_results (Pg_RecordOrder D P) (Pg_RecordFill D P) cs t0 =
      call_results MemStore_RecordOrder MemStore_RecordFill cs NewMemStore \<and>
    (\<exists>r. Pg_GetOrderByClientID D P (ob_ClientOrderID ob) (replay (Pg_RecordOrder D P) (Pg_RecordFill D P) cs t0) =
        Some (reread_order D r) \<and> recorded_as (sv_venueName s) ob r)"
proof -
  have calls: "call_orders cs = effect_orders es" by (simp add: assms(6) effect_orders_calls)
  note ids = own_ids_agree [OF serve_all_own_ids [OF assms(3,1)]]
  have v: "\<forall>r \<in> set (call_orders cs). so_Venue r = sv_venueName s" and a: "ids_agree (call_orders cs)"
    unfolding calls by (rule ids)+
  obtain r where "MemStore_GetOrderByClientID (ob_ClientOrderID ob) (apply_store now es NewMemStore) = Some r"
    "recorded_as (sv_venueName s) ob r"
    using mem_store_after [OF assms(1,2,7,8), of now] by blast
  with pg_simulates_mem_lemma [OF assms(4,5) v a, of D "ob_ClientOrderID ob" "[]"]
  show ?thesis by (auto simp: apply_store_replay assms(6))
qed

text \<open>
  C23: what a started process does with orders. Once \<open>main\<close> serves, the service is ready, has a sink
  and a store, and carries the configured venue name. With Binance or Kraken (and the OTC desk, with
  which the process does not start) an order that passes validation is answered 502, nothing is
  recorded and nothing is sent, because the handler gives the connector no client order id. With any
  other venue it is answered 200, filled with its whole amount by one fill; the order and the fill
  are recorded in the store, then the placement and the fill are audited, and the fill is published
  if there is a bus; nothing else is asked of them and nothing is sent to an exchange.
\<close>

theorem started_process_orders:
  assumes "main_start getenv D now1 now2 openPg = Inr (addr, svc, sink, st, bus)"
    and "parse_order S r = Inr (req, amount, price, vReq)"
  shows "sv_ready svc \<and> sv_audit svc \<and> sv_store svc \<and> sv_venueName svc = main_venue getenv \<and>
    (if main_venue getenv \<in> {''binance'', ''kraken'', ''otc''}
     then \<exists>msg. handleOrdersRoot S r svc w = ((502, BError msg), [], svc, w)
     else \<exists>ob f o1 f1 e1 e2 p s' w'.
       handleOrdersRoot S r svc w =
         ((200, BOrder ob), [EOrder o1, EFill f1, EAudit e1, EAudit e2] @ (if bus \<noteq> None then [EPublishFill p] else []), s', w') \<and>
       nw_sent w' = nw_sent w \<and>
       ob_Status ob = OrderStatusFilled \<and> ob_FilledQty ob = amount \<and> ob_Fills ob = [f] \<and> fl_Quantity f = amount \<and>
       recorded_as (main_venue getenv) ob o1 \<and>
       sf_VenueOrderID f1 = ob_VenueOrderID ob \<and> sf_TradeID f1 = fl_TradeID f \<and> sf_Quantity f1 = amount \<and>
       ae_Type e1 = EventOrderPlaced \<and> ae_OrderID e1 = ob_VenueOrderID ob \<and>
       ae_Type e2 = EventFill \<and> ae_Fill e2 = Some (detail_of f) \<and>
       p = FillFromVenue (main_venue getenv) (ob_VenueOrderID ob) (oq_Pair req) f)"
proof -
  note m = main_started [OF assms(1)]
  show ?thesis
  proof (cases "main_venue getenv \<in> {''binance'', ''kraken'', ''otc''}")
    case True
    then have "\<not> is_dummy (sv_connector svc)" using m by simp
    from refused_after_parse [OF this assms(2), of w] obtain msg where "handleOrdersRoot S r svc w = ((502, BError msg), [], svc, w)" by blast
    then show ?thesis using m True by simp
  next
    case False
    then have "is_dummy (sv_connector svc)" using m by simp
    then obtain d where d: "sv_connector svc = CDummy d" by (cases "sv_connector svc") (simp_all add: is_dummy_def)
    from dummy_order_effects [OF d assms(2), of w] show ?thesis using m False by simp
  qed
qed

section \<open>Concrete runs\<close>

text \<open>One market order sent to a service with the dummy connector.\<close>

definition sample_dummy :: "int service" where
  "sample_dummy = sample_service (CDummy (NewDummyVenueConnector dec_int ''''))"

lemma sample_dummy_flags:
  "sv_audit sample_dummy" "sv_store sample_dummy" "is_dummy (sv_connector sample_dummy)" "sv_venueName sample_dummy = ''dummy''"
  by (simp_all add: sample_dummy_def sample_service_def is_dummy_def)

lemma sample_run:
  "\<exists>ob es s' w' f. serve_all [(sample_server, sample_post)] sample_dummy world0 = ([(200, BOrder ob)], es, s', w') \<and>
     ob_VenueOrderID ob = ''u-1'' \<and> ob_ClientOrderID ob = ''u-1'' \<and> ob_Fills ob = [f] \<and> fl_TradeID f = ''u-2''"
proof -
  have d: "sv_connector sample_dummy = CDummy (NewDummyVenueConnector dec_int '''')"
    by (simp add: sample_dummy_def sample_service_def)
  have r: "Routes sample_server sample_post sample_dummy world0 = handleOrdersRoot sample_server sample_post sample_dummy world0"
    by (simp add: Routes_def sample_post_def)
  have u: "se_uuid1 sample_server = ''u-1''" "se_uuid2 sample_server = ''u-2''" by (simp_all add: sample_server_def)
  from handleOrdersRoot_dummy [OF d sample_parses refl refl, of world0] show ?thesis
    by (auto simp: r u dummy_fill_def)
qed

theorem service_audit_complete_witness:
  "case serve_all [(sample_server, sample_post)] sample_dummy world0 of (as, es, s', w') \<Rightarrow>
     map ae_OrderID (logged_as EventOrderPlaced (MemorySink_Events (apply_audit 7 es []))) = [''u-1''] \<and>
     map (map_option fd_TradeID \<circ> ae_Fill) (logged_as EventFill (MemorySink_Events (apply_audit 7 es []))) = [Some ''u-2'']"
proof -
  obtain ob es s' w' f where run: "serve_all [(sample_server, sample_post)] sample_dummy world0 = ([(200, BOrder ob)], es, s', w')"
    and ob: "ob_VenueOrderID ob = ''u-1''" "ob_Fills ob = [f]" "fl_TradeID f = ''u-2''"
    using sample_run by blast
  have "map ae_OrderID (logged_as EventOrderPlaced (MemorySink_Events (apply_audit 7 es []))) = [''u-1'']"
    "map ae_Fill (logged_as EventFill (MemorySink_Events (apply_audit 7 es []))) = [Some (detail_of f)]"
    using service_audit_complete [OF run sample_dummy_flags(1), of 7] by (simp_all add: ob)
  then show ?thesis by (simp only: run prod.case map_map [symmetric]) (simp add: detail_of_def ob)
qed

theorem service_on_postgres_witness:
  "case serve_all [(sample_server, sample_post)] sample_dummy world0 of (as, es, s', w') \<Rightarrow>
     \<exists>r. Pg_GetOrderByClientID dec_int table_pool ''u-1''
           (replay (Pg_RecordOrder dec_int table_pool) (Pg_RecordFill dec_int table_pool) (store_calls 7 es)
              \<lparr>tb_orders = [], tb_fills = []\<rparr>) = Some r \<and> so_VenueOrderID r = ''u-1'' \<and> so_Venue r = ''dummy''"
proof -
  obtain ob es s' w' f where run: "serve_all [(sample_server, sample_post)] sample_dummy world0 = ([(200, BOrder ob)], es, s', w')"
    and ob: "ob_VenueOrderID ob = ''u-1''" "ob_ClientOrderID ob = ''u-1''"
    using sample_run by blast
  have "distinct (map ob_ClientOrderID (placed [(200, BOrder ob)]))" "ob \<in> set (placed [(200, BOrder ob)])" by simp_all
  from service_on_postgres [OF run sample_dummy_flags(2,3) table_pool_laws refl refl this, where now = 7 and D = dec_int]
  show ?thesis unfolding run prod.case
    by (auto simp: ob sample_dummy_flags recorded_as_def reread_order_def)
qed

theorem started_process_orders_witness:
  "\<exists>addr svc sink st bus ob f o1 f1 e1 e2 p s' w'.
     main_start (\<lambda>k. if k = ''DEV_MODE'' then ''1'' else '''') dec_int 1 1 (\<lambda>s. Inr ()) = Inr (addr, svc, sink, st, bus) \<and>
     sv_venueName svc = ''dummy'' \<and>
     handleOrdersRoot sample_server sample_post svc world0 =
       ((200, BOrder ob), [EOrder o1, EFill f1, EAudit e1, EAudit e2] @ (if bus \<noteq> None then [EPublishFill p] else []), s', w') \<and>
     ob_FilledQty ob = 2 \<and> ob_Fills ob = [f] \<and> sf_Quantity f1 = 2 \<and> nw_sent w' = []"
proof -
  let ?env = "\<lambda>k. if k = ''DEV_MODE'' then ''1'' else ''''"
  have v: "main_venue ?env = ''dummy''" by (simp add: main_venue_def)
  obtain x where x: "main_start ?env dec_int 1 1 (\<lambda>s. Inr ()) = Inr x"
    by (simp add: main_start_def selectConnector_def newAuditSink_def newStore_def NewService_def NewBookAggregator_def Let_def v)
  obtain addr svc sink st bus where m: "main_start ?env dec_int 1 1 (\<lambda>s. Inr ()) = Inr (addr, svc, sink, st, bus)"
    using x by (metis surj_pair)
  have v': "\<not> main_venue ?env \<in> {''binance'', ''kraken'', ''otc''}" "nw_sent world0 = []" by (simp_all add: v world0_def)
  from started_process_orders [OF m sample_parses, of world0, unfolded if_not_P [OF v'(1)] v'(2)] show ?thesis
    unfolding v by (elim exE conjE) (intro exI conjI, rule m, assumption+)
qed

end
